theory Spec2Isabelle
  imports Complex_Main
begin

section \<open>Numbers\<close>

text \<open>
  A JavaScript number is modelled by the real number it denotes. The source computes in
  IEEE doubles, which round every operation. The risk manager is modelled in exact
  arithmetic; the price of a market order and the size of an order, where a rounding error
  can move the last digit that is sent to the exchange, are modelled with every operation
  rounded to the nearest double (\<open>dbl\<close> below). The model has no NaN, no infinities and
  no negative zero among its inputs. Where the source itself can produce NaN or Infinity
  from finite inputs by a division by zero, the result type \<open>jsnum\<close> below writes that
  out. A value \<open>x\<close> of an optional field is \<open>Some x\<close>; \<open>undefined\<close> is \<open>None\<close>.
\<close>

type_synonym number = real

text \<open>JavaScript truthiness of a (finite) number: every number but zero.\<close>

definition truthy :: "number \<Rightarrow> bool" where
  "truthy x = (x \<noteq> 0)"

text \<open>Truthiness of an optional number: \<open>undefined\<close> and \<open>0\<close> are falsy.\<close>

definition truthy_opt :: "number option \<Rightarrow> bool" where
  "truthy_opt v = (case v of None \<Rightarrow> False | Some x \<Rightarrow> truthy x)"

text \<open>\<open>v && P v\<close> used as a condition: false when \<open>v\<close> is falsy.\<close>

definition when_set :: "number option \<Rightarrow> (number \<Rightarrow> bool) \<Rightarrow> bool" where
  "when_set v P = (case v of None \<Rightarrow> False | Some x \<Rightarrow> truthy x \<and> P x)"

text \<open>\<open>v || d\<close> on an optional number.\<close>

definition or_default :: "number option \<Rightarrow> number \<Rightarrow> number" where
  "or_default v d = (case v of None \<Rightarrow> d | Some x \<Rightarrow> if truthy x then x else d)"

text \<open>
  The result of a division whose divisor may be zero: \<open>x / 0\<close> is \<open>Infinity\<close> for
  \<open>x > 0\<close>, \<open>-Infinity\<close> for \<open>x < 0\<close> and NaN for \<open>x = 0\<close>.
\<close>

datatype jsnum = Num number | PosInf | NegInf | NaN

definition js_div :: "number \<Rightarrow> number \<Rightarrow> jsnum" where
  "js_div x y =
     (if y \<noteq> 0 then Num (x / y)
      else if 0 < x then PosInf else if x < 0 then NegInf else NaN)"

text \<open>\<open>v * c\<close> for a positive finite constant \<open>c\<close>.\<close>

definition js_scale :: "jsnum \<Rightarrow> number \<Rightarrow> jsnum" where
  "js_scale v c = (case v of Num x \<Rightarrow> Num (x * c) | other \<Rightarrow> other)"

text \<open>\<open>v >= y\<close>: every comparison with NaN is false.\<close>

definition js_ge :: "jsnum \<Rightarrow> number \<Rightarrow> bool" where
  "js_ge v y = (case v of Num x \<Rightarrow> y \<le> x | PosInf \<Rightarrow> True | NegInf \<Rightarrow> False | NaN \<Rightarrow> False)"

subsection \<open>Doubles\<close>

text \<open>
  Rounding to the nearest integer, a tie going to the even one, as IEEE 754 rounds a
  significand.
\<close>

definition round_half_even :: "number \<Rightarrow> int" where
  "round_half_even x =
     (let n = \<lfloor>x\<rfloor>; r = x - of_int n
      in if r < 1 / 2 then n else if 1 / 2 < r then n + 1 else if even n then n else n + 1)"

text \<open>The number of binary digits of a natural number.\<close>

fun bits :: "nat \<Rightarrow> nat" where
  "bits n = (if n = 0 then 0 else Suc (bits (n div 2)))"

declare bits.simps [simp del]

definition pow2 :: "int \<Rightarrow> number" where
  "pow2 e = (if 0 \<le> e then 2 ^ nat e else 1 / 2 ^ nat (- e))"

text \<open>The binary exponent of a positive number: the \<open>e\<close> with \<open>2^e \<le> x < 2^(e+1)\<close>.\<close>

definition bin_exponent :: "number \<Rightarrow> int" where
  "bin_exponent x =
     (if 1 \<le> x then int (bits (nat \<lfloor>x\<rfloor>)) - 1
      else (let d = bits (nat \<lfloor>1 / x\<rfloor>)
            in if x * 2 ^ (d - 1) = 1 then - int (d - 1) else - int d))"

text \<open>
  The double nearest to a real number, a tie going to the even significand: a double has
  a significand of 53 binary digits, so that between \<open>2^e\<close> and \<open>2^(e+1)\<close> the doubles
  are the multiples of \<open>2^(e-52)\<close>, and below \<open>2^-1022\<close> (the subnormal numbers) the
  multiples of \<open>2^-1074\<close>. The result of an arithmetic operation of the source on two
  doubles is \<open>dbl\<close> of the exact result, as long as that is below \<open>2^1024\<close> in absolute
  value; from there on the source has \<open>Infinity\<close>, which \<open>dbl\<close> does not model.
\<close>

definition dbl :: "number \<Rightarrow> number" where
  "dbl x =
     (if x = 0 then 0
      else (let u = pow2 (max (bin_exponent \<bar>x\<bar>) (- 1022) - 52)
            in sgn x * of_int (round_half_even (\<bar>x\<bar> / u)) * u))"

text \<open>Zero and the normal doubles well below the overflow threshold.\<close>

definition normal_or_zero :: "number \<Rightarrow> bool" where
  "normal_or_zero x = (x = 0 \<or> (1 / 2 ^ 1022 \<le> \<bar>x\<bar> \<and> \<bar>x\<bar> < 2 ^ 1023))"

section \<open>Risk manager\<close>

subsection \<open>Data\<close>

datatype OrderSide = Long | Short | Buy | Sell

datatype OrderType = Market | Limit | StopLossOrder | TakeProfitOrder

datatype market_kind = Spot | Perp

record RiskConfig =
  maxLeverage :: number
  maxPositionSizeUsd :: number
  maxDailyLoss :: "number option"
  maxDrawdownPercent :: "number option"
  requireStopLoss :: "bool option"
  maxOpenPositions :: "number option"

datatype position_side = PLong | PShort

record Position =
  pos_coin :: string
  pos_side :: position_side
  pos_size :: number
  entryPrice :: number
  currentPrice :: number
  pos_leverage :: number
  unrealizedPnl :: number
  unrealizedPnlPercent :: number
  liquidationPrice :: "number option"

record OpenPositionParams =
  coin :: string
  side :: OrderSide
  market :: "market_kind option"
  sizeUsd :: "number option"
  sizeCoin :: "number option"
  leverage :: "number option"
  stopLossPrice :: "number option"
  stopLossPercent :: "number option"
  takeProfitPrice :: "number option"
  takeProfitPercent :: "number option"
  slippagePercent :: "number option"
  orderType :: "OrderType option"
  limitPrice :: "number option"

text \<open>
  The reason and warning strings are template literals. Each constructor stands for one
  template and carries the numbers interpolated into it, before their formatting.
\<close>

datatype reason =
    LeverageExceeds number number
  | PositionSizeExceeds number number
  | AtMaxOpenPositions number
  | DailyLossLimitReached number number
  | DrawdownExceeds jsnum number
  | StopLossRequired
  | InsufficientMargin number number

datatype warning =
    CloseToDailyLossLimit number number
  | CloseToDrawdownLimit jsnum number
  | HighMarginUsage jsnum

record RiskCheckResult =
  allowed :: bool
  reason :: "reason option"
  warnings :: "warning list option"

text \<open>
  The private fields of \<open>RiskManager\<close>. Times are milliseconds, as \<open>Date.now()\<close>
  returns them. Every method is synchronous; the model gives each call one clock reading
  \<open>now\<close>, used for every \<open>Date.now()\<close> the call makes.
\<close>

record RiskManager =
  config :: RiskConfig
  dailyPnl :: number
  dailyPnlResetTime :: int
  tradesLog :: "(int \<times> number) list"

subsection \<open>Configuration\<close>

datatype config_error =
    BadMaxLeverage
  | BadMaxPositionSizeUsd
  | BadMaxDailyLoss
  | BadMaxDrawdownPercent
  | BadMaxOpenPositions

definition validateConfig :: "RiskConfig \<Rightarrow> config_error + RiskConfig" where
  "validateConfig c =
     (if maxLeverage c \<le> 0 \<or> maxLeverage c > 50 then Inl BadMaxLeverage
      else if maxPositionSizeUsd c \<le> 0 then Inl BadMaxPositionSizeUsd
      else if when_set (maxDailyLoss c) (\<lambda>v. v \<le> 0) then Inl BadMaxDailyLoss
      else if when_set (maxDrawdownPercent c) (\<lambda>v. v \<le> 0 \<or> v > 100)
        then Inl BadMaxDrawdownPercent
      else if when_set (maxOpenPositions c) (\<lambda>v. v \<le> 0) then Inl BadMaxOpenPositions
      else Inr c)"

text \<open>The constructor, called at time \<open>now\<close>.\<close>

definition new_RiskManager :: "int \<Rightarrow> RiskConfig \<Rightarrow> config_error + RiskManager" where
  "new_RiskManager now c =
     (case validateConfig c of
        Inl e \<Rightarrow> Inl e
      | Inr c' \<Rightarrow> Inr \<lparr>config = c', dailyPnl = 0, dailyPnlResetTime = now, tradesLog = []\<rparr>)"

text \<open>
  \<open>Partial<RiskConfig>\<close>: a key that is absent is \<open>None\<close> and keeps the stored value;
  a key that is present carries a value of the field's type.
\<close>

record PartialRiskConfig =
  p_maxLeverage :: "number option"
  p_maxPositionSizeUsd :: "number option"
  p_maxDailyLoss :: "number option"
  p_maxDrawdownPercent :: "number option"
  p_requireStopLoss :: "bool option"
  p_maxOpenPositions :: "number option"

text \<open>The object spread \<open>{ ...this.#config, ...config }\<close>.\<close>

definition merge_config :: "RiskConfig \<Rightarrow> PartialRiskConfig \<Rightarrow> RiskConfig" where
  "merge_config c p =
     \<lparr>maxLeverage = (case p_maxLeverage p of None \<Rightarrow> maxLeverage c | Some v \<Rightarrow> v),
      maxPositionSizeUsd =
        (case p_maxPositionSizeUsd p of None \<Rightarrow> maxPositionSizeUsd c | Some v \<Rightarrow> v),
      maxDailyLoss = (case p_maxDailyLoss p of None \<Rightarrow> maxDailyLoss c | Some v \<Rightarrow> Some v),
      maxDrawdownPercent =
        (case p_maxDrawdownPercent p of None \<Rightarrow> maxDrawdownPercent c | Some v \<Rightarrow> Some v),
      requireStopLoss =
        (case p_requireStopLoss p of None \<Rightarrow> requireStopLoss c | Some v \<Rightarrow> Some v),
      maxOpenPositions =
        (case p_maxOpenPositions p of None \<Rightarrow> maxOpenPositions c | Some v \<Rightarrow> Some v)\<rparr>"

text \<open>
  \<open>updateConfig\<close>: the assignment to \<open>#config\<close> happens only when \<open>validateConfig\<close>
  returns; when it throws, the manager is as it was.
\<close>

definition updateConfig :: "PartialRiskConfig \<Rightarrow> RiskManager \<Rightarrow> config_error + RiskManager" where
  "updateConfig p rm =
     (case validateConfig (merge_config (config rm) p) of
        Inl e \<Rightarrow> Inl e
      | Inr c' \<Rightarrow> Inr (rm\<lparr>config := c'\<rparr>))"

definition getConfig :: "RiskManager \<Rightarrow> RiskConfig" where
  "getConfig rm = config rm"

subsection \<open>Daily window and trade history\<close>

definition dayMs :: int where
  "dayMs = 24 * 60 * 60 * 1000"

definition updateDailyPnl :: "int \<Rightarrow> RiskManager \<Rightarrow> RiskManager" where
  "updateDailyPnl now rm =
     (if now - dailyPnlResetTime rm \<ge> dayMs
      then rm\<lparr>dailyPnl := 0, dailyPnlResetTime := now\<rparr>
      else rm)"

text \<open>\<open>xs.slice(-n)\<close>: the last \<open>n\<close> elements, all of them when there are fewer.\<close>

definition slice_last :: "nat \<Rightarrow> 'a list \<Rightarrow> 'a list" where
  "slice_last n xs = drop (length xs - n) xs"

definition recordTrade :: "int \<Rightarrow> number \<Rightarrow> RiskManager \<Rightarrow> RiskManager" where
  "recordTrade now pnl rm =
     (let rm1 = updateDailyPnl now rm;
          rm2 = rm1\<lparr>dailyPnl := dailyPnl rm1 + pnl\<rparr>;
          rm3 = rm2\<lparr>tradesLog := tradesLog rm2 @ [(now, pnl)]\<rparr>
      in if length (tradesLog rm3) > 1000
         then rm3\<lparr>tradesLog := slice_last 1000 (tradesLog rm3)\<rparr>
         else rm3)"

definition getDailyPnl :: "int \<Rightarrow> RiskManager \<Rightarrow> number \<times> RiskManager" where
  "getDailyPnl now rm = (let rm1 = updateDailyPnl now rm in (dailyPnl rm1, rm1))"

record RiskStats =
  st_dailyPnl :: number
  totalTrades :: nat
  avgPnl :: number
  winRate :: number

definition getStats :: "int \<Rightarrow> RiskManager \<Rightarrow> RiskStats \<times> RiskManager" where
  "getStats now rm =
     (let rm1 = updateDailyPnl now rm;
          dailyTrades = filter (\<lambda>t. now - fst t < 24 * 60 * 60 * 1000) (tradesLog rm1);
          totalPnl = foldl (\<lambda>sum t. sum + snd t) 0 dailyTrades;
          winningTrades = length (filter (\<lambda>t. snd t > 0) dailyTrades)
      in (\<lparr>st_dailyPnl = dailyPnl rm1,
           totalTrades = length dailyTrades,
           avgPnl = (if length dailyTrades > 0 then totalPnl / of_nat (length dailyTrades) else 0),
           winRate = (if length dailyTrades > 0
                      then (of_nat winningTrades / of_nat (length dailyTrades)) * 100 else 0)\<rparr>,
          rm1))"

subsection \<open>Pre-trade check\<close>

definition deny :: "reason \<Rightarrow> RiskCheckResult" where
  "deny r = \<lparr>allowed = False, reason = Some r, warnings = None\<rparr>"

text \<open>
  \<open>checkOpenPosition\<close>, with the early returns of the source as the branches of one
  conditional, in the source's order. The daily-loss block calls \<open>updateDailyPnl\<close>, so
  the manager is returned too. The constants \<open>0.1\<close>, \<open>0.8\<close>, \<open>0.9\<close> and \<open>0.7\<close> are
  the exact fractions.
\<close>

definition checkOpenPosition ::
  "int \<Rightarrow> OpenPositionParams \<Rightarrow> Position list \<Rightarrow> number \<Rightarrow> RiskManager
     \<Rightarrow> RiskCheckResult \<times> RiskManager" where
  "checkOpenPosition now params currentPositions accountBalance rm =
     (let cfg = config rm in
      if when_set (leverage params) (\<lambda>l. l > maxLeverage cfg)
      then (deny (LeverageExceeds (the (leverage params)) (maxLeverage cfg)), rm)
      else
      let positionSizeUsd = or_default (sizeUsd params) 0 in
      if positionSizeUsd > maxPositionSizeUsd cfg
      then (deny (PositionSizeExceeds positionSizeUsd (maxPositionSizeUsd cfg)), rm)
      else
      let existingPosition = find (\<lambda>p. pos_coin p = coin params) currentPositions;
          effectivePositionCount =
            (if existingPosition \<noteq> None then length currentPositions
             else length currentPositions + 1) in
      if when_set (maxOpenPositions cfg) (\<lambda>m. of_nat effectivePositionCount > m)
      then (deny (AtMaxOpenPositions (the (maxOpenPositions cfg))), rm)
      else
      let rm1 = (if truthy_opt (maxDailyLoss cfg) then updateDailyPnl now rm else rm) in
      if when_set (maxDailyLoss cfg) (\<lambda>m. \<bar>dailyPnl rm1\<bar> \<ge> m)
      then (deny (DailyLossLimitReached \<bar>dailyPnl rm1\<bar> (the (maxDailyLoss cfg))), rm1)
      else
      let potentialLoss = positionSizeUsd * (1 / 10);
          w1 = (if when_set (maxDailyLoss cfg) (\<lambda>m. \<bar>dailyPnl rm1\<bar> + potentialLoss \<ge> m)
                then [CloseToDailyLossLimit \<bar>dailyPnl rm1\<bar> (the (maxDailyLoss cfg))]
                else []);
          totalUnrealizedPnl = foldl (\<lambda>sum p. sum + unrealizedPnl p) 0 currentPositions;
          drawdownPercent = js_scale (js_div \<bar>totalUnrealizedPnl\<bar> accountBalance) 100 in
      if when_set (maxDrawdownPercent cfg) (\<lambda>m. js_ge drawdownPercent m)
      then (deny (DrawdownExceeds drawdownPercent (the (maxDrawdownPercent cfg))), rm1)
      else
      let w2 = w1 @
               (if when_set (maxDrawdownPercent cfg) (\<lambda>m. js_ge drawdownPercent (m * (8 / 10)))
                then [CloseToDrawdownLimit drawdownPercent (the (maxDrawdownPercent cfg))]
                else []) in
      if requireStopLoss cfg = Some True
         \<and> \<not> truthy_opt (stopLossPrice params) \<and> \<not> truthy_opt (stopLossPercent params)
      then (deny StopLossRequired, rm1)
      else
      let marginRequired = positionSizeUsd / or_default (leverage params) 1 in
      if marginRequired > accountBalance * (9 / 10)
      then (deny (InsufficientMargin marginRequired accountBalance), rm1)
      else
      let w3 = w2 @
               (if marginRequired > accountBalance * (7 / 10)
                then [HighMarginUsage (js_scale (js_div marginRequired accountBalance) 100)]
                else []) in
      (\<lparr>allowed = True, reason = None, warnings = (if w3 \<noteq> [] then Some w3 else None)\<rparr>,
       rm1))"

subsection \<open>The checks taken one at a time\<close>

text \<open>
  The seven checks in the order of the specification, and for each the condition under
  which it fails when taken alone on the same call.
\<close>

datatype risk_check =
  CkLeverage | CkNotional | CkPositionCount | CkDailyLoss | CkDrawdown | CkStopLoss | CkMargin

definition precedence :: "risk_check list" where
  "precedence =
     [CkLeverage, CkNotional, CkPositionCount, CkDailyLoss, CkDrawdown, CkStopLoss, CkMargin]"

fun fails ::
  "int \<Rightarrow> OpenPositionParams \<Rightarrow> Position list \<Rightarrow> number \<Rightarrow> RiskManager \<Rightarrow> risk_check \<Rightarrow> bool"
  where
  "fails now params ps bal rm CkLeverage =
     when_set (leverage params) (\<lambda>l. l > maxLeverage (config rm))"
| "fails now params ps bal rm CkNotional =
     (or_default (sizeUsd params) 0 > maxPositionSizeUsd (config rm))"
| "fails now params ps bal rm CkPositionCount =
     when_set (maxOpenPositions (config rm))
       (\<lambda>m. of_nat (if \<exists>p \<in> set ps. pos_coin p = coin params then length ps
                     else length ps + 1) > m)"
| "fails now params ps bal rm CkDailyLoss =
     when_set (maxDailyLoss (config rm)) (\<lambda>m. \<bar>dailyPnl (updateDailyPnl now rm)\<bar> \<ge> m)"
| "fails now params ps bal rm CkDrawdown =
     when_set (maxDrawdownPercent (config rm))
       (\<lambda>m. js_ge (js_scale (js_div \<bar>sum_list (map unrealizedPnl ps)\<bar> bal) 100) m)"
| "fails now params ps bal rm CkStopLoss =
     (requireStopLoss (config rm) = Some True
      \<and> \<not> truthy_opt (stopLossPrice params) \<and> \<not> truthy_opt (stopLossPercent params))"
| "fails now params ps bal rm CkMargin =
     (or_default (sizeUsd params) 0 / or_default (leverage params) 1 > bal * (9 / 10))"

text \<open>The check a denial reason belongs to.\<close>

fun check_of :: "reason \<Rightarrow> risk_check" where
  "check_of (LeverageExceeds _ _) = CkLeverage"
| "check_of (PositionSizeExceeds _ _) = CkNotional"
| "check_of (AtMaxOpenPositions _) = CkPositionCount"
| "check_of (DailyLossLimitReached _ _) = CkDailyLoss"
| "check_of (DrawdownExceeds _ _) = CkDrawdown"
| "check_of StopLossRequired = CkStopLoss"
| "check_of (InsufficientMargin _ _) = CkMargin"

subsection \<open>Sequences of operations\<close>

datatype rm_op =
    OpRecordTrade number
  | OpGetDailyPnl
  | OpGetStats
  | OpCheckOpen OpenPositionParams "Position list" number
  | OpUpdateConfig PartialRiskConfig

text \<open>One operation at clock reading \<open>now\<close>; a rejected reconfiguration leaves the manager.\<close>

fun step :: "RiskManager \<Rightarrow> int \<times> rm_op \<Rightarrow> RiskManager" where
  "step rm (now, OpRecordTrade pnl) = recordTrade now pnl rm"
| "step rm (now, OpGetDailyPnl) = snd (getDailyPnl now rm)"
| "step rm (now, OpGetStats) = snd (getStats now rm)"
| "step rm (now, OpCheckOpen params ps bal) = snd (checkOpenPosition now params ps bal rm)"
| "step rm (now, OpUpdateConfig p) = (case updateConfig p rm of Inl e \<Rightarrow> rm | Inr rm' \<Rightarrow> rm')"

definition run :: "RiskManager \<Rightarrow> (int \<times> rm_op) list \<Rightarrow> RiskManager" where
  "run rm ops = foldl step rm ops"

text \<open>Whether an operation reaches \<open>updateDailyPnl\<close>.\<close>

fun consults_window :: "RiskManager \<Rightarrow> int \<times> rm_op \<Rightarrow> bool" where
  "consults_window rm (now, OpRecordTrade pnl) = True"
| "consults_window rm (now, OpGetDailyPnl) = True"
| "consults_window rm (now, OpGetStats) = True"
| "consults_window rm (now, OpCheckOpen params ps bal) =
     (truthy_opt (maxDailyLoss (config rm))
      \<and> \<not> fails now params ps bal rm CkLeverage
      \<and> \<not> fails now params ps bal rm CkNotional
      \<and> \<not> fails now params ps bal rm CkPositionCount)"
| "consults_window rm (now, OpUpdateConfig p) = False"

text \<open>The sum of the profits and losses recorded at or after time \<open>w\<close>.\<close>

definition recorded_since :: "int \<Rightarrow> (int \<times> rm_op) list \<Rightarrow> number" where
  "recorded_since w ops =
     sum_list (map (\<lambda>(t, op). case op of OpRecordTrade pnl \<Rightarrow> if w \<le> t then pnl else 0
                                        | _ \<Rightarrow> 0) ops)"

text \<open>The sum of all the profits and losses that the operations record.\<close>

definition recorded :: "(int \<times> rm_op) list \<Rightarrow> number" where
  "recorded ops =
     sum_list (map (\<lambda>(t, op). case op of OpRecordTrade pnl \<Rightarrow> pnl | _ \<Rightarrow> 0) ops)"

text \<open>
  The invariant of the daily window after the operations \<open>ops\<close> on a manager built at
  time \<open>t0\<close>: the counter is the sum recorded since the window started, every recorded
  trade is less than a day after the window start, and the window started at the
  construction or at one of the calls.
\<close>

definition window_inv :: "int \<Rightarrow> (int \<times> rm_op) list \<Rightarrow> RiskManager \<Rightarrow> bool" where
  "window_inv t0 ops rm =
     (dailyPnl rm = recorded_since (dailyPnlResetTime rm) ops
      \<and> (\<forall>(t, op) \<in> set ops. (\<exists>pnl. op = OpRecordTrade pnl) \<longrightarrow> t < dailyPnlResetTime rm + dayMs)
      \<and> dailyPnlResetTime rm \<in> set (t0 # map fst ops))"

subsection \<open>Validity of a configuration, as the specification words it\<close>

text \<open>
  The ranges of the specification, an optional limit being constrained whenever it is
  supplied: \<open>maxLeverage\<close> in (0,50], \<open>maxPositionSizeUsd > 0\<close>, optional
  \<open>maxDailyLoss > 0\<close>, optional \<open>maxDrawdownPercent\<close> in (0,100], optional
  \<open>maxOpenPositions > 0\<close>.
\<close>

definition spec_valid_config :: "RiskConfig \<Rightarrow> bool" where
  "spec_valid_config c =
     (0 < maxLeverage c \<and> maxLeverage c \<le> 50
      \<and> 0 < maxPositionSizeUsd c
      \<and> (case maxDailyLoss c of None \<Rightarrow> True | Some v \<Rightarrow> 0 < v)
      \<and> (case maxDrawdownPercent c of None \<Rightarrow> True | Some v \<Rightarrow> 0 < v \<and> v \<le> 100)
      \<and> (case maxOpenPositions c of None \<Rightarrow> True | Some v \<Rightarrow> 0 < v))"

text \<open>The same ranges with the optional limits closed at zero.\<close>

definition accepted_config :: "RiskConfig \<Rightarrow> bool" where
  "accepted_config c =
     (0 < maxLeverage c \<and> maxLeverage c \<le> 50
      \<and> 0 < maxPositionSizeUsd c
      \<and> (case maxDailyLoss c of None \<Rightarrow> True | Some v \<Rightarrow> 0 \<le> v)
      \<and> (case maxDrawdownPercent c of None \<Rightarrow> True | Some v \<Rightarrow> 0 \<le> v \<and> v \<le> 100)
      \<and> (case maxOpenPositions c of None \<Rightarrow> True | Some v \<Rightarrow> 0 \<le> v))"

section \<open>Toolkit: strings and number formatting\<close>

text \<open>\<open>String.prototype.toUpperCase\<close> on ASCII text; other bytes are left as they are.\<close>

definition upper_char :: "char \<Rightarrow> char" where
  "upper_char ch =
     (case map_of (zip ''abcdefghijklmnopqrstuvwxyz'' ''ABCDEFGHIJKLMNOPQRSTUVWXYZ'') ch of
        None \<Rightarrow> ch
      | Some u \<Rightarrow> u)"

definition toUpperCase :: "string \<Rightarrow> string" where
  "toUpperCase str = map upper_char str"

text \<open>The decimal digits of a natural number, most significant first.\<close>

definition digit_char :: "nat \<Rightarrow> char" where
  "digit_char d = ''0123456789'' ! d"

fun digits :: "nat \<Rightarrow> string" where
  "digits n = (if n < 10 then [digit_char n] else digits (n div 10) @ [digit_char (n mod 10)])"

declare digits.simps [simp del]

text \<open>
  Rounding to the nearest integer, a tie going up: the integer \<open>n\<close> for which
  \<open>n - x\<close> is as close to zero as possible, the larger one if there are two, as
  \<open>toFixed\<close> and \<open>toPrecision\<close> choose it.
\<close>

definition round_half_up :: "number \<Rightarrow> int" where
  "round_half_up x = \<lfloor>x + 1 / 2\<rfloor>"

definition pow10 :: "int \<Rightarrow> number" where
  "pow10 e = (if 0 \<le> e then 10 ^ nat e else 1 / 10 ^ nat (- e))"

text \<open>
  \<open>Number.prototype.toFixed\<close>, for \<open>|x| < 10^21\<close> (from there on the source's
  \<open>toFixed\<close> answers in exponent notation, which \<open>toFixed\<close> below does not render):
  the integer \<open>n\<close> nearest to \<open>|x| * 10^f\<close>, written with at least \<open>f + 1\<close> digits
  and a point before the last \<open>f\<close>, after a minus sign when \<open>x < 0\<close>.
\<close>

definition toFixed_n :: "nat \<Rightarrow> number \<Rightarrow> nat" where
  "toFixed_n f x = nat (round_half_up (\<bar>x\<bar> * 10 ^ f))"

definition toFixed :: "nat \<Rightarrow> number \<Rightarrow> string" where
  "toFixed f x =
     (let m = digits (toFixed_n f x);
          m' = (if f \<noteq> 0
                then (let z = (if length m \<le> f then replicate (f + 1 - length m) CHR ''0'' @ m
                               else m)
                      in take (length z - f) z @ ''.'' @ drop (length z - f) z)
                else m)
      in (if x < 0 then ''-'' else '''') @ m')"

text \<open>
  The number that the string \<open>x.toFixed(f)\<close> denotes; from \<open>10^21\<close> on the string is
  that of \<open>x\<close> itself.
\<close>

definition toFixed_value :: "nat \<Rightarrow> number \<Rightarrow> number" where
  "toFixed_value f x =
     (if 10 ^ 21 \<le> \<bar>x\<bar> then x else sgn x * of_nat (toFixed_n f x) / 10 ^ f)"

text \<open>The decimal exponent of a positive number: the \<open>e\<close> with \<open>10^e \<le> x < 10^(e+1)\<close>.\<close>

definition dec_exponent :: "number \<Rightarrow> int" where
  "dec_exponent x =
     (if 1 \<le> x then int (length (digits (nat \<lfloor>x\<rfloor>))) - 1
      else (let d = length (digits (nat \<lfloor>1 / x\<rfloor>))
            in if x * 10 ^ (d - 1) = 1 then - int (d - 1) else - int d))"

text \<open>
  The number that the string \<open>x.toPrecision(p)\<close> denotes: the nearest number with
  \<open>p\<close> significant decimal digits, a tie going away from zero.
\<close>

definition toPrecision_value :: "nat \<Rightarrow> number \<Rightarrow> number" where
  "toPrecision_value p x =
     (if x = 0 then 0
      else (let u = pow10 (dec_exponent \<bar>x\<bar> - int p + 1)
            in sgn x * of_int (round_half_up (\<bar>x\<bar> / u)) * u))"

text \<open>
  \<open>str.replace(/\.?0+$/, '')\<close>. The pattern has to reach the end of the string, so the
  match, if there is one, is a suffix: an optional point and then one or more zeros. The
  leftmost match is replaced, that is, the longest such suffix is cut off.
\<close>

definition matches_zeros_to_end :: "string \<Rightarrow> bool" where
  "matches_zeros_to_end str =
     (case str of
        [] \<Rightarrow> False
      | ch # rest \<Rightarrow>
          if ch = CHR ''.'' then rest \<noteq> [] \<and> list_all (\<lambda>c. c = CHR ''0'') rest
          else list_all (\<lambda>c. c = CHR ''0'') str)"

fun strip_trailing_zeros :: "string \<Rightarrow> string" where
  "strip_trailing_zeros [] = []"
| "strip_trailing_zeros (ch # rest) =
     (if matches_zeros_to_end (ch # rest) then [] else ch # strip_trailing_zeros rest)"

subsection \<open>Order size\<close>

datatype rounding = Down | Up

datatype exn =
    GatewayError string
  | FetchAccountFailed
  | UnknownSpotAsset string
  | UnknownPerpAsset string
  | NoPriceAvailable string
  | SizeUnspecified
  | SizeNotPositive
  | SizeTooSmall nat
  | NoOrderBook string
  | NoLiquidity string
  | MissingStatuses
  | FetchPositionsFailed
  | NoOpenPosition string

text \<open>
  \<open>formatSize\<close>. \<open>Number.isFinite\<close> holds of every number of the model. In exact
  arithmetic \<open>roundedRaw * 10^decimals\<close> is an integer, which \<open>toFixed\<close> writes out.
\<close>

definition formatSize :: "number \<Rightarrow> nat \<Rightarrow> rounding \<Rightarrow> exn + string" where
  "formatSize sz decimals rnd =
     (if sz \<le> 0 then Inl SizeNotPositive
      else (let factor = 10 ^ decimals;
                roundedRaw = (if rnd = Up then of_int \<lceil>sz * factor\<rceil> / factor
                              else of_int \<lfloor>sz * factor\<rfloor> / factor)
            in if roundedRaw \<le> 0 then Inl (SizeTooSmall decimals)
               else Inr (strip_trailing_zeros (toFixed decimals roundedRaw))))"

section \<open>Toolkit: the exchange gateway\<close>

text \<open>
  The exchange client is outside the program. A decimal string that the source reads from
  a response with \<open>parseFloat\<close> is modelled by the double that \<open>parseFloat\<close> makes of
  it, and a decimal string that it sends as a price by the number that the string denotes;
  the size of an order is kept as the string that \<open>formatSize\<close> builds. A field that may
  be missing from a response is an option.
\<close>

datatype json =
    JNull
  | JBool bool
  | JNum number
  | JStr string
  | JArr "json list"
  | JObj "(string \<times> json) list"

record raw_position =
  rp_coin :: string
  szi :: number
  entryPx :: "number option"
  rp_unrealizedPnl :: "number option"
  leverage_value :: "number option"
  liquidationPx :: "number option"

record clearinghouse =
  assetPositions :: "raw_position list"
  marginSummary_accountValue :: "number option"
  crossMarginSummary_accountValue :: "number option"
  totalMarginUsed :: "number option"
  ch_withdrawable :: "number option"

record perp_asset =
  pa_name :: string
  pa_szDecimals :: nat

record spot_token =
  tok_index :: nat
  tok_name :: string
  tok_szDecimals :: nat

record spot_pair =
  sp_index :: nat
  sp_name :: string
  sp_tokens :: "nat \<times> nat"

record spot_meta =
  sm_tokens :: "spot_token list"
  sm_universe :: "spot_pair list"

text \<open>An order book: the bid levels and the ask levels, each level a price and a size.\<close>

record l2book =
  bid_levels :: "(number \<times> number) list"
  ask_levels :: "(number \<times> number) list"

datatype tif = Ioc | Gtc

datatype tpsl = Sl | Tp

datatype order_t = LimitTif tif | Trigger number bool tpsl

text \<open>One element of \<open>orders\<close>, with its keys \<open>a\<close>, \<open>b\<close>, \<open>p\<close>, \<open>s\<close>, \<open>r\<close>, \<open>t\<close>.\<close>

record order_req =
  o_a :: nat
  o_b :: bool
  o_p :: number
  o_s :: string
  o_r :: bool
  o_t :: order_t

datatype grouping = Na | PositionTpsl

text \<open>The calls that the toolkit makes on the info client and on the exchange client.\<close>

datatype call =
    ClearinghouseState
  | AllMids
  | Meta
  | SpotMeta
  | L2Book string
  | UpdateLeverage nat bool number
  | PlaceOrder order_req grouping

text \<open>
  What the exchange answers. The first argument of each function is the number of calls
  made before this one, so that the same call may be answered differently at different
  times; \<open>Inl msg\<close> is a rejected promise, an error with message \<open>msg\<close>.
\<close>

record gateway =
  gw_clearinghouseState :: "nat \<Rightarrow> string + clearinghouse"
  gw_allMids :: "nat \<Rightarrow> string + (string \<Rightarrow> number option)"
  gw_meta :: "nat \<Rightarrow> string + perp_asset list"
  gw_spotMeta :: "nat \<Rightarrow> string + spot_meta"
  gw_l2Book :: "nat \<Rightarrow> string \<Rightarrow> string + l2book option"
  gw_updateLeverage :: "nat \<Rightarrow> nat \<Rightarrow> bool \<Rightarrow> number \<Rightarrow> string + unit"
  gw_order :: "nat \<Rightarrow> order_req \<Rightarrow> grouping \<Rightarrow> string + json"

section \<open>Toolkit: state and control\<close>

record perp_info =
  pi_index :: nat
  pi_szDecimals :: nat

record spot_info =
  si_index :: nat
  si_pairName :: string
  si_szDecimals :: nat

record asset_ref =
  ar_index :: nat
  ar_pairName :: string
  ar_szDecimals :: nat

text \<open>
  The private fields of \<open>HyperliquidAgentToolkit\<close> that the trading actions use, and two
  ghost fields: \<open>calls\<close>, the gateway calls made so far in their order, and
  \<open>riskChecks\<close>, the number of calls of \<open>RiskManager.checkOpenPosition\<close> so far.
\<close>

record toolkit =
  riskManager :: "RiskManager option"
  defaultSlippage :: number
  assetMap :: "(string \<Rightarrow> perp_info option) option"
  spotAssetMap :: "(string \<Rightarrow> spot_info option) option"
  calls :: "call list"
  riskChecks :: nat

record toolkit_config =
  tc_riskConfig :: "RiskConfig option"
  tc_defaultSlippagePercent :: "number option"

text \<open>The constructor, at time \<open>now\<close>; the wallet, the network and the clients are left out.\<close>

definition new_toolkit :: "int \<Rightarrow> toolkit_config \<Rightarrow> config_error + toolkit" where
  "new_toolkit now cfg =
     (let tk = \<lparr>riskManager = None,
                defaultSlippage = or_default (tc_defaultSlippagePercent cfg) 1,
                assetMap = None, spotAssetMap = None, calls = [], riskChecks = 0\<rparr>
      in case tc_riskConfig cfg of
           None \<Rightarrow> Inr tk
         | Some rc \<Rightarrow>
             (case new_RiskManager now rc of
                Inl e \<Rightarrow> Inl e
              | Inr rm \<Rightarrow> Inr (tk\<lparr>riskManager := Some rm\<rparr>)))"

text \<open>
  An asynchronous method body: it runs on the toolkit and either throws (\<open>Inl\<close>) or
  returns (\<open>Inr\<close>), leaving the toolkit as changed up to there.
\<close>

type_synonym 'a io = "toolkit \<Rightarrow> (exn + 'a) \<times> toolkit"

definition ret :: "'a \<Rightarrow> 'a io" where
  "ret x = (\<lambda>tk. (Inr x, tk))"

definition throw :: "exn \<Rightarrow> 'a io" where
  "throw e = (\<lambda>tk. (Inl e, tk))"

definition bind :: "'a io \<Rightarrow> ('a \<Rightarrow> 'b io) \<Rightarrow> 'b io" where
  "bind m f = (\<lambda>tk. case m tk of (Inl e, tk') \<Rightarrow> (Inl e, tk') | (Inr x, tk') \<Rightarrow> f x tk')"

text \<open>A synchronous helper that may throw.\<close>

definition lift :: "exn + 'a \<Rightarrow> 'a io" where
  "lift r = (\<lambda>tk. (r, tk))"

text \<open>A method that catches what its body throws and returns it as a failed result.\<close>

definition attempt :: "'a io \<Rightarrow> (exn + 'a) io" where
  "attempt m = (\<lambda>tk. case m tk of (r, tk') \<Rightarrow> (Inr r, tk'))"

text \<open>An awaited gateway call: it is recorded, and answered by the gateway.\<close>

definition gw_call :: "call \<Rightarrow> (nat \<Rightarrow> string + 'a) \<Rightarrow> 'a io" where
  "gw_call c answer =
     (\<lambda>tk. ((case answer (length (calls tk)) of Inl msg \<Rightarrow> Inl (GatewayError msg)
                                               | Inr v \<Rightarrow> Inr v),
            tk\<lparr>calls := calls tk @ [c]\<rparr>))"

section \<open>Toolkit: reading the account\<close>

text \<open>The \<open>map\<close> callback of \<open>getPositions\<close>.\<close>

definition position_of :: "(string \<Rightarrow> number option) \<Rightarrow> raw_position \<Rightarrow> Position" where
  "position_of mids rp =
     (let sz = szi rp;
          entry = (case entryPx rp of None \<Rightarrow> 0 | Some v \<Rightarrow> v);
          current = (case mids (rp_coin rp) of None \<Rightarrow> 0 | Some v \<Rightarrow> v);
          upnl = (case rp_unrealizedPnl rp of None \<Rightarrow> 0 | Some v \<Rightarrow> v);
          lev = (case leverage_value rp of None \<Rightarrow> 1 | Some v \<Rightarrow> v)
      in \<lparr>pos_coin = rp_coin rp,
          pos_side = (if sz > 0 then PLong else PShort),
          pos_size = \<bar>sz\<bar>,
          entryPrice = entry,
          currentPrice = current,
          pos_leverage = lev,
          unrealizedPnl = upnl,
          unrealizedPnlPercent = (if entry > 0 then (upnl / (\<bar>sz\<bar> * entry)) * 100 else 0),
          liquidationPrice =
            (case liquidationPx rp of None \<Rightarrow> None
             | Some v \<Rightarrow> if truthy v then Some v else None)\<rparr>)"

text \<open>\<open>getPositions\<close> after its first \<open>await\<close>, and the whole of its \<open>try\<close> block.\<close>

definition getPositions_rest :: "gateway \<Rightarrow> clearinghouse \<Rightarrow> Position list io" where
  "getPositions_rest gw st =
     bind (gw_call AllMids (gw_allMids gw))
       (\<lambda>mids. ret (map (position_of mids) (filter (\<lambda>rp. szi rp \<noteq> 0) (assetPositions st))))"

definition getPositions_body :: "gateway \<Rightarrow> Position list io" where
  "getPositions_body gw =
     bind (gw_call ClearinghouseState (gw_clearinghouseState gw)) (getPositions_rest gw)"

text \<open>
  \<open>getPositions\<close> catches every error and returns a result: \<open>Inl\<close> is
  \<open>{ success: false }\<close>, \<open>Inr\<close> carries \<open>data\<close>.
\<close>

definition getPositions :: "gateway \<Rightarrow> (exn + Position list) io" where
  "getPositions gw = attempt (getPositions_body gw)"

record Balance =
  accountValue :: number
  availableBalance :: number
  marginUsed :: number
  withdrawable :: number

definition balance_of :: "clearinghouse \<Rightarrow> Balance" where
  "balance_of st =
     \<lparr>accountValue = (case marginSummary_accountValue st of None \<Rightarrow> 0 | Some v \<Rightarrow> v),
      availableBalance = (case crossMarginSummary_accountValue st of None \<Rightarrow> 0 | Some v \<Rightarrow> v),
      marginUsed = (case totalMarginUsed st of None \<Rightarrow> 0 | Some v \<Rightarrow> v),
      withdrawable = (case ch_withdrawable st of None \<Rightarrow> 0 | Some v \<Rightarrow> v)\<rparr>"

definition getBalance :: "gateway \<Rightarrow> (exn + Balance) io" where
  "getBalance gw =
     attempt (bind (gw_call ClearinghouseState (gw_clearinghouseState gw))
                (\<lambda>st. ret (balance_of st)))"

text \<open>
  \<open>Promise.all([this.getPositions(), this.getBalance()])\<close>. Each of the two methods runs
  up to its first \<open>await\<close> when it is called, so both \<open>clearinghouseState\<close> requests
  are made, in this order, before \<open>getPositions\<close> goes on to \<open>allMids\<close>; it does so
  only if its own request succeeded.
\<close>

definition getPositions_and_Balance ::
  "gateway \<Rightarrow> ((exn + Position list) \<times> (exn + Balance)) io" where
  "getPositions_and_Balance gw =
     bind (attempt (gw_call ClearinghouseState (gw_clearinghouseState gw)))
       (\<lambda>r1. bind (attempt (gw_call ClearinghouseState (gw_clearinghouseState gw)))
          (\<lambda>r2. bind (case r1 of Inl e \<Rightarrow> ret (Inl e)
                                  | Inr st \<Rightarrow> attempt (getPositions_rest gw st))
             (\<lambda>positionsResult.
                ret (positionsResult,
                     (case r2 of Inl e \<Rightarrow> Inl e | Inr st \<Rightarrow> Inr (balance_of st))))))"

section \<open>Toolkit: asset index and order book\<close>

text \<open>\<open>meta.universe.forEach((asset, index) => ...)\<close>: a later asset of the same name wins.\<close>

definition build_assetMap :: "perp_asset list \<Rightarrow> (string \<Rightarrow> perp_info option)" where
  "build_assetMap universe =
     foldl (\<lambda>m (i, asset). m(pa_name asset \<mapsto> \<lparr>pi_index = i, pi_szDecimals = pa_szDecimals asset\<rparr>))
       Map.empty (enumerate 0 universe)"

text \<open>\<open>new Map(tokens.map(token => [token.index, token]))\<close>: a later token of an index wins.\<close>

definition tokenByIndex :: "spot_token list \<Rightarrow> (nat \<Rightarrow> spot_token option)" where
  "tokenByIndex tokens = map_of (rev (map (\<lambda>tok. (tok_index tok, tok)) tokens))"

definition build_spotAssetMap :: "spot_meta \<Rightarrow> (string \<Rightarrow> spot_info option)" where
  "build_spotAssetMap sm =
     foldl (\<lambda>m pair.
              case tokenByIndex (sm_tokens sm) (fst (sp_tokens pair)) of
                None \<Rightarrow> m
              | Some baseToken \<Rightarrow>
                  (let spotInfo = \<lparr>si_index = sp_index pair, si_pairName = sp_name pair,
                                   si_szDecimals = tok_szDecimals baseToken\<rparr>;
                       tokenName = toUpperCase (tok_name baseToken);
                       m1 = (if m tokenName = None then m(tokenName \<mapsto> spotInfo) else m)
                   in m1(toUpperCase (sp_name pair) \<mapsto> spotInfo)))
       Map.empty (sm_universe sm)"

definition getAssetIndex :: "gateway \<Rightarrow> string \<Rightarrow> market_kind \<Rightarrow> asset_ref io" where
  "getAssetIndex gw c mkt =
     (case mkt of
        Spot \<Rightarrow>
          bind (\<lambda>tk. case spotAssetMap tk of
                        Some m \<Rightarrow> ret m tk
                      | None \<Rightarrow>
                          bind (gw_call SpotMeta (gw_spotMeta gw))
                            (\<lambda>sm tk'. (Inr (build_spotAssetMap sm),
                                       tk'\<lparr>spotAssetMap := Some (build_spotAssetMap sm)\<rparr>)) tk)
            (\<lambda>m. case m (toUpperCase c) of
                    None \<Rightarrow> throw (UnknownSpotAsset c)
                  | Some spotInfo \<Rightarrow>
                      ret \<lparr>ar_index = 10000 + si_index spotInfo,
                           ar_pairName = si_pairName spotInfo,
                           ar_szDecimals = si_szDecimals spotInfo\<rparr>)
      | Perp \<Rightarrow>
          bind (\<lambda>tk. case assetMap tk of
                        Some m \<Rightarrow> ret m tk
                      | None \<Rightarrow>
                          bind (gw_call Meta (gw_meta gw))
                            (\<lambda>universe tk'. (Inr (build_assetMap universe),
                                             tk'\<lparr>assetMap := Some (build_assetMap universe)\<rparr>)) tk)
            (\<lambda>m. case m (toUpperCase c) of
                    None \<Rightarrow> throw (UnknownPerpAsset c)
                  | Some perpInfo \<Rightarrow>
                      ret \<lparr>ar_index = pi_index perpInfo, ar_pairName = c,
                           ar_szDecimals = pi_szDecimals perpInfo\<rparr>))"

text \<open>\<open>levels[i]?.[0]?.px || '0'\<close>, as a number.\<close>

definition top_px :: "(number \<times> number) list \<Rightarrow> number" where
  "top_px levels = (case levels of [] \<Rightarrow> 0 | level # _ \<Rightarrow> fst level)"

definition getBookTopLevels :: "gateway \<Rightarrow> string \<Rightarrow> (number \<times> number) io" where
  "getBookTopLevels gw c =
     bind (gw_call (L2Book c) (\<lambda>i. gw_l2Book gw i c))
       (\<lambda>book. case book of
                  None \<Rightarrow> throw (NoOrderBook c)
                | Some bk \<Rightarrow>
                    (let bestBid = top_px (bid_levels bk); bestAsk = top_px (ask_levels bk)
                     in if \<not> truthy bestBid \<or> \<not> truthy bestAsk then throw (NoLiquidity c)
                        else ret (bestBid, bestAsk)))"

definition getMidPriceFromTop :: "(number \<times> number) option \<Rightarrow> number" where
  "getMidPriceFromTop bookTop =
     (case bookTop of None \<Rightarrow> 0 | Some (bestBid, bestAsk) \<Rightarrow> (bestBid + bestAsk) / 2)"

section \<open>Toolkit: order status\<close>

text \<open>
  Reading a key of a response value. Of two equal keys in an object the later one wins.
  The keys that the source reads are no properties of arrays and primitive values.
\<close>

definition get_key :: "json \<Rightarrow> string \<Rightarrow> json option" where
  "get_key v k = (case v of JObj kvs \<Rightarrow> map_of (rev kvs) k | _ \<Rightarrow> None)"

text \<open>\<open>v?.k\<close> on a value that may be \<open>undefined\<close>.\<close>

definition opt_prop :: "json option \<Rightarrow> string \<Rightarrow> json option" where
  "opt_prop v k = (case v of None \<Rightarrow> None | Some JNull \<Rightarrow> None | Some w \<Rightarrow> get_key w k)"

text \<open>\<open>typeof v === 'object' && v !== null\<close>.\<close>

definition is_object :: "json \<Rightarrow> bool" where
  "is_object v = (case v of JObj _ \<Rightarrow> True | JArr _ \<Rightarrow> True | _ \<Rightarrow> False)"

definition extractFirstOrderStatus :: "json \<Rightarrow> exn + json" where
  "extractFirstOrderStatus orderResult =
     (case opt_prop (opt_prop (opt_prop (Some orderResult) ''response'') ''data'') ''statuses'' of
        Some (JArr (status # _)) \<Rightarrow> Inr status
      | _ \<Rightarrow> Inl MissingStatuses)"

definition isErrorStatus :: "json \<Rightarrow> bool" where
  "isErrorStatus status = (is_object status \<and> get_key status ''error'' \<noteq> None)"

definition isRestingStatus :: "json \<Rightarrow> bool" where
  "isRestingStatus status = (is_object status \<and> get_key status ''resting'' \<noteq> None)"

text \<open>
  \<open>Number(v)\<close>: the number itself when \<open>v\<close> is a number; the conversion of any other
  value is not computed by the model and is kept as \<open>NumberOf v\<close>.
\<close>

datatype order_id = OrderId number | NumberOf json

definition js_Number :: "json \<Rightarrow> order_id" where
  "js_Number v = (case v of JNum n \<Rightarrow> OrderId n | _ \<Rightarrow> NumberOf v)"

text \<open>\<open>x && typeof x === 'object' && 'oid' in x\<close>, for \<open>x\<close> read from a key.\<close>

definition oid_of :: "json option \<Rightarrow> json option" where
  "oid_of x = (case x of Some w \<Rightarrow> if is_object w then get_key w ''oid'' else None | None \<Rightarrow> None)"

definition extractOrderId :: "json \<Rightarrow> order_id" where
  "extractOrderId status =
     (if is_object status
      then (case oid_of (get_key status ''resting'') of
              Some v \<Rightarrow> js_Number v
            | None \<Rightarrow>
                (case oid_of (get_key status ''filled'') of
                   Some v \<Rightarrow> js_Number v
                 | None \<Rightarrow> OrderId 0))
      else OrderId 0)"

section \<open>Toolkit: opening a position\<close>

text \<open>
  An \<open>ActionResult\<close> without its time stamp. A failure carries what its \<open>error\<close>
  string is built from: \<open>`Risk check failed: ${riskCheck.reason}`\<close>,
  \<open>`Order failed: ${status.error}`\<close>, or the message of a caught error.
\<close>

datatype failure = RiskCheckFailed "reason option" | OrderFailed json | Thrown exn

datatype 'a ActionResult = Success 'a | Failure failure

text \<open>
  The block of the risk checks (source lines 266 to 293), at clock reading \<open>now\<close>. It
  returns the result of \<open>checkOpenPosition\<close>, or nothing when the block is skipped.
\<close>

definition risk_checks ::
  "gateway \<Rightarrow> int \<Rightarrow> OpenPositionParams \<Rightarrow> market_kind \<Rightarrow> RiskCheckResult option io" where
  "risk_checks gw now params mkt =
     (\<lambda>tk. case riskManager tk of
             None \<Rightarrow> ret None tk
           | Some rm \<Rightarrow>
               if mkt = Perp
               then bind (getPositions_and_Balance gw)
                      (\<lambda>(positionsResult, balanceResult).
                         case positionsResult of
                           Inl _ \<Rightarrow> throw FetchAccountFailed
                         | Inr positions \<Rightarrow>
                             (case balanceResult of
                                Inl _ \<Rightarrow> throw FetchAccountFailed
                              | Inr balance \<Rightarrow>
                                  (\<lambda>tk'. let (riskCheck, rm') =
                                                checkOpenPosition now params positions
                                                  (availableBalance balance) rm
                                          in (Inr (Some riskCheck),
                                              tk'\<lparr>riskManager := Some rm',
                                                  riskChecks := riskChecks tk' + 1\<rparr>)))) tk
               else ret None tk)"

text \<open>The size of the order (source lines 311 to 324).\<close>

definition order_size ::
  "OpenPositionParams \<Rightarrow> bool \<Rightarrow> (number \<times> number) option \<Rightarrow> nat \<Rightarrow> exn + string" where
  "order_size params isLimitOrder bookTop szDecimals =
     (if truthy_opt (sizeUsd params)
      then (let price = (if isLimitOrder then the (limitPrice params)
                         else getMidPriceFromTop bookTop)
            in if price = 0 then Inl (NoPriceAvailable (coin params))
               else formatSize (the (sizeUsd params) / price) szDecimals Up)
      else if truthy_opt (sizeCoin params)
      then formatSize (the (sizeCoin params)) szDecimals Down
      else Inl SizeUnspecified)"

text \<open>
  The price of a market order from the top of the book and a slippage in percent, as
  \<open>openPosition\<close> (lines 346 to 350) and \<open>closePosition\<close> (lines 487 to 496) both
  compute it. \<open>raw_price\<close> is the source's \<open>rawPrice\<close> (\<open>orderPrice\<close> in
  \<open>closePosition\<close>): a division, an addition or subtraction and a multiplication of
  doubles, each rounded.
\<close>

definition raw_price :: "bool \<Rightarrow> number \<Rightarrow> number \<Rightarrow> number \<Rightarrow> number" where
  "raw_price isBuy bestBid bestAsk slippagePct =
     (let slippage = dbl (slippagePct / 100)
      in if isBuy then dbl (bestAsk * dbl (1 + slippage))
         else dbl (bestBid * dbl (1 - slippage)))"

text \<open>
  The number that the price string \<open>parseFloat(rawPrice.toPrecision(5)).toString()\<close>
  denotes. \<open>toPrecision\<close> rounds the exact value of the double \<open>rawPrice\<close>. While
  \<open>rawPrice\<close> is zero or a normal double (\<open>normal_or_zero\<close>), the double nearest to
  that decimal number of five digits has no shorter decimal representation, so that
  \<open>toString\<close> writes the same number again. Outside that range the string is not
  modelled: it is \<open>Infinity\<close> after an overflow, and among the subnormal numbers
  \<open>toString\<close> may write fewer digits.
\<close>

definition market_price :: "bool \<Rightarrow> number \<Rightarrow> number \<Rightarrow> number \<Rightarrow> number" where
  "market_price isBuy bestBid bestAsk slippagePct =
     toPrecision_value 5 (raw_price isBuy bestBid bestAsk slippagePct)"

definition place_stop_loss ::
  "gateway \<Rightarrow> OpenPositionParams \<Rightarrow> string \<Rightarrow> nat \<Rightarrow> bool \<Rightarrow> string \<Rightarrow> unit io" where
  "place_stop_loss gw params normalizedCoin assetIndex isBuy orderSize =
     (if truthy_opt (stopLossPrice params) \<or> truthy_opt (stopLossPercent params)
      then bind (gw_call AllMids (gw_allMids gw))
             (\<lambda>mids.
                let currentPrice = (case mids normalizedCoin of None \<Rightarrow> 0 | Some v \<Rightarrow> v);
                    stopPrice =
                      (if truthy_opt (stopLossPrice params) then the (stopLossPrice params)
                       else if isBuy
                       then currentPrice * (1 - the (stopLossPercent params) / 100)
                       else currentPrice * (1 + the (stopLossPercent params) / 100));
                    req = \<lparr>o_a = assetIndex, o_b = \<not> isBuy, o_p = toFixed_value 5 stopPrice,
                           o_s = orderSize, o_r = True,
                           o_t = Trigger (toFixed_value 5 stopPrice) True Sl\<rparr>
                in bind (gw_call (PlaceOrder req PositionTpsl)
                           (\<lambda>i. gw_order gw i req PositionTpsl))
                     (\<lambda>_. ret ()))
      else ret ())"

definition place_take_profit ::
  "gateway \<Rightarrow> OpenPositionParams \<Rightarrow> string \<Rightarrow> nat \<Rightarrow> bool \<Rightarrow> string \<Rightarrow> unit io" where
  "place_take_profit gw params normalizedCoin assetIndex isBuy orderSize =
     (if truthy_opt (takeProfitPrice params) \<or> truthy_opt (takeProfitPercent params)
      then bind (gw_call AllMids (gw_allMids gw))
             (\<lambda>mids.
                let currentPrice = (case mids normalizedCoin of None \<Rightarrow> 0 | Some v \<Rightarrow> v);
                    tpPrice =
                      (if truthy_opt (takeProfitPrice params) then the (takeProfitPrice params)
                       else if isBuy
                       then currentPrice * (1 + the (takeProfitPercent params) / 100)
                       else currentPrice * (1 - the (takeProfitPercent params) / 100));
                    req = \<lparr>o_a = assetIndex, o_b = \<not> isBuy, o_p = toFixed_value 5 tpPrice,
                           o_s = orderSize, o_r = True,
                           o_t = Trigger (toFixed_value 5 tpPrice) True Tp\<rparr>
                in bind (gw_call (PlaceOrder req PositionTpsl)
                           (\<lambda>i. gw_order gw i req PositionTpsl))
                     (\<lambda>_. ret ()))
      else ret ())"

text \<open>The price and the time in force of the entry order (source lines 336 to 351).\<close>

definition entry_price ::
  "gateway \<Rightarrow> OpenPositionParams \<Rightarrow> string \<Rightarrow> bool \<Rightarrow> (number \<times> number) option
     \<Rightarrow> (number \<times> tif) io" where
  "entry_price gw params pairName isBuy bookTop =
     (if orderType params = Some Limit \<and> truthy_opt (limitPrice params)
      then ret (toFixed_value 5 (the (limitPrice params)), Gtc)
      else bind (case bookTop of Some bt \<Rightarrow> ret bt | None \<Rightarrow> getBookTopLevels gw pairName)
             (\<lambda>(bestBid, bestAsk) tk.
                ret (market_price isBuy bestBid bestAsk
                       (or_default (slippagePercent params) (defaultSlippage tk)), Ioc) tk))"

text \<open>What follows the response to the entry order (source lines 365 to 451).\<close>

definition after_entry ::
  "gateway \<Rightarrow> OpenPositionParams \<Rightarrow> string \<Rightarrow> nat \<Rightarrow> bool \<Rightarrow> bool \<Rightarrow> string \<Rightarrow> json
     \<Rightarrow> order_id ActionResult io" where
  "after_entry gw params normalizedCoin assetIndex isBuy isSpot orderSize orderResult =
     bind (lift (extractFirstOrderStatus orderResult))
       (\<lambda>status.
          if isErrorStatus status
          then ret (Failure (OrderFailed (the (get_key status ''error''))))
          else (let orderId = extractOrderId status
                in if isSpot then ret (Success orderId)
                   else bind (place_stop_loss gw params normalizedCoin assetIndex isBuy orderSize)
                          (\<lambda>_. bind (place_take_profit gw params normalizedCoin assetIndex
                                        isBuy orderSize)
                                  (\<lambda>_. ret (Success orderId)))))"

text \<open>\<open>openPosition\<close> after the risk checks (source lines 295 to 451).\<close>

definition submit_entry ::
  "gateway \<Rightarrow> OpenPositionParams \<Rightarrow> market_kind \<Rightarrow> order_id ActionResult io" where
  "submit_entry gw params mkt =
     (let normalizedCoin = toUpperCase (coin params) in
      bind (getAssetIndex gw normalizedCoin mkt)
        (\<lambda>asset.
           let isBuy = (side params = Long \<or> side params = Buy);
               lev = or_default (leverage params) 1;
               isSpot = (mkt = Spot);
               isLimitOrder = (orderType params = Some Limit \<and> truthy_opt (limitPrice params))
           in bind (if \<not> isLimitOrder \<or> truthy_opt (sizeUsd params)
                    then bind (getBookTopLevels gw (ar_pairName asset)) (\<lambda>bt. ret (Some bt))
                    else ret None)
                (\<lambda>bookTop.
                   bind (lift (order_size params isLimitOrder bookTop (ar_szDecimals asset)))
                     (\<lambda>orderSize.
                        bind (if \<not> isSpot
                              then gw_call (UpdateLeverage (ar_index asset) True lev)
                                     (\<lambda>i. gw_updateLeverage gw i (ar_index asset) True lev)
                              else ret ())
                          (\<lambda>_.
                             bind (entry_price gw params (ar_pairName asset) isBuy bookTop)
                               (\<lambda>(orderPrice, orderTif).
                                  let req = \<lparr>o_a = ar_index asset, o_b = isBuy, o_p = orderPrice,
                                             o_s = orderSize, o_r = False,
                                             o_t = LimitTif orderTif\<rparr>
                                  in bind (gw_call (PlaceOrder req Na)
                                             (\<lambda>i. gw_order gw i req Na))
                                       (after_entry gw params normalizedCoin (ar_index asset)
                                          isBuy isSpot orderSize)))))))"

text \<open>The \<open>try\<close> block of \<open>openPosition\<close>, and the method with its \<open>catch\<close>.\<close>

definition openPosition_body ::
  "gateway \<Rightarrow> int \<Rightarrow> OpenPositionParams \<Rightarrow> order_id ActionResult io" where
  "openPosition_body gw now params =
     (let mkt = (case market params of None \<Rightarrow> Perp | Some m \<Rightarrow> m) in
      bind (risk_checks gw now params mkt)
        (\<lambda>riskCheck.
           case riskCheck of
             None \<Rightarrow> submit_entry gw params mkt
           | Some rc \<Rightarrow>
               if \<not> allowed rc then ret (Failure (RiskCheckFailed (reason rc)))
               else submit_entry gw params mkt))"

definition openPosition ::
  "gateway \<Rightarrow> int \<Rightarrow> OpenPositionParams \<Rightarrow> toolkit \<Rightarrow> order_id ActionResult \<times> toolkit" where
  "openPosition gw now params tk =
     (case openPosition_body gw now params tk of
        (Inl e, tk') \<Rightarrow> (Failure (Thrown e), tk')
      | (Inr res, tk') \<Rightarrow> (res, tk'))"

section \<open>Toolkit: closing a position\<close>

record ClosePositionParams =
  cp_coin :: string
  cp_percent :: "number option"
  cp_slippagePercent :: "number option"

text \<open>The update of the risk manager after the close order (source lines 505 to 507).\<close>

definition record_close :: "int \<Rightarrow> number \<Rightarrow> number \<Rightarrow> unit io" where
  "record_close now closePercent pnl =
     (\<lambda>tk. (Inr (),
            (case riskManager tk of
               None \<Rightarrow> tk
             | Some rm \<Rightarrow>
                 if closePercent = 100
                 then tk\<lparr>riskManager := Some (recordTrade now pnl rm)\<rparr>
                 else tk)))"

text \<open>\<open>closePosition\<close> from the position that was found on (source lines 478 to 516).\<close>

definition submit_close ::
  "gateway \<Rightarrow> int \<Rightarrow> ClosePositionParams \<Rightarrow> string \<Rightarrow> Position
     \<Rightarrow> order_id ActionResult io" where
  "submit_close gw now params normalizedCoin position =
     bind (getAssetIndex gw normalizedCoin Perp)
       (\<lambda>asset.
          let closePercent = or_default (cp_percent params) 100 in
          bind (lift (formatSize (pos_size position * closePercent / 100)
                        (ar_szDecimals asset) Down))
            (\<lambda>closeSize.
               let isBuy = (pos_side position = PShort) in
               bind (getBookTopLevels gw normalizedCoin)
                 (\<lambda>(bestBid, bestAsk) tk.
                    (let req = \<lparr>o_a = ar_index asset, o_b = isBuy,
                                o_p = market_price isBuy bestBid bestAsk
                                        (or_default (cp_slippagePercent params)
                                           (defaultSlippage tk)),
                                o_s = closeSize, o_r = True, o_t = LimitTif Ioc\<rparr>
                     in bind (gw_call (PlaceOrder req Na) (\<lambda>i. gw_order gw i req Na))
                          (\<lambda>result.
                             bind (record_close now closePercent (unrealizedPnl position))
                               (\<lambda>_. bind (lift (extractFirstOrderStatus result))
                                       (\<lambda>status. ret (Success (extractOrderId status))))))
                      tk)))"

definition closePosition_body ::
  "gateway \<Rightarrow> int \<Rightarrow> ClosePositionParams \<Rightarrow> order_id ActionResult io" where
  "closePosition_body gw now params =
     (let normalizedCoin = toUpperCase (cp_coin params) in
      bind (getPositions gw)
        (\<lambda>positionsResult.
           case positionsResult of
             Inl _ \<Rightarrow> throw FetchPositionsFailed
           | Inr positions \<Rightarrow>
               (case find (\<lambda>p. toUpperCase (pos_coin p) = normalizedCoin) positions of
                  None \<Rightarrow> throw (NoOpenPosition normalizedCoin)
                | Some position \<Rightarrow> submit_close gw now params normalizedCoin position)))"

definition closePosition ::
  "gateway \<Rightarrow> int \<Rightarrow> ClosePositionParams \<Rightarrow> toolkit \<Rightarrow> order_id ActionResult \<times> toolkit" where
  "closePosition gw now params tk =
     (case closePosition_body gw now params tk of
        (Inl e, tk') \<Rightarrow> (Failure (Thrown e), tk')
      | (Inr res, tk') \<Rightarrow> (res, tk'))"

section \<open>Properties of method bodies\<close>

text \<open>The gateway calls made between two states of the toolkit.\<close>

definition new_calls :: "toolkit \<Rightarrow> toolkit \<Rightarrow> call list" where
  "new_calls tk tk' = drop (length (calls tk)) (calls tk')"

text \<open>
  \<open>hoare I m P Q\<close>: run from a toolkit that satisfies \<open>I\<close>, the body \<open>m\<close> keeps
  \<open>I\<close>, only appends to the calls, every call it appends satisfies \<open>P\<close>, and a value
  it returns satisfies \<open>Q\<close>.
\<close>

definition hoare :: "(toolkit \<Rightarrow> bool) \<Rightarrow> 'a io \<Rightarrow> (call \<Rightarrow> bool) \<Rightarrow> ('a \<Rightarrow> bool) \<Rightarrow> bool" where
  "hoare I m P Q =
     (\<forall>tk. I tk \<longrightarrow>
        (case m tk of
           (r, tk') \<Rightarrow>
             I tk' \<and> (\<exists>cs. calls tk' = calls tk @ cs \<and> list_all P cs)
             \<and> (case r of Inl _ \<Rightarrow> True | Inr x \<Rightarrow> Q x)))"

text \<open>An invariant that does not depend on the calls and on the two asset maps.\<close>

definition stable :: "(toolkit \<Rightarrow> bool) \<Rightarrow> bool" where
  "stable I =
     (\<forall>tk cs am sm. I tk \<longrightarrow>
        I (tk\<lparr>calls := cs\<rparr>) \<and> I (tk\<lparr>assetMap := am\<rparr>) \<and> I (tk\<lparr>spotAssetMap := sm\<rparr>))"

text \<open>An invariant that does not depend on the risk manager either.\<close>

definition risk_stable :: "(toolkit \<Rightarrow> bool) \<Rightarrow> bool" where
  "risk_stable I = (\<forall>tk rm k. I tk \<longrightarrow> I (tk\<lparr>riskManager := rm, riskChecks := k\<rparr>))"

text \<open>
  \<open>bid\<close> and \<open>ask\<close> are the best prices of a book that the gateway answers for
  \<open>c\<close>.
\<close>

definition top_of_book :: "gateway \<Rightarrow> string \<Rightarrow> number \<Rightarrow> number \<Rightarrow> bool" where
  "top_of_book gw c bid ask =
     (\<exists>i bk. gw_l2Book gw i c = Inr (Some bk)
             \<and> bid = top_px (bid_levels bk) \<and> ask = top_px (ask_levels bk))"

text \<open>
  The price of an entry order for the request \<open>params\<close> with default slippage \<open>d\<close>:
  the limit price through \<open>toFixed(5)\<close> for a limit order, and otherwise the market
  price from the top of a book of the pair \<open>c\<close>.
\<close>

definition entry_price_of ::
  "gateway \<Rightarrow> OpenPositionParams \<Rightarrow> number \<Rightarrow> string \<Rightarrow> bool \<Rightarrow> number \<Rightarrow> bool" where
  "entry_price_of gw params d c isBuy price =
     (if orderType params = Some Limit \<and> truthy_opt (limitPrice params)
      then price = toFixed_value 5 (the (limitPrice params))
      else (\<exists>bid ask. top_of_book gw c bid ask
              \<and> price = market_price isBuy bid ask (or_default (slippagePercent params) d)))"


subsection \<open>The book read and the entry order of one run\<close>

text \<open>
  A call that neither reads an order book nor places an order outside a take-profit and
  stop-loss group.
\<close>

definition quiet :: "call \<Rightarrow> bool" where
  "quiet c = (case c of L2Book _ \<Rightarrow> False | PlaceOrder _ g \<Rightarrow> g \<noteq> Na | _ \<Rightarrow> True)"

text \<open>
  The calls \<open>cs\<close> that follow the reading of a book with best bid \<open>bid\<close> and best
  ask \<open>ask\<close>: after quiet calls there is at most one more call, an order whose price
  is the market price of its side from \<open>bid\<close>, \<open>ask\<close> and the slippage \<open>pct\<close>
  (as far as the price string is modelled), and only quiet calls follow it.
\<close>

definition priced_entry :: "number \<Rightarrow> number \<Rightarrow> number \<Rightarrow> call list \<Rightarrow> bool" where
  "priced_entry bid ask pct cs =
     (case dropWhile quiet cs of
        [] \<Rightarrow> True
      | c # post \<Rightarrow>
          (case c of
             PlaceOrder req g \<Rightarrow>
               g = Na \<and> list_all quiet post
               \<and> (normal_or_zero (raw_price (o_b req) bid ask pct) \<longrightarrow>
                    o_p req = market_price (o_b req) bid ask pct)
           | _ \<Rightarrow> False))"

text \<open>
  The calls \<open>cs\<close> of one run that starts when \<open>n\<close> calls have been made: after quiet
  calls, the first other call reads the book of a pair whose name satisfies \<open>N\<close>; when
  the gateway answers that very call with a book, the calls after it are \<open>priced_entry\<close>
  of the top of this book, and otherwise there are none.
\<close>

definition priced_from_book ::
  "gateway \<Rightarrow> (string \<Rightarrow> bool) \<Rightarrow> number \<Rightarrow> nat \<Rightarrow> call list \<Rightarrow> bool" where
  "priced_from_book gw N pct n cs =
     (case dropWhile quiet cs of
        [] \<Rightarrow> True
      | c # rest \<Rightarrow>
          (case c of
             L2Book nm \<Rightarrow>
               N nm
               \<and> (case gw_l2Book gw (n + length (takeWhile quiet cs)) nm of
                     Inr (Some bk) \<Rightarrow>
                       priced_entry (top_px (bid_levels bk)) (top_px (ask_levels bk)) pct rest
                   | _ \<Rightarrow> rest = [])
           | _ \<Rightarrow> False))"

text \<open>
  \<open>appends I m T\<close>: run from a toolkit that satisfies \<open>I\<close>, the body \<open>m\<close> keeps
  \<open>I\<close> and only appends to the calls, and the calls it appends satisfy \<open>T\<close> of the
  number of calls made before.
\<close>

definition appends :: "(toolkit \<Rightarrow> bool) \<Rightarrow> 'a io \<Rightarrow> (nat \<Rightarrow> call list \<Rightarrow> bool) \<Rightarrow> bool" where
  "appends I m T =
     (\<forall>tk. I tk \<longrightarrow>
        (case m tk of
           (r, tk') \<Rightarrow> I tk' \<and> (\<exists>cs. calls tk' = calls tk @ cs \<and> T (length (calls tk)) cs)))"


section \<open>Truncation, as the specification words it\<close>

text \<open>
  \<open>x\<close> truncated to \<open>p\<close> significant figures: the digits after the \<open>p\<close>-th
  significant one are dropped. This is the rounding that the specification names; the
  source rounds with \<open>toPrecision\<close>.
\<close>

definition truncate_sig :: "nat \<Rightarrow> number \<Rightarrow> number" where
  "truncate_sig p x =
     (if x = 0 then 0
      else (let u = pow10 (dec_exponent \<bar>x\<bar> - int p + 1)
            in sgn x * of_int \<lfloor>\<bar>x\<bar> / u\<rfloor> * u))"

section \<open>Concrete inputs\<close>

text \<open>Configurations, managers and calls at which the theorems below are instantiated.\<close>

definition cfg_basic :: RiskConfig where
  "cfg_basic = \<lparr>maxLeverage = 10, maxPositionSizeUsd = 1000, maxDailyLoss = None,
                maxDrawdownPercent = None, requireStopLoss = None, maxOpenPositions = None\<rparr>"

definition rm_fresh :: RiskManager where
  "rm_fresh = \<lparr>config = cfg_basic, dailyPnl = 0, dailyPnlResetTime = 0, tradesLog = []\<rparr>"

definition rm_full :: RiskManager where
  "rm_full = \<lparr>config = cfg_basic, dailyPnl = 0, dailyPnlResetTime = 0,
              tradesLog = map (\<lambda>i. (int i, of_nat i)) [0..<1000]\<rparr>"

definition trades_1001 :: "(int \<times> number) list" where
  "trades_1001 = map (\<lambda>i. (int i, of_nat i)) [0..<1001]"

definition no_update :: PartialRiskConfig where
  "no_update = \<lparr>p_maxLeverage = None, p_maxPositionSizeUsd = None, p_maxDailyLoss = None,
                p_maxDrawdownPercent = None, p_requireStopLoss = None,
                p_maxOpenPositions = None\<rparr>"

text \<open>\<open>updateConfig({ maxDailyLoss: 0 })\<close> and \<open>updateConfig({ maxLeverage: 100 })\<close>.\<close>

definition update_zero_loss :: PartialRiskConfig where
  "update_zero_loss = no_update\<lparr>p_maxDailyLoss := Some 0\<rparr>"

definition update_leverage_100 :: PartialRiskConfig where
  "update_leverage_100 = no_update\<lparr>p_maxLeverage := Some 100\<rparr>"

text \<open>A request for 5000 USD of BTC at leverage 20, over both limits of \<open>cfg_basic\<close>.\<close>

definition params_over :: OpenPositionParams where
  "params_over =
     \<lparr>coin = ''BTC'', side = Long, market = None, sizeUsd = Some 5000, sizeCoin = None,
      leverage = Some 20, stopLossPrice = None, stopLossPercent = None,
      takeProfitPrice = None, takeProfitPercent = None, slippagePercent = None,
      orderType = None, limitPrice = None\<rparr>"

text \<open>Two trades on the first day, a third one on the second day.\<close>

definition ops_two_days :: "(int \<times> rm_op) list" where
  "ops_two_days =
     [(1000, OpRecordTrade 5), (2000, OpRecordTrade (- 3)), (86405000, OpRecordTrade 7)]"

text \<open>The first day alone, and what follows the third trade on the second day.\<close>

definition ops_day_one :: "(int \<times> rm_op) list" where
  "ops_day_one = [(1000, OpRecordTrade 5), (2000, OpRecordTrade (- 3))]"

definition ops_day_two :: "(int \<times> rm_op) list" where
  "ops_day_two = [(86406000, OpRecordTrade 4), (86407000, OpGetStats)]"

subsection \<open>A gateway and calls of the toolkit\<close>

text \<open>
  An account with one long position of 0.5 BTC, a book for every coin with the best bid
  at \<open>bid\<close> and the best ask at \<open>ask\<close>, and the answer \<open>status\<close> to every order.
\<close>

definition demo_clearinghouse :: clearinghouse where
  "demo_clearinghouse =
     \<lparr>assetPositions =
        [\<lparr>rp_coin = ''BTC'', szi = 1 / 2, entryPx = Some 100, rp_unrealizedPnl = Some 3,
          leverage_value = Some 2, liquidationPx = None\<rparr>],
      marginSummary_accountValue = Some 1000,
      crossMarginSummary_accountValue = Some 1000,
      totalMarginUsed = Some 25,
      ch_withdrawable = Some 900\<rparr>"

definition demo_spot_meta :: spot_meta where
  "demo_spot_meta =
     \<lparr>sm_tokens = [\<lparr>tok_index = 0, tok_name = ''USDC'', tok_szDecimals = 8\<rparr>,
                   \<lparr>tok_index = 1, tok_name = ''PURR'', tok_szDecimals = 0\<rparr>],
      sm_universe = [\<lparr>sp_index = 0, sp_name = ''PURR/USDC'', sp_tokens = (1, 0)\<rparr>]\<rparr>"

definition order_response :: "json \<Rightarrow> json" where
  "order_response status =
     JObj [(''status'', JStr ''ok''),
           (''response'', JObj [(''type'', JStr ''order''),
                                (''data'', JObj [(''statuses'', JArr [status])])])]"

definition demo_gateway :: "number \<Rightarrow> number \<Rightarrow> json \<Rightarrow> gateway" where
  "demo_gateway bid ask status =
     \<lparr>gw_clearinghouseState = (\<lambda>i. Inr demo_clearinghouse),
      gw_allMids = (\<lambda>i. Inr [''BTC'' \<mapsto> 100]),
      gw_meta = (\<lambda>i. Inr [\<lparr>pa_name = ''BTC'', pa_szDecimals = 3\<rparr>,
                           \<lparr>pa_name = ''DOGE'', pa_szDecimals = 0\<rparr>]),
      gw_spotMeta = (\<lambda>i. Inr demo_spot_meta),
      gw_l2Book = (\<lambda>i c. Inr (Some \<lparr>bid_levels = [(bid, 5)], ask_levels = [(ask, 4)]\<rparr>)),
      gw_updateLeverage = (\<lambda>i a isCross lev. Inr ()),
      gw_order = (\<lambda>i req g. Inr (order_response status))\<rparr>"

definition status_filled :: json where
  "status_filled = JObj [(''filled'', JObj [(''totalSz'', JStr ''0.5''), (''oid'', JNum 77)])]"

definition status_error :: json where
  "status_error = JObj [(''error'', JStr ''Reduce only order would increase position'')]"

text \<open>A toolkit without and one with a risk manager, both with the default slippage of 1.\<close>

definition tk_plain :: toolkit where
  "tk_plain = \<lparr>riskManager = None, defaultSlippage = 1, assetMap = None,
               spotAssetMap = None, calls = [], riskChecks = 0\<rparr>"

definition tk_risk :: toolkit where
  "tk_risk = tk_plain\<lparr>riskManager := Some rm_fresh\<rparr>"

definition no_params :: OpenPositionParams where
  "no_params =
     \<lparr>coin = ''btc'', side = Long, market = None, sizeUsd = None, sizeCoin = None,
      leverage = None, stopLossPrice = None, stopLossPercent = None,
      takeProfitPrice = None, takeProfitPercent = None, slippagePercent = None,
      orderType = None, limitPrice = None\<rparr>"

text \<open>A market buy and a market sell of 0.5 BTC, and a limit buy at 1.234567.\<close>

definition params_market_buy :: OpenPositionParams where
  "params_market_buy = no_params\<lparr>sizeCoin := Some (1 / 2)\<rparr>"

definition params_market_sell :: OpenPositionParams where
  "params_market_sell = no_params\<lparr>side := Short, sizeCoin := Some (1 / 2)\<rparr>"

definition params_limit_buy :: OpenPositionParams where
  "params_limit_buy =
     no_params\<lparr>sizeCoin := Some (1 / 2), orderType := Some Limit,
                limitPrice := Some (1234567 / 1000000)\<rparr>"

text \<open>A spot market buy of 20 PURR.\<close>

definition params_spot_buy :: OpenPositionParams where
  "params_spot_buy = no_params\<lparr>coin := ''PURR'', market := Some Spot, sizeCoin := Some 20\<rparr>"

definition close_btc :: ClosePositionParams where
  "close_btc = \<lparr>cp_coin = ''BTC'', cp_percent = None, cp_slippagePercent = None\<rparr>"

text \<open>The request \<open>params_over\<close> on the spot market, for PURR.\<close>

definition params_spot_over :: OpenPositionParams where
  "params_spot_over = params_over\<lparr>coin := ''PURR'', market := Some Spot\<rparr>"

text \<open>The same request as \<open>close_btc\<close> on an account that is short 0.5 BTC.\<close>

definition short_gateway :: "number \<Rightarrow> number \<Rightarrow> json \<Rightarrow> gateway" where
  "short_gateway bid ask status =
     (demo_gateway bid ask status)
       \<lparr>gw_clearinghouseState :=
          (\<lambda>i. Inr (demo_clearinghouse
                       \<lparr>assetPositions :=
                          [\<lparr>rp_coin = ''BTC'', szi = - (1 / 2), entryPx = Some 100,
                            rp_unrealizedPnl = Some 3, leverage_value = Some 2,
                            liquidationPx = None\<rparr>]\<rparr>))\<rparr>"

text \<open>
  A gateway whose book moves: the call number \<open>i\<close> is answered with the best bid at
  \<open>100 + i\<close> and the best ask at \<open>101 + i\<close>, so that a price tells which call it
  comes from.
\<close>

definition moving_gateway :: gateway where
  "moving_gateway =
     (demo_gateway 100 101 status_filled)
       \<lparr>gw_l2Book :=
          (\<lambda>i c. Inr (Some \<lparr>bid_levels = [(100 + of_nat i, 5)],
                                 ask_levels = [(101 + of_nat i, 4)]\<rparr>))\<rparr>"

section \<open>Trade history\<close>

lemma slice_last_length: "length (slice_last n xs) \<le> n"
  by (simp add: slice_last_def)

lemma recordTrade_log:
  "tradesLog (recordTrade now pnl rm) = slice_last 1000 (tradesLog rm @ [(now, pnl)])"
  by (simp add: recordTrade_def updateDailyPnl_def slice_last_def Let_def)

lemma slice_last_append:
  "slice_last n (slice_last n xs @ ys) = slice_last n (xs @ ys)"
proof (cases "length xs \<le> n")
  case True
  then show ?thesis by (simp add: slice_last_def)
next
  case False
  then have "length xs + length ys - (length xs - n + n) + (length xs - n)
               = length xs + length ys - n"
    by arith
  then show ?thesis by (simp add: slice_last_def)
qed

lemma foldl_recordTrade_log:
  "length (tradesLog rm) \<le> 1000 \<Longrightarrow>
   tradesLog (foldl (\<lambda>m (t, x). recordTrade t x m) rm ts)
     = slice_last 1000 (tradesLog rm @ ts)"
proof (induction ts arbitrary: rm)
  case Nil
  then show ?case by (simp add: slice_last_def)
next
  case (Cons a ts)
  obtain t x where a: "a = (t, x)" by (cases a)
  have "length (tradesLog (recordTrade t x rm)) \<le> 1000"
    by (simp add: recordTrade_log slice_last_length)
  from Cons.IH [OF this] show ?case
    by (simp add: a recordTrade_log slice_last_append)
qed

text \<open>
  Claim C7. After every \<open>recordTrade\<close> the trade history has at most 1000 entries. From
  a history of exactly 1000 entries, one more \<open>recordTrade\<close> drops the oldest entry and
  appends the new one, the others keeping their order. After 1001 calls on a new manager
  the history is the recorded trades without the first.
\<close>

theorem recordTrade_history_bounded:
  "length (tradesLog (recordTrade now pnl rm)) \<le> 1000
   \<and> (length (tradesLog rm) = 1000 \<longrightarrow>
        tradesLog (recordTrade now pnl rm) = tl (tradesLog rm) @ [(now, pnl)])
   \<and> (new_RiskManager t0 c = Inr rm0 \<longrightarrow> length ts = 1001 \<longrightarrow>
        tradesLog (foldl (\<lambda>m (t, x). recordTrade t x m) rm0 ts) = tl ts)"
proof (intro conjI impI)
  show "length (tradesLog (recordTrade now pnl rm)) \<le> 1000"
    by (simp add: recordTrade_log slice_last_length)
next
  assume len: "length (tradesLog rm) = 1000"
  then show "tradesLog (recordTrade now pnl rm) = tl (tradesLog rm) @ [(now, pnl)]"
    by (cases "tradesLog rm") (simp_all add: recordTrade_log slice_last_def)
next
  assume new: "new_RiskManager t0 c = Inr rm0" and len: "length ts = 1001"
  from new have "tradesLog rm0 = []"
    by (auto simp: new_RiskManager_def split: sum.splits)
  then have "tradesLog (foldl (\<lambda>m (t, x). recordTrade t x m) rm0 ts) = slice_last 1000 ts"
    using foldl_recordTrade_log [of rm0 ts] by simp
  also have "\<dots> = tl ts"
    using len by (simp add: slice_last_def drop_Suc)
  finally show "tradesLog (foldl (\<lambda>m (t, x). recordTrade t x m) rm0 ts) = tl ts" .
qed

theorem recordTrade_history_bounded_witness:
  "length (tradesLog rm_full) = 1000
   \<and> tradesLog (recordTrade 5000 7 rm_full) = tl (tradesLog rm_full) @ [(5000, 7)]
   \<and> new_RiskManager 0 cfg_basic = Inr rm_fresh
   \<and> length trades_1001 = 1001
   \<and> tradesLog (foldl (\<lambda>m (t, x). recordTrade t x m) rm_fresh trades_1001) = tl trades_1001"
proof -
  have a: "length (tradesLog rm_full) = 1000"
    by (simp add: rm_full_def)
  have b: "new_RiskManager 0 cfg_basic = Inr rm_fresh"
    by (simp add: new_RiskManager_def validateConfig_def cfg_basic_def rm_fresh_def
        when_set_def)
  have c: "length trades_1001 = 1001"
    by (simp add: trades_1001_def)
  show ?thesis
    using a b c
      recordTrade_history_bounded [where now = 5000 and pnl = 7 and rm = rm_full
        and ?t0.0 = 0 and c = cfg_basic and ?rm0.0 = rm_fresh and ts = trades_1001]
    by simp
qed

section \<open>Precedence of the pre-trade checks\<close>

lemma when_set_not_truthy: "\<not> truthy_opt v \<Longrightarrow> when_set v P = False"
  by (auto simp: when_set_def truthy_opt_def split: option.splits)

lemma find_Some_ex: "(\<exists>y. find P xs = Some y) = (\<exists>x \<in> set xs. P x)"
  by (induction xs) auto

lemma foldl_sum_list: "foldl (\<lambda>sum p. sum + f p) a xs = a + sum_list (map f xs)"
  by (induction xs arbitrary: a) (simp_all add: add.assoc)

lemma first_failing:
  "find f precedence =
     (if f CkLeverage then Some CkLeverage
      else if f CkNotional then Some CkNotional
      else if f CkPositionCount then Some CkPositionCount
      else if f CkDailyLoss then Some CkDailyLoss
      else if f CkDrawdown then Some CkDrawdown
      else if f CkStopLoss then Some CkStopLoss
      else if f CkMargin then Some CkMargin
      else None)"
  by (simp add: precedence_def)

lemma checkOpenPosition_reason:
  "map_option check_of (reason (fst (checkOpenPosition now params ps bal rm)))
     = find (fails now params ps bal rm) precedence"
proof (cases "truthy_opt (maxDailyLoss (config rm))")
  case True
  then show ?thesis
    unfolding first_failing
    by (simp add: checkOpenPosition_def Let_def deny_def find_Some_ex foldl_sum_list)
next
  case False
  then show ?thesis
    unfolding first_failing
    by (simp add: checkOpenPosition_def Let_def deny_def find_Some_ex foldl_sum_list
        when_set_not_truthy)
qed

lemma checkOpenPosition_allowed:
  "allowed (fst (checkOpenPosition now params ps bal rm))
     = (reason (fst (checkOpenPosition now params ps bal rm)) = None)"
  by (simp add: checkOpenPosition_def Let_def deny_def)

lemma checkOpenPosition_leverage_first:
  "fails now params ps bal rm CkLeverage \<Longrightarrow>
   reason (fst (checkOpenPosition now params ps bal rm))
     = Some (LeverageExceeds (the (leverage params)) (maxLeverage (config rm)))"
  by (simp add: checkOpenPosition_def Let_def deny_def)

text \<open>
  Claim C1. For every request, list of positions, balance and manager,
  \<open>checkOpenPosition\<close> denies with the reason of the first check, in the order leverage,
  notional, position count, daily loss, drawdown, stop-loss mandate, margin, that fails;
  it allows exactly when it gives no reason, so a denial carries one reason; and a request
  over both the leverage and the notional limit is denied with the leverage reason.
\<close>

theorem checkOpenPosition_precedence:
  "map_option check_of (reason (fst (checkOpenPosition now params ps bal rm)))
     = find (fails now params ps bal rm) precedence
   \<and> (allowed (fst (checkOpenPosition now params ps bal rm))
        \<longleftrightarrow> reason (fst (checkOpenPosition now params ps bal rm)) = None)
   \<and> (fails now params ps bal rm CkLeverage \<and> fails now params ps bal rm CkNotional \<longrightarrow>
        reason (fst (checkOpenPosition now params ps bal rm))
          = Some (LeverageExceeds (the (leverage params)) (maxLeverage (config rm))))"
  using checkOpenPosition_reason [of now params ps bal rm]
    checkOpenPosition_allowed [of now params ps bal rm]
    checkOpenPosition_leverage_first [of now params ps bal rm]
  by blast

theorem checkOpenPosition_precedence_witness:
  "fails 0 params_over [] 100 rm_fresh CkLeverage
   \<and> fails 0 params_over [] 100 rm_fresh CkNotional
   \<and> reason (fst (checkOpenPosition 0 params_over [] 100 rm_fresh))
       = Some (LeverageExceeds 20 10)
   \<and> \<not> allowed (fst (checkOpenPosition 0 params_over [] 100 rm_fresh))"
proof -
  have a: "fails 0 params_over [] 100 rm_fresh CkLeverage"
    by (simp add: params_over_def rm_fresh_def cfg_basic_def when_set_def truthy_def)
  have b: "fails 0 params_over [] 100 rm_fresh CkNotional"
    by (simp add: params_over_def rm_fresh_def cfg_basic_def or_default_def truthy_def)
  show ?thesis
    using a b checkOpenPosition_precedence [of 0 params_over "[]" 100 rm_fresh]
    by (simp add: params_over_def rm_fresh_def cfg_basic_def)
qed

section \<open>Daily window\<close>

lemma checkOpenPosition_state:
  "snd (checkOpenPosition now params ps bal rm)
     = (if consults_window rm (now, OpCheckOpen params ps bal) then updateDailyPnl now rm else rm)"
  by (simp add: checkOpenPosition_def Let_def find_Some_ex)

lemma step_resetTime:
  "dailyPnlResetTime (step rm (now, op))
     = (if consults_window rm (now, op) \<and> now - dailyPnlResetTime rm \<ge> dayMs
        then now else dailyPnlResetTime rm)"
proof (cases op)
  case (OpCheckOpen params ps bal)
  then show ?thesis
    by (simp add: checkOpenPosition_state updateDailyPnl_def del: consults_window.simps)
next
  case (OpUpdateConfig p)
  then show ?thesis
    by (simp add: updateConfig_def split: sum.splits)
qed (simp_all add: recordTrade_def getDailyPnl_def getStats_def updateDailyPnl_def Let_def)

lemma step_dailyPnl:
  "dailyPnl (step rm (now, op))
     = (if consults_window rm (now, op) \<and> now - dailyPnlResetTime rm \<ge> dayMs
        then 0 else dailyPnl rm)
       + (case op of OpRecordTrade pnl \<Rightarrow> pnl | _ \<Rightarrow> 0)"
proof (cases op)
  case (OpCheckOpen params ps bal)
  then show ?thesis
    by (simp add: checkOpenPosition_state updateDailyPnl_def del: consults_window.simps)
next
  case (OpUpdateConfig p)
  then show ?thesis
    by (simp add: updateConfig_def split: sum.splits)
qed (simp_all add: recordTrade_def getDailyPnl_def getStats_def updateDailyPnl_def Let_def)

lemma recorded_since_snoc:
  "recorded_since w (ops @ [(t, op)])
     = recorded_since w ops + (case op of OpRecordTrade pnl \<Rightarrow> if w \<le> t then pnl else 0 | _ \<Rightarrow> 0)"
  by (simp add: recorded_since_def)

lemma recorded_since_none:
  "\<forall>(t, op) \<in> set ops. (\<exists>pnl. op = OpRecordTrade pnl) \<longrightarrow> t < w \<Longrightarrow> recorded_since w ops = 0"
  unfolding recorded_since_def
  by (induction ops) (auto split: rm_op.splits)

lemma dayMs_pos: "0 < dayMs"
  by (simp add: dayMs_def)

lemma window_inv_step:
  assumes inv: "window_inv t0 ops rm"
    and le: "\<forall>t \<in> set (t0 # map fst ops). t \<le> now"
  shows "window_inv t0 (ops @ [(now, op)]) (step rm (now, op))"
proof (cases "consults_window rm (now, op) \<and> now - dailyPnlResetTime rm \<ge> dayMs")
  case True
  then have w: "dailyPnlResetTime (step rm (now, op)) = now"
    and d: "dailyPnl (step rm (now, op)) = (case op of OpRecordTrade pnl \<Rightarrow> pnl | _ \<Rightarrow> 0)"
    by (simp_all add: step_resetTime step_dailyPnl del: step.simps consults_window.simps)
  from inv True have old: "\<forall>(t, op) \<in> set ops. (\<exists>pnl. op = OpRecordTrade pnl) \<longrightarrow> t < now"
    unfolding window_inv_def by fastforce
  have "recorded_since now ops = 0"
    by (rule recorded_since_none [OF old])
  then show ?thesis
    using old dayMs_pos
    unfolding window_inv_def w d
    by (auto simp: recorded_since_snoc split: rm_op.splits)
next
  case False
  then have w: "dailyPnlResetTime (step rm (now, op)) = dailyPnlResetTime rm"
    and d: "dailyPnl (step rm (now, op))
              = dailyPnl rm + (case op of OpRecordTrade pnl \<Rightarrow> pnl | _ \<Rightarrow> 0)"
    by (auto simp add: step_resetTime step_dailyPnl simp del: step.simps consults_window.simps)
  from inv le have wle: "dailyPnlResetTime rm \<le> now"
    unfolding window_inv_def by blast
  have rec: "(\<exists>pnl. op = OpRecordTrade pnl) \<Longrightarrow> now < dailyPnlResetTime rm + dayMs"
    using False by auto
  show ?thesis
    using inv wle rec
    unfolding window_inv_def w d
    by (auto simp: recorded_since_snoc split: rm_op.splits)
qed

lemma run_snoc: "run rm (ops @ [x]) = step (run rm ops) x"
  by (simp add: run_def)

lemma window_inv_run:
  "new_RiskManager t0 c = Inr rm0 \<Longrightarrow> sorted (t0 # map fst ops) \<Longrightarrow>
   window_inv t0 ops (run rm0 ops)"
proof (induction ops rule: rev_induct)
  case Nil
  then show ?case
    by (auto simp: window_inv_def run_def recorded_since_def new_RiskManager_def
        split: sum.splits)
next
  case (snoc x ops)
  obtain now op where x: "x = (now, op)" by (cases x)
  from snoc.prems(2) have sorted_ops: "sorted (t0 # map fst ops)"
    and le: "\<forall>t \<in> set (t0 # map fst ops). t \<le> now"
    by (auto simp: x sorted_append)
  from snoc.IH [OF snoc.prems(1) sorted_ops] have "window_inv t0 ops (run rm0 ops)" .
  from window_inv_step [OF this le] show ?case
    by (simp add: x run_snoc del: step.simps)
qed

lemma recorded_snoc:
  "recorded (ops @ [(t, op)]) = recorded ops + (case op of OpRecordTrade pnl \<Rightarrow> pnl | _ \<Rightarrow> 0)"
  by (simp add: recorded_def)

lemma recorded_Cons:
  "recorded ((t, op) # ops) = (case op of OpRecordTrade pnl \<Rightarrow> pnl | _ \<Rightarrow> 0) + recorded ops"
  by (simp add: recorded_def)

lemma run_within_window:
  "\<forall>t \<in> set (map fst ops). t - dailyPnlResetTime rm < dayMs \<Longrightarrow>
   dailyPnlResetTime (run rm ops) = dailyPnlResetTime rm
   \<and> dailyPnl (run rm ops) = dailyPnl rm + recorded ops"
proof (induction ops rule: rev_induct)
  case Nil
  then show ?case by (simp add: run_def recorded_def)
next
  case (snoc x ops)
  obtain now op where x: "x = (now, op)" by (cases x)
  from snoc.prems have pre: "\<forall>t \<in> set (map fst ops). t - dailyPnlResetTime rm < dayMs"
    and now: "now - dailyPnlResetTime rm < dayMs"
    by (simp_all add: x)
  from snoc.IH [OF pre] have ih: "dailyPnlResetTime (run rm ops) = dailyPnlResetTime rm"
    "dailyPnl (run rm ops) = dailyPnl rm + recorded ops" by simp_all
  from now ih(1) have n: "\<not> (now - dailyPnlResetTime (run rm ops) \<ge> dayMs)" by simp
  show ?case
    unfolding x run_snoc recorded_snoc
    using n ih
    by (simp add: step_resetTime step_dailyPnl del: step.simps consults_window.simps)
qed

lemma run_Cons: "run rm (x # ops) = run (step rm x) ops"
  by (simp add: run_def)

text \<open>
  Claim C8. An operation that reaches the daily window (\<open>getDailyPnl\<close>, \<open>getStats\<close>,
  \<open>recordTrade\<close>, or a \<open>checkOpenPosition\<close> that gets to the daily-loss limit) at least
  24 hours after the window started restarts the window at the time of the call and sets
  the counter to zero, to which \<open>recordTrade\<close> then adds its own trade; every other
  operation keeps the window start and the counter, to which \<open>recordTrade\<close> adds its
  trade. \<open>getDailyPnl\<close> returns zero in the first case and the counter, with the manager
  unchanged, before the 24 hours are over. Hence, from any state, as long as every
  operation and the reading are less than 24 hours after the window start, the window start
  stays and \<open>getDailyPnl\<close> returns the counter of that state plus everything recorded
  since; and after an operation that restarts the window at \<open>w\<close>, it returns the sum of
  what that operation and the following ones recorded, as long as they and the reading are
  less than 24 hours after \<open>w\<close>. The window of a new manager starts at its construction,
  with the counter at zero; after any sequence of operations on a new manager, with a clock
  that does not run backwards, a \<open>getDailyPnl\<close> less than 24 hours after the window
  start returns the sum of the profits and losses recorded since the window started.
\<close>

theorem daily_window_rollover:
  "(consults_window rm (now, op) \<and> now - dailyPnlResetTime rm \<ge> dayMs \<longrightarrow>
      dailyPnlResetTime (step rm (now, op)) = now
      \<and> dailyPnl (step rm (now, op)) = (case op of OpRecordTrade pnl \<Rightarrow> pnl | _ \<Rightarrow> 0))
   \<and> (\<not> (consults_window rm (now, op) \<and> now - dailyPnlResetTime rm \<ge> dayMs) \<longrightarrow>
      dailyPnlResetTime (step rm (now, op)) = dailyPnlResetTime rm
      \<and> dailyPnl (step rm (now, op))
          = dailyPnl rm + (case op of OpRecordTrade pnl \<Rightarrow> pnl | _ \<Rightarrow> 0))
   \<and> (now - dailyPnlResetTime rm \<ge> dayMs \<longrightarrow>
      getDailyPnl now rm = (0, rm\<lparr>dailyPnl := 0, dailyPnlResetTime := now\<rparr>))
   \<and> (now - dailyPnlResetTime rm < dayMs \<longrightarrow> getDailyPnl now rm = (dailyPnl rm, rm))
   \<and> ((\<forall>t \<in> set (map fst ops). t - dailyPnlResetTime rm < dayMs)
        \<and> now - dailyPnlResetTime rm < dayMs \<longrightarrow>
      dailyPnlResetTime (run rm ops) = dailyPnlResetTime rm
      \<and> fst (getDailyPnl now (run rm ops)) = dailyPnl rm + recorded ops)
   \<and> (consults_window rm (w, op) \<and> w - dailyPnlResetTime rm \<ge> dayMs
        \<and> (\<forall>t \<in> set (map fst ops). t - w < dayMs) \<and> now - w < dayMs \<longrightarrow>
      dailyPnlResetTime (run rm ((w, op) # ops)) = w
      \<and> fst (getDailyPnl now (run rm ((w, op) # ops))) = recorded ((w, op) # ops))
   \<and> (new_RiskManager t0 c = Inr rm0 \<longrightarrow> dailyPnlResetTime rm0 = t0 \<and> dailyPnl rm0 = 0)
   \<and> (new_RiskManager t0 c = Inr rm0 \<and> sorted (t0 # map fst ops)
        \<and> now - dailyPnlResetTime (run rm0 ops) < dayMs \<longrightarrow>
      fst (getDailyPnl now (run rm0 ops))
        = recorded_since (dailyPnlResetTime (run rm0 ops)) ops)"
proof -
  have c1: "dailyPnlResetTime (step rm (now, op)) = now
      \<and> dailyPnl (step rm (now, op)) = (case op of OpRecordTrade pnl \<Rightarrow> pnl | _ \<Rightarrow> 0)"
    if "consults_window rm (now, op) \<and> now - dailyPnlResetTime rm \<ge> dayMs"
    using that by (simp add: step_resetTime step_dailyPnl del: step.simps consults_window.simps)
  have c2: "dailyPnlResetTime (step rm (now, op)) = dailyPnlResetTime rm
      \<and> dailyPnl (step rm (now, op))
          = dailyPnl rm + (case op of OpRecordTrade pnl \<Rightarrow> pnl | _ \<Rightarrow> 0)"
    if "\<not> (consults_window rm (now, op) \<and> now - dailyPnlResetTime rm \<ge> dayMs)"
    using that by (auto simp add: step_resetTime step_dailyPnl
        simp del: step.simps consults_window.simps)
  have c3: "getDailyPnl now rm = (0, rm\<lparr>dailyPnl := 0, dailyPnlResetTime := now\<rparr>)"
    if "now - dailyPnlResetTime rm \<ge> dayMs"
    using that by (simp add: getDailyPnl_def updateDailyPnl_def Let_def)
  have c4: "getDailyPnl now rm = (dailyPnl rm, rm)" if "now - dailyPnlResetTime rm < dayMs" for rm
    using that by (simp add: getDailyPnl_def updateDailyPnl_def Let_def)
  have c5: "dailyPnlResetTime (run rm ops) = dailyPnlResetTime rm
      \<and> fst (getDailyPnl now (run rm ops)) = dailyPnl rm + recorded ops"
    if a: "(\<forall>t \<in> set (map fst ops). t - dailyPnlResetTime rm < dayMs)
        \<and> now - dailyPnlResetTime rm < dayMs" for rm
  proof -
    from a run_within_window [of ops rm]
    have r: "dailyPnlResetTime (run rm ops) = dailyPnlResetTime rm"
      "dailyPnl (run rm ops) = dailyPnl rm + recorded ops" by simp_all
    from a r(1) have "now - dailyPnlResetTime (run rm ops) < dayMs" by simp
    from c4 [OF this] r show ?thesis by simp
  qed
  have c6: "dailyPnlResetTime (run rm ((w, op) # ops)) = w
      \<and> fst (getDailyPnl now (run rm ((w, op) # ops))) = recorded ((w, op) # ops)"
    if a: "consults_window rm (w, op) \<and> w - dailyPnlResetTime rm \<ge> dayMs
        \<and> (\<forall>t \<in> set (map fst ops). t - w < dayMs) \<and> now - w < dayMs"
  proof -
    from a have s: "dailyPnlResetTime (step rm (w, op)) = w"
      "dailyPnl (step rm (w, op)) = (case op of OpRecordTrade pnl \<Rightarrow> pnl | _ \<Rightarrow> 0)"
      by (simp_all add: step_resetTime step_dailyPnl del: step.simps consults_window.simps)
    from a s(1) have "(\<forall>t \<in> set (map fst ops). t - dailyPnlResetTime (step rm (w, op)) < dayMs)
        \<and> now - dailyPnlResetTime (step rm (w, op)) < dayMs" by simp
    from c5 [OF this] s show ?thesis
      unfolding run_Cons recorded_Cons by simp
  qed
  have c7: "dailyPnlResetTime rm0 = t0 \<and> dailyPnl rm0 = 0" if "new_RiskManager t0 c = Inr rm0"
    using that by (auto simp: new_RiskManager_def split: sum.splits)
  have c8: "fst (getDailyPnl now (run rm0 ops))
        = recorded_since (dailyPnlResetTime (run rm0 ops)) ops"
    if a: "new_RiskManager t0 c = Inr rm0 \<and> sorted (t0 # map fst ops)
        \<and> now - dailyPnlResetTime (run rm0 ops) < dayMs"
  proof -
    from a have "window_inv t0 ops (run rm0 ops)"
      using window_inv_run by blast
    then have "dailyPnl (run rm0 ops) = recorded_since (dailyPnlResetTime (run rm0 ops)) ops"
      by (simp add: window_inv_def)
    with a show ?thesis
      by (simp add: c4)
  qed
  from c1 c2 c3 c4 [of rm] c5 [of rm] c6 c7 c8 show ?thesis
    by blast
qed


theorem daily_window_rollover_witness:
  "\<not> (consults_window rm_fresh (1000, OpRecordTrade 5)
       \<and> 1000 - dailyPnlResetTime rm_fresh \<ge> dayMs)
   \<and> dailyPnlResetTime (step rm_fresh (1000, OpRecordTrade 5)) = 0
   \<and> dailyPnl (step rm_fresh (1000, OpRecordTrade 5)) = 5
   \<and> list_all (\<lambda>t. t - dailyPnlResetTime rm_fresh < dayMs) (map fst ops_day_one)
   \<and> 3000 - dailyPnlResetTime rm_fresh < dayMs
   \<and> dailyPnlResetTime (run rm_fresh ops_day_one) = 0
   \<and> fst (getDailyPnl 3000 (run rm_fresh ops_day_one)) = 2
   \<and> consults_window (run rm_fresh ops_day_one) (86405000, OpRecordTrade 7)
   \<and> 86405000 - dailyPnlResetTime (run rm_fresh ops_day_one) \<ge> dayMs
   \<and> dailyPnlResetTime (step (run rm_fresh ops_day_one) (86405000, OpRecordTrade 7)) = 86405000
   \<and> dailyPnl (step (run rm_fresh ops_day_one) (86405000, OpRecordTrade 7)) = 7
   \<and> fst (getDailyPnl 86405000 (run rm_fresh ops_day_one)) = 0
   \<and> list_all (\<lambda>t. t - 86405000 < dayMs) (map fst ops_day_two)
   \<and> 86409000 - 86405000 < dayMs
   \<and> fst (getDailyPnl 86409000
            (run (run rm_fresh ops_day_one) ((86405000, OpRecordTrade 7) # ops_day_two))) = 11
   \<and> new_RiskManager 0 cfg_basic = Inr rm_fresh
   \<and> sorted (0 # map fst ops_two_days)
   \<and> 86409000 - dailyPnlResetTime (run rm_fresh ops_two_days) < dayMs
   \<and> fst (getDailyPnl 86409000 (run rm_fresh ops_two_days)) = 7"
proof -
  have one: "run rm_fresh ops_day_one
     = rm_fresh\<lparr>dailyPnl := 2, tradesLog := [(1000, 5), (2000, - 3)]\<rparr>"
    by (simp add: run_def ops_day_one_def rm_fresh_def recordTrade_def updateDailyPnl_def
        dayMs_def Let_def)
  have w1: "dailyPnlResetTime (run rm_fresh ops_day_one) = 0"
    unfolding one by (simp add: rm_fresh_def)
  have two: "run rm_fresh ops_two_days
     = step (run rm_fresh ops_day_one) (86405000, OpRecordTrade 7)"
    by (simp add: run_def ops_two_days_def ops_day_one_def)
  have new: "new_RiskManager 0 cfg_basic = Inr rm_fresh"
    by (simp add: new_RiskManager_def validateConfig_def cfg_basic_def rm_fresh_def
        when_set_def)
  have srt: "sorted (0 # map fst ops_two_days)"
    by (simp add: ops_two_days_def)
  have rs: "recorded_since 86405000 ops_two_days = 7"
    by (simp add: recorded_since_def ops_two_days_def)
  have r1: "recorded ops_day_one = 2"
    by (simp add: recorded_def ops_day_one_def)
  have r2: "recorded ((86405000, OpRecordTrade 7) # ops_day_two) = 11"
    by (simp add: recorded_def ops_day_two_def)
  have f: "dailyPnlResetTime rm_fresh = 0" "dailyPnl rm_fresh = 0"
    by (simp_all add: rm_fresh_def)
  have h1: "\<forall>t \<in> set (map fst ops_day_one). t - dailyPnlResetTime rm_fresh < dayMs"
    by (simp add: ops_day_one_def f dayMs_def)
  have h2: "\<forall>t \<in> set (map fst ops_day_two). t - 86405000 < dayMs"
    by (simp add: ops_day_two_def dayMs_def)
  note a = daily_window_rollover [where rm = rm_fresh and now = 1000
      and op = "OpRecordTrade 5" and ops = "[]" and w = 0 and ?t0.0 = 0 and c = cfg_basic
      and ?rm0.0 = rm_fresh]
  note b = daily_window_rollover [where rm = rm_fresh and now = 3000
      and op = "OpRecordTrade 5" and ops = ops_day_one and w = 0 and ?t0.0 = 0
      and c = cfg_basic and ?rm0.0 = rm_fresh]
  note c = daily_window_rollover [where rm = "run rm_fresh ops_day_one" and now = 86405000
      and op = "OpRecordTrade 7" and ops = "[]" and w = 0 and ?t0.0 = 0 and c = cfg_basic
      and ?rm0.0 = rm_fresh]
  note d = daily_window_rollover [where rm = "run rm_fresh ops_day_one" and now = 86409000
      and op = "OpRecordTrade 7" and ops = ops_day_two and w = 86405000 and ?t0.0 = 0
      and c = cfg_basic and ?rm0.0 = rm_fresh]
  note e = daily_window_rollover [where rm = rm_fresh and now = 86409000
      and op = OpGetDailyPnl and ops = ops_two_days and w = 0 and ?t0.0 = 0
      and c = cfg_basic and ?rm0.0 = rm_fresh]
  have a': "dailyPnlResetTime (step rm_fresh (1000, OpRecordTrade 5)) = 0
     \<and> dailyPnl (step rm_fresh (1000, OpRecordTrade 5)) = 5"
    using a by (simp add: f dayMs_def del: step.simps)
  have b': "dailyPnlResetTime (run rm_fresh ops_day_one) = 0
     \<and> fst (getDailyPnl 3000 (run rm_fresh ops_day_one)) = 2"
    using b h1 by (simp add: f r1 dayMs_def del: step.simps)
  have c': "dailyPnlResetTime (step (run rm_fresh ops_day_one) (86405000, OpRecordTrade 7))
               = 86405000
     \<and> dailyPnl (step (run rm_fresh ops_day_one) (86405000, OpRecordTrade 7)) = 7
     \<and> fst (getDailyPnl 86405000 (run rm_fresh ops_day_one)) = 0"
    using c by (simp add: w1 dayMs_def del: step.simps)
  have d': "fst (getDailyPnl 86409000
            (run (run rm_fresh ops_day_one) ((86405000, OpRecordTrade 7) # ops_day_two))) = 11"
    using d h2 by (simp add: w1 r2 dayMs_def del: step.simps)
  have w2: "dailyPnlResetTime (run rm_fresh ops_two_days) = 86405000"
    unfolding two using c' by simp
  have e': "fst (getDailyPnl 86409000 (run rm_fresh ops_two_days)) = 7"
    using e new srt by (simp add: w2 rs dayMs_def del: step.simps)
  have l: "list_all (\<lambda>t. t - dailyPnlResetTime rm_fresh < dayMs) (map fst ops_day_one)"
    "list_all (\<lambda>t. t - 86405000 < dayMs) (map fst ops_day_two)"
    by (simp_all add: ops_day_one_def ops_day_two_def f dayMs_def)
  show ?thesis
    using a' b' c' d' e' new srt l
    by (simp add: w1 w2 f dayMs_def del: step.simps)
qed

section \<open>Reconfiguration\<close>

lemma validateConfig_accepted:
  "validateConfig c = (if accepted_config c then Inr c else validateConfig c)"
  "\<not> accepted_config c \<Longrightarrow> \<exists>e. validateConfig c = Inl e"
  by (auto simp: validateConfig_def accepted_config_def when_set_def truthy_def
      split: option.splits)

text \<open>
  What \<open>updateConfig\<close> does. The merged configuration is accepted exactly when
  \<open>maxLeverage\<close> is in (0,50], \<open>maxPositionSizeUsd > 0\<close>, and each optional limit is
  absent or in its range closed at zero. When it is accepted it replaces the stored one;
  when it is not, \<open>updateConfig\<close> throws and the manager, its configuration included, is
  as before.
\<close>

lemma updateConfig_validates:
  "(accepted_config (merge_config (config rm) p) \<longrightarrow>
      updateConfig p rm = Inr (rm\<lparr>config := merge_config (config rm) p\<rparr>)
      \<and> step rm (now, OpUpdateConfig p) = rm\<lparr>config := merge_config (config rm) p\<rparr>)
   \<and> (\<not> accepted_config (merge_config (config rm) p) \<longrightarrow>
      (\<exists>e. updateConfig p rm = Inl e) \<and> step rm (now, OpUpdateConfig p) = rm)"
proof (cases "accepted_config (merge_config (config rm) p)")
  case True
  then have "validateConfig (merge_config (config rm) p) = Inr (merge_config (config rm) p)"
    using validateConfig_accepted(1) by metis
  with True show ?thesis
    by (simp add: updateConfig_def)
next
  case False
  then obtain e where "validateConfig (merge_config (config rm) p) = Inl e"
    using validateConfig_accepted(2) by blast
  with False show ?thesis
    by (simp add: updateConfig_def)
qed

lemma updateConfig_rejects_leverage_100:
  "\<not> accepted_config (merge_config (config rm_fresh) update_leverage_100)
   \<and> (\<exists>e. updateConfig update_leverage_100 rm_fresh = Inl e)
   \<and> step rm_fresh (0, OpUpdateConfig update_leverage_100) = rm_fresh"
proof -
  have "\<not> accepted_config (merge_config (config rm_fresh) update_leverage_100)"
    by (simp add: accepted_config_def merge_config_def update_leverage_100_def no_update_def
        rm_fresh_def cfg_basic_def)
  then show ?thesis
    using updateConfig_validates [of rm_fresh update_leverage_100 0] by blast
qed

text \<open>
  Claim C9. A rejected reconfiguration throws and leaves the stored configuration, as the
  claim says, but the validation is not the one of the claim: each optional limit is
  tested as \<open>config.maxDailyLoss && config.maxDailyLoss <= 0\<close>, and a limit of zero is
  falsy, so that the comparison with zero is never made for it.
  \<open>updateConfig({ maxDailyLoss: 0 })\<close> is invalid by the ranges of the claim, and it is
  accepted and stored.
\<close>

theorem updateConfig_accepts_zero_limit:
  "\<not> spec_valid_config (merge_config (config rm_fresh) update_zero_loss)
   \<and> updateConfig update_zero_loss rm_fresh
       = Inr (rm_fresh\<lparr>config := cfg_basic\<lparr>maxDailyLoss := Some 0\<rparr>\<rparr>)"
  by (simp add: spec_valid_config_def merge_config_def update_zero_loss_def no_update_def
      rm_fresh_def cfg_basic_def updateConfig_def validateConfig_def when_set_def truthy_def)

section \<open>Evaluation at concrete inputs\<close>

lemmas io_defs = ret_def throw_def bind_def lift_def attempt_def gw_call_def

lemmas demo_defs = demo_gateway_def demo_clearinghouse_def demo_spot_meta_def order_response_def
  status_filled_def status_error_def tk_plain_def tk_risk_def rm_fresh_def cfg_basic_def
  no_params_def

lemma digits_numeral:
  "digits (numeral k) =
     (if numeral k < (10::nat) then [digit_char (numeral k)]
      else digits (numeral k div 10) @ [digit_char (numeral k mod 10)])"
  "digits 0 = [digit_char 0]"
  "digits 1 = [digit_char 1]"
  "digits (Suc 0) = [digit_char 1]"
  by (simp_all add: digits.simps)

lemma bits_numeral:
  "bits (numeral k) = Suc (bits (numeral k div 2))"
  "bits 0 = 0"
  "bits 1 = 1"
  "bits (Suc 0) = 1"
  by (simp_all add: bits.simps)

lemmas dbl_defs = dbl_def bin_exponent_def pow2_def round_half_even_def bits_numeral Let_def

lemmas format_defs = toPrecision_value_def dec_exponent_def pow10_def round_half_up_def
  digits_numeral toFixed_def toFixed_n_def toFixed_value_def digit_char_def

text \<open>
  The doubles of \<open>1%\<close> and \<open>2%\<close>, and of one plus or minus that: none of these
  decimal fractions is a double.
\<close>

lemma dbl_slippage:
  "dbl (1 / 100) = 5764607523034235 / 576460752303423488"
  "dbl (1 + dbl (1 / 100)) = 4548635623644201 / 4503599627370496"
  "dbl (1 - dbl (1 / 100)) = 4458563631096791 / 4503599627370496"
  "dbl (2 / 100) = 5764607523034235 / 288230376151711744"
  "dbl (1 + dbl (2 / 100)) = 2296835809958953 / 2251799813685248"
  by (simp_all add: dbl_defs)

lemma raw_price_examples:
  "raw_price True 100 101 1 = 7178315593563505 / 70368744177664"
  "raw_price False 100 101 1 = 99"
  "raw_price True 100 (403 / 4) 1 = 7160547485658645 / 70368744177664"
  "raw_price True 100 (401 / 4) 2 = 899444491985879 / 8796093022208"
  "raw_price True 101 102 1 = 7249388025182945 / 70368744177664"
  "raw_price False 103 104 1 = 3587750421898199 / 35184372088832"
  by (simp_all add: raw_price_def dbl_defs)

lemma market_price_examples:
  "market_price True 100 101 1 = 10201 / 100"
  "market_price False 100 101 1 = 99"
  "market_price True 100 (403 / 4) 1 = 2544 / 25"
  "market_price True 100 (401 / 4) 2 = 409 / 4"
  "market_price True 101 102 1 = 5151 / 50"
  "market_price False 103 104 1 = 10197 / 100"
  unfolding market_price_def raw_price_examples
  by (simp_all add: format_defs)

lemmas number_defs = market_price_examples format_defs formatSize_def
  matches_zeros_to_end_def or_default_def truthy_def truthy_opt_def when_set_def

lemmas status_defs = extractFirstOrderStatus_def opt_prop_def get_key_def extractOrderId_def
  oid_of_def is_object_def js_Number_def isErrorStatus_def

lemmas account_defs = getPositions_def getPositions_body_def getPositions_rest_def
  position_of_def getBalance_def balance_of_def getPositions_and_Balance_def

lemmas open_defs = openPosition_def openPosition_body_def risk_checks_def submit_entry_def
  order_size_def entry_price_def after_entry_def place_stop_loss_def place_take_profit_def
  getAssetIndex_def build_assetMap_def build_spotAssetMap_def tokenByIndex_def
  getBookTopLevels_def top_px_def getMidPriceFromTop_def

lemmas close_defs = closePosition_def closePosition_body_def submit_close_def record_close_def
  getAssetIndex_def build_assetMap_def getBookTopLevels_def top_px_def

lemma upper_BTC: "toUpperCase ''BTC'' = ''BTC''" "toUpperCase ''btc'' = ''BTC''"
  by (simp_all add: toUpperCase_def upper_char_def)

section \<open>Order size\<close>

text \<open>
  Claim C6. The claim holds of the quantity that \<open>formatSize\<close> rounds, but not of the
  string it returns: the pattern \<open>/\.?0+$/\<close> also matches the zeros that end an integer,
  so that with \<open>decimals = 0\<close> a size of 10, rounded up or down to 10 and written
  \<open>10\<close>, is returned as \<open>1\<close>.
\<close>

theorem formatSize_strips_integer_zeros:
  "formatSize 10 0 Up = Inr ''1'' \<and> formatSize 10 0 Down = Inr ''1''"
  by (simp add: number_defs)

section \<open>Order status\<close>

text \<open>
  Claim C3. \<open>openPosition\<close> returns a failure with the error of an error status, but
  \<open>closePosition\<close> never looks for one: on the answer \<open>{ error: ... }\<close> to its
  reduce-only order it returns success with order id 0.
\<close>

theorem closePosition_error_reported_as_success:
  "isErrorStatus status_error
   \<and> fst (closePosition (demo_gateway 100 101 status_error) 1000 close_btc tk_risk)
       = Success (OrderId 0)
   \<and> fst (openPosition (demo_gateway 100 101 status_error) 0 params_market_buy tk_risk)
       = Failure (OrderFailed (JStr ''Reduce only order would increase position''))"
proof -
  have a: "isErrorStatus status_error"
    by (simp add: status_defs status_error_def)
  have b: "fst (closePosition (demo_gateway 100 101 status_error) 1000 close_btc tk_risk)
       = Success (OrderId 0)"
    by (simp add: close_defs account_defs status_defs number_defs close_btc_def upper_BTC
        io_defs demo_defs Let_def)
  have c: "fst (openPosition (demo_gateway 100 101 status_error) 0 params_market_buy tk_risk)
       = Failure (OrderFailed (JStr ''Reduce only order would increase position''))"
    by (simp add: open_defs account_defs status_defs number_defs params_market_buy_def
        checkOpenPosition_def upper_BTC io_defs demo_defs Let_def)
  from a b c show ?thesis by simp
qed

section \<open>Rules for method bodies\<close>

lemma hoare_ret: "Q x \<Longrightarrow> hoare I (ret x) P Q"
  by (simp add: hoare_def ret_def)

lemma hoare_throw: "hoare I (throw e) P Q"
  by (simp add: hoare_def throw_def)

lemma hoare_lift: "(\<And>x. r = Inr x \<Longrightarrow> Q x) \<Longrightarrow> hoare I (lift r) P Q"
  by (simp add: hoare_def lift_def split: sum.splits)

lemma hoare_gw_call:
  "stable I \<Longrightarrow> P c \<Longrightarrow> (\<And>i v. answer i = Inr v \<Longrightarrow> Q v) \<Longrightarrow> hoare I (gw_call c answer) P Q"
  by (auto simp: hoare_def gw_call_def stable_def split: sum.splits)

lemma hoare_bind:
  assumes m: "hoare I m P R" and f: "\<And>x. R x \<Longrightarrow> hoare I (f x) P Q"
  shows "hoare I (bind m f) P Q"
  unfolding hoare_def
proof (intro allI impI)
  fix tk assume I: "I tk"
  obtain r tk1 where mt: "m tk = (r, tk1)" by (cases "m tk")
  from m I mt obtain cs1 where I1: "I tk1" and c1: "calls tk1 = calls tk @ cs1"
    and p1: "list_all P cs1" and r1: "case r of Inl _ \<Rightarrow> True | Inr x \<Rightarrow> R x"
    unfolding hoare_def by fastforce
  show "case bind m f tk of
          (r, tk') \<Rightarrow> I tk' \<and> (\<exists>cs. calls tk' = calls tk @ cs \<and> list_all P cs)
             \<and> (case r of Inl _ \<Rightarrow> True | Inr x \<Rightarrow> Q x)"
  proof (cases r)
    case (Inl e)
    with mt I1 c1 p1 show ?thesis by (simp add: bind_def)
  next
    case (Inr x)
    with r1 have "R x" by simp
    from f [OF this] I1 obtain r2 tk2 cs2 where ft: "f x tk1 = (r2, tk2)" and I2: "I tk2"
      and c2: "calls tk2 = calls tk1 @ cs2" and p2: "list_all P cs2"
      and r2: "case r2 of Inl _ \<Rightarrow> True | Inr y \<Rightarrow> Q y"
      unfolding hoare_def by (cases "f x tk1") fastforce
    from c1 c2 p1 p2 have "calls tk2 = calls tk @ (cs1 @ cs2) \<and> list_all P (cs1 @ cs2)"
      by simp
    then have "\<exists>cs. calls tk2 = calls tk @ cs \<and> list_all P cs" by blast
    with Inr mt ft I2 r2 show ?thesis by (simp add: bind_def)
  qed
qed

lemma hoare_attempt:
  assumes m: "hoare I m P R" and e: "\<And>e. Q (Inl e)" and x: "\<And>x. R x \<Longrightarrow> Q (Inr x)"
  shows "hoare I (attempt m) P Q"
  unfolding hoare_def
proof (intro allI impI)
  fix tk assume I: "I tk"
  obtain r tk1 where mt: "m tk = (r, tk1)" by (cases "m tk")
  from m I mt have I1: "I tk1" and c1: "\<exists>cs. calls tk1 = calls tk @ cs \<and> list_all P cs"
    and r1: "case r of Inl _ \<Rightarrow> True | Inr x \<Rightarrow> R x"
    unfolding hoare_def by force+
  have "Q r"
    using r1 e x by (cases r) simp_all
  with mt I1 c1 show "case attempt m tk of
          (r, tk') \<Rightarrow> I tk' \<and> (\<exists>cs. calls tk' = calls tk @ cs \<and> list_all P cs)
             \<and> (case r of Inl _ \<Rightarrow> True | Inr x \<Rightarrow> Q x)"
    by (simp add: attempt_def)
qed

lemma hoare_weaken:
  assumes m: "hoare I m P Q" and p: "\<And>c. P c \<Longrightarrow> P' c" and q: "\<And>x. Q x \<Longrightarrow> Q' x"
  shows "hoare I m P' Q'"
  unfolding hoare_def
proof (intro allI impI)
  fix tk assume I: "I tk"
  obtain r tk1 where mt: "m tk = (r, tk1)" by (cases "m tk")
  from m I mt obtain cs where I1: "I tk1" and c1: "calls tk1 = calls tk @ cs"
    and p1: "list_all P cs" and r1: "case r of Inl _ \<Rightarrow> True | Inr x \<Rightarrow> Q x"
    unfolding hoare_def by force
  from p1 p have "list_all P' cs"
    by (simp add: list_all_iff)
  with c1 have c: "\<exists>cs. calls tk1 = calls tk @ cs \<and> list_all P' cs" by blast
  have "case r of Inl _ \<Rightarrow> True | Inr x \<Rightarrow> Q' x"
    using r1 q by (cases r) simp_all
  with mt I1 c show "case m tk of
          (r, tk') \<Rightarrow> I tk' \<and> (\<exists>cs. calls tk' = calls tk @ cs \<and> list_all P' cs)
             \<and> (case r of Inl _ \<Rightarrow> True | Inr x \<Rightarrow> Q' x)"
    by simp
qed

lemma hoare_result:
  assumes m: "hoare I m P Q" and I: "I tk" and mt: "m tk = (r, tk')"
  shows "I tk' \<and> list_all P (new_calls tk tk') \<and> (\<forall>x. r = Inr x \<longrightarrow> Q x)"
proof -
  from m I mt obtain cs where I1: "I tk'" and c1: "calls tk' = calls tk @ cs"
    and p1: "list_all P cs" and r1: "case r of Inl _ \<Rightarrow> True | Inr x \<Rightarrow> Q x"
    unfolding hoare_def by force
  from c1 have "new_calls tk tk' = cs"
    by (simp add: new_calls_def)
  with I1 p1 r1 show ?thesis by auto
qed

section \<open>The bodies of the trading actions\<close>

lemma hoare_getBookTopLevels:
  assumes st: "stable I" and p: "P (L2Book c)"
  shows "hoare I (getBookTopLevels gw c) P (\<lambda>(bid, ask). top_of_book gw c bid ask)"
  unfolding getBookTopLevels_def
proof (rule hoare_bind [where R = "\<lambda>book. \<exists>i. gw_l2Book gw i c = Inr book"])
  show "hoare I (gw_call (L2Book c) (\<lambda>i. gw_l2Book gw i c)) P
          (\<lambda>book. \<exists>i. gw_l2Book gw i c = Inr book)"
    by (rule hoare_gw_call [OF st]) (use p in blast)+
next
  fix book assume "\<exists>i. gw_l2Book gw i c = Inr book"
  then show "hoare I
       (case book of None \<Rightarrow> throw (NoOrderBook c)
        | Some bk \<Rightarrow>
            let bestBid = top_px (bid_levels bk); bestAsk = top_px (ask_levels bk)
            in if \<not> truthy bestBid \<or> \<not> truthy bestAsk then throw (NoLiquidity c)
               else ret (bestBid, bestAsk))
       P (\<lambda>(bid, ask). top_of_book gw c bid ask)"
    by (cases book) (auto simp: Let_def top_of_book_def intro!: hoare_throw hoare_ret)
qed

lemma hoare_getAssetIndex:
  assumes st: "stable I" and p: "P Meta" "P SpotMeta"
  shows "hoare I (getAssetIndex gw c mkt) P (\<lambda>_. True)"
  using st p
  unfolding hoare_def stable_def
  by (cases mkt)
     (auto simp: getAssetIndex_def io_defs split: option.splits sum.splits)

lemma hoare_place_order:
  assumes st: "stable I" and p: "P (PlaceOrder req g)"
  shows "hoare I (bind (gw_call (PlaceOrder req g) (\<lambda>i. gw_order gw i req g)) (\<lambda>_. ret ()))
           P (\<lambda>_. True)"
  by (rule hoare_bind [where R = "\<lambda>_. True"])
     (simp_all add: hoare_gw_call [OF st] p hoare_ret)

lemma hoare_place_stop_loss:
  assumes st: "stable I" and p: "P AllMids" "\<And>req. P (PlaceOrder req PositionTpsl)"
  shows "hoare I (place_stop_loss gw params c a isBuy sz) P (\<lambda>_. True)"
  unfolding place_stop_loss_def Let_def
  by (auto intro!: hoare_ret hoare_bind [where R = "\<lambda>_. True"] hoare_gw_call [OF st] p)

lemma hoare_place_take_profit:
  assumes st: "stable I" and p: "P AllMids" "\<And>req. P (PlaceOrder req PositionTpsl)"
  shows "hoare I (place_take_profit gw params c a isBuy sz) P (\<lambda>_. True)"
  unfolding place_take_profit_def Let_def
  by (auto intro!: hoare_ret hoare_bind [where R = "\<lambda>_. True"] hoare_gw_call [OF st] p)

lemma hoare_after_entry:
  assumes st: "stable I" and p: "P AllMids" "\<And>req. P (PlaceOrder req PositionTpsl)"
  shows "hoare I (after_entry gw params c a isBuy isSpot sz res) P
           (\<lambda>res. \<forall>r. res \<noteq> Failure (RiskCheckFailed r))"
  unfolding after_entry_def Let_def
  by (auto intro!: hoare_ret hoare_lift hoare_bind [where R = "\<lambda>_. True"]
      hoare_place_stop_loss [OF st] hoare_place_take_profit [OF st] p)

lemma hoare_entry_price:
  assumes st: "stable I" and d: "\<And>tk. I tk \<Longrightarrow> defaultSlippage tk = d"
    and p: "P (L2Book c)"
    and bt: "case bookTop of None \<Rightarrow> True | Some (bid, ask) \<Rightarrow> top_of_book gw c bid ask"
  shows "hoare I (entry_price gw params c isBuy bookTop) P
           (\<lambda>(price, tf). entry_price_of gw params d c isBuy price)"
proof (cases "orderType params = Some Limit \<and> truthy_opt (limitPrice params)")
  case True
  then show ?thesis
    by (simp add: entry_price_def entry_price_of_def hoare_ret)
next
  case False
  have top: "hoare I (case bookTop of Some bt \<Rightarrow> ret bt | None \<Rightarrow> getBookTopLevels gw c) P
               (\<lambda>(bid, ask). top_of_book gw c bid ask)"
  proof (cases bookTop)
    case None
    then show ?thesis by (simp add: hoare_getBookTopLevels [OF st] p)
  next
    case (Some b)
    with bt show ?thesis by (auto intro: hoare_ret)
  qed
  have price: "hoare I
       (\<lambda>tk. ret (market_price isBuy bid ask
                     (or_default (slippagePercent params) (defaultSlippage tk)), Ioc) tk)
       P (\<lambda>(price, tf). entry_price_of gw params d c isBuy price)"
    if "top_of_book gw c bid ask" for bid ask
    using that False d
    by (auto simp: hoare_def ret_def entry_price_of_def)
  from False show ?thesis
    unfolding entry_price_def
    by (auto intro!: hoare_bind [OF top] price)
qed

lemma hoare_submit_entry:
  assumes st: "stable I" and d: "\<And>tk. I tk \<Longrightarrow> defaultSlippage tk = d"
    and p: "P Meta" "P SpotMeta" "\<And>c. P (L2Book c)" "\<And>a b l. P (UpdateLeverage a b l)"
      "P AllMids" "\<And>req. P (PlaceOrder req PositionTpsl)"
    and entry: "\<And>req c. entry_price_of gw params d c (o_b req) (o_p req)
                  \<Longrightarrow> P (PlaceOrder req Na)"
  shows "hoare I (submit_entry gw params mkt) P (\<lambda>res. \<forall>r. res \<noteq> Failure (RiskCheckFailed r))"
  unfolding submit_entry_def Let_def
  apply (rule hoare_bind [where R = "\<lambda>_. True"])
  subgoal by (rule hoare_getAssetIndex [OF st]) (rule p)+
  subgoal for asset
    apply (rule hoare_bind [where R = "\<lambda>bookTop. case bookTop of None \<Rightarrow> True
                | Some (bid, ask) \<Rightarrow> top_of_book gw (ar_pairName asset) bid ask"])
    subgoal by (auto intro!: hoare_ret hoare_bind [OF hoare_getBookTopLevels [OF st]] p)
    subgoal for bookTop
      apply (rule hoare_bind [where R = "\<lambda>_. True"])
      subgoal by (rule hoare_lift) simp
      subgoal for orderSize
        apply (rule hoare_bind [where R = "\<lambda>_. True"])
        subgoal by (auto intro!: hoare_ret hoare_gw_call [OF st] p)
        subgoal for u
          apply (rule hoare_bind [where R = "\<lambda>(price, tf). entry_price_of gw params d
                    (ar_pairName asset) (side params = Long \<or> side params = Buy) price"])
          subgoal by (rule hoare_entry_price [OF st]) (simp_all add: d p)
          subgoal for pt
            apply (cases pt)
            apply simp
            apply (rule hoare_bind [where R = "\<lambda>_. True"])
            subgoal by (rule hoare_gw_call [OF st]) (auto intro!: entry)
            subgoal by (rule hoare_after_entry [OF st]) (rule p)+
            done
          done
        done
      done
    done
  done

lemma hoare_getPositions_rest:
  assumes st: "stable I" and p: "P AllMids"
  shows "hoare I (getPositions_rest gw st0) P (\<lambda>_. True)"
  unfolding getPositions_rest_def
  by (auto intro!: hoare_bind [where R = "\<lambda>_. True"] hoare_gw_call [OF st] hoare_ret p)

lemma hoare_getPositions_and_Balance:
  assumes st: "stable I" and p: "P ClearinghouseState" "P AllMids"
  shows "hoare I (getPositions_and_Balance gw) P (\<lambda>_. True)"
  unfolding getPositions_and_Balance_def
  apply (rule hoare_bind [where R = "\<lambda>_. True"])
  subgoal by (rule hoare_attempt [where R = "\<lambda>_. True"]) (auto intro!: hoare_gw_call [OF st] p)
  apply (rule hoare_bind [where R = "\<lambda>_. True"])
  subgoal by (rule hoare_attempt [where R = "\<lambda>_. True"]) (auto intro!: hoare_gw_call [OF st] p)
  apply (rule hoare_bind [where R = "\<lambda>_. True"])
  subgoal for r1 r2
    by (cases r1)
       (auto intro!: hoare_ret hoare_attempt [where R = "\<lambda>_. True"]
          hoare_getPositions_rest [OF st] p)
  subgoal by (auto intro!: hoare_ret)
  done

lemma hoare_getPositions:
  assumes st: "stable I" and p: "P ClearinghouseState" "P AllMids"
  shows "hoare I (getPositions gw) P (\<lambda>_. True)"
  unfolding getPositions_def getPositions_body_def
  by (auto intro!: hoare_attempt [where R = "\<lambda>_. True"] hoare_bind [where R = "\<lambda>_. True"]
      hoare_gw_call [OF st] hoare_getPositions_rest [OF st] p)

lemma hoare_risk_checks:
  assumes st: "stable I" and rs: "risk_stable I" and p: "P ClearinghouseState" "P AllMids"
  shows "hoare I (risk_checks gw now params mkt) P (\<lambda>_. True)"
proof -
  have upd: "hoare I
      (\<lambda>tk'. case v of
               (riskCheck, rm') \<Rightarrow>
                 (Inr (Some riskCheck),
                  tk'\<lparr>riskManager := Some rm', riskChecks := Suc (riskChecks tk')\<rparr>))
      P (\<lambda>_. True)" for v :: "RiskCheckResult \<times> RiskManager"
    using rs unfolding hoare_def risk_stable_def
    by (auto split: prod.splits)
  have main: "hoare I
      (bind (getPositions_and_Balance gw)
         (\<lambda>(positionsResult, balanceResult).
            case positionsResult of
              Inl _ \<Rightarrow> throw FetchAccountFailed
            | Inr positions \<Rightarrow>
                (case balanceResult of
                   Inl _ \<Rightarrow> throw FetchAccountFailed
                 | Inr balance \<Rightarrow>
                     (\<lambda>tk'. let (riskCheck, rm') =
                                   checkOpenPosition now params positions
                                     (availableBalance balance) rm
                             in (Inr (Some riskCheck),
                                 tk'\<lparr>riskManager := Some rm',
                                     riskChecks := riskChecks tk' + 1\<rparr>)))))
      P (\<lambda>_. True)" for rm
    apply (rule hoare_bind [OF hoare_getPositions_and_Balance [OF st]])
      apply (rule p)+
    subgoal for x
      by (cases x) (auto split: sum.splits intro!: hoare_throw upd)
    done
  show ?thesis
    unfolding hoare_def
  proof (intro allI impI)
    fix tk assume I: "I tk"
    show "case risk_checks gw now params mkt tk of
            (r, tk') \<Rightarrow> I tk' \<and> (\<exists>cs. calls tk' = calls tk @ cs \<and> list_all P cs)
               \<and> (case r of Inl _ \<Rightarrow> True | Inr x \<Rightarrow> True)"
    proof (cases "riskManager tk")
      case None
      with I show ?thesis by (simp add: risk_checks_def ret_def)
    next
      case (Some rm)
      show ?thesis
      proof (cases "mkt = Perp")
        case True
        with Some I main [of rm] show ?thesis
          unfolding hoare_def by (simp add: risk_checks_def)
      next
        case False
        with Some I show ?thesis by (simp add: risk_checks_def ret_def)
      qed
    qed
  qed
qed

lemma risk_checks_denied_calls:
  "risk_checks gw now params mkt tk = (Inr (Some rc), tk') \<Longrightarrow>
   calls tk' = calls tk @ [ClearinghouseState, ClearinghouseState, AllMids]"
  by (auto simp: risk_checks_def getPositions_and_Balance_def getPositions_rest_def io_defs
      split: option.splits sum.splits if_splits prod.splits)

lemma risk_checks_spot:
  "risk_checks gw now params Spot tk = (Inr None, tk)"
  by (simp add: risk_checks_def ret_def split: option.splits)

lemma hoare_openPosition_body:
  assumes st: "stable I" and rs: "risk_stable I"
    and d: "\<And>tk. I tk \<Longrightarrow> defaultSlippage tk = d"
    and p: "P ClearinghouseState" "P Meta" "P SpotMeta" "\<And>c. P (L2Book c)"
      "\<And>a b l. P (UpdateLeverage a b l)" "P AllMids" "\<And>req. P (PlaceOrder req PositionTpsl)"
    and entry: "\<And>req c. entry_price_of gw params d c (o_b req) (o_p req)
                  \<Longrightarrow> P (PlaceOrder req Na)"
  shows "hoare I (openPosition_body gw now params) P (\<lambda>_. True)"
proof -
  have sub: "hoare I (submit_entry gw params mkt) P (\<lambda>_. True)" for mkt
    by (rule hoare_weaken [OF hoare_submit_entry [OF st d, where P = P and gw = gw
            and params = params]])
       (auto intro: p entry)
  show ?thesis
    unfolding openPosition_body_def Let_def
    apply (rule hoare_bind [OF hoare_risk_checks [OF st rs]])
      apply (rule p)+
    subgoal for rc
      by (cases rc) (auto intro!: sub hoare_ret)
    done
qed

lemma openPosition_calls:
  assumes h: "hoare I (openPosition_body gw now params) P (\<lambda>_. True)" and I: "I tk"
  shows "I (snd (openPosition gw now params tk))
         \<and> list_all P (new_calls tk (snd (openPosition gw now params tk)))"
proof -
  obtain r tk' where b: "openPosition_body gw now params tk = (r, tk')"
    by (cases "openPosition_body gw now params tk")
  from hoare_result [OF h I b] have "I tk' \<and> list_all P (new_calls tk tk')" by simp
  moreover from b have "snd (openPosition gw now params tk) = tk'"
    by (cases r) (simp_all add: openPosition_def)
  ultimately show ?thesis by simp
qed

lemma stable_slippage: "stable (\<lambda>t. defaultSlippage t = d)" "risk_stable (\<lambda>t. defaultSlippage t = d)"
  by (simp_all add: stable_def risk_stable_def)

lemma stable_risk:
  "stable (\<lambda>t. riskManager t = rm \<and> riskChecks t = k \<and> defaultSlippage t = d)"
  by (simp add: stable_def)

lemma submit_entry_no_risk_failure:
  "submit_entry gw params mkt tk \<noteq> (Inr (Failure (RiskCheckFailed r)), tk')"
proof
  assume a: "submit_entry gw params mkt tk = (Inr (Failure (RiskCheckFailed r)), tk')"
  have "hoare (\<lambda>t. defaultSlippage t = defaultSlippage tk) (submit_entry gw params mkt)
          (\<lambda>_. True) (\<lambda>res. \<forall>r. res \<noteq> Failure (RiskCheckFailed r))"
    by (rule hoare_submit_entry [OF stable_slippage(1)]) simp_all
  from hoare_result [OF this _ a] show False by simp
qed

lemma openPosition_denied_calls:
  assumes "fst (openPosition gw now params tk) = Failure (RiskCheckFailed r)"
  shows "new_calls tk (snd (openPosition gw now params tk))
           = [ClearinghouseState, ClearinghouseState, AllMids]"
proof -
  let ?mkt = "case market params of None \<Rightarrow> Perp | Some m \<Rightarrow> m"
  obtain res tk' where b: "openPosition_body gw now params tk = (res, tk')"
    by (cases "openPosition_body gw now params tk")
  with assms have res: "res = Inr (Failure (RiskCheckFailed r))"
    and snd: "snd (openPosition gw now params tk) = tk'"
    by (cases res; simp add: openPosition_def)+
  obtain r1 tk1 where rc: "risk_checks gw now params ?mkt tk = (r1, tk1)"
    by (cases "risk_checks gw now params ?mkt tk")
  have "\<exists>c. r1 = Inr (Some c) \<and> tk' = tk1"
  proof (cases r1)
    case (Inl e)
    with b rc res show ?thesis
      by (simp add: openPosition_body_def bind_def Let_def)
  next
    case (Inr v)
    show ?thesis
    proof (cases v)
      case None
      with Inr b rc res submit_entry_no_risk_failure [of gw params ?mkt tk1 r tk']
      show ?thesis
        by (simp add: openPosition_body_def bind_def Let_def)
    next
      case (Some c)
      with Inr b rc res submit_entry_no_risk_failure [of gw params ?mkt tk1 r tk']
      show ?thesis
        by (simp add: openPosition_body_def bind_def ret_def Let_def split: if_splits)
    qed
  qed
  then obtain c where "risk_checks gw now params ?mkt tk = (Inr (Some c), tk')"
    using rc by blast
  from risk_checks_denied_calls [OF this] snd show ?thesis
    by (simp add: new_calls_def)
qed

lemma openPosition_spot:
  assumes "market params = Some Spot"
  shows "(\<forall>r. fst (openPosition gw now params tk) \<noteq> Failure (RiskCheckFailed r))
         \<and> riskChecks (snd (openPosition gw now params tk)) = riskChecks tk
         \<and> riskManager (snd (openPosition gw now params tk)) = riskManager tk"
proof -
  let ?I = "\<lambda>t. riskManager t = riskManager tk \<and> riskChecks t = riskChecks tk
                \<and> defaultSlippage t = defaultSlippage tk"
  have h: "hoare ?I (submit_entry gw params Spot) (\<lambda>_. True)
             (\<lambda>res. \<forall>r. res \<noteq> Failure (RiskCheckFailed r))"
    by (rule hoare_submit_entry [OF stable_risk]) simp_all
  from assms have body: "openPosition_body gw now params tk = submit_entry gw params Spot tk"
    by (simp add: openPosition_body_def bind_def risk_checks_spot Let_def)
  obtain res tk' where s: "submit_entry gw params Spot tk = (res, tk')"
    by (cases "submit_entry gw params Spot tk")
  from hoare_result [OF h _ s] have I: "?I tk'" and q: "\<forall>x. res = Inr x \<longrightarrow> (\<forall>r. x \<noteq> Failure (RiskCheckFailed r))"
    by simp_all
  from body s I q show ?thesis
    by (cases res) (simp_all add: openPosition_def)
qed

section \<open>Risk checks and gateway calls\<close>

lemma upper_PURR: "toUpperCase ''PURR'' = ''PURR''" "toUpperCase ''PURR/USDC'' = ''PURR/USDC''"
  by (simp_all add: toUpperCase_def upper_char_def)

text \<open>
  A request over the leverage limit is denied after the toolkit has read the positions
  and the balance from the exchange: three calls of the info client come before the
  denial.
\<close>

theorem risk_denial_after_account_reads_counterexample:
  "fst (openPosition (demo_gateway 100 101 status_filled) 0 params_over tk_risk)
     = Failure (RiskCheckFailed (Some (LeverageExceeds 20 10)))
   \<and> calls (snd (openPosition (demo_gateway 100 101 status_filled) 0 params_over tk_risk))
       = [ClearinghouseState, ClearinghouseState, AllMids]"
  by (simp add: openPosition_def openPosition_body_def risk_checks_def account_defs
      checkOpenPosition_def deny_def params_over_def when_set_def truthy_def io_defs demo_defs
      Let_def)

text \<open>
  Claim C4, as amended. Every \<open>openPosition\<close> that the risk gate denies has made
  exactly three gateway calls, the two \<open>clearinghouseState\<close> requests and the
  \<open>allMids\<close> request that fetch the positions and the balance for the check, and no
  other: no metadata fetch, no order-book read, no leverage update and no order.
\<close>

theorem risk_denial_calls:
  "fst (openPosition gw now params tk) = Failure (RiskCheckFailed r) \<longrightarrow>
   new_calls tk (snd (openPosition gw now params tk))
     = [ClearinghouseState, ClearinghouseState, AllMids]"
  using openPosition_denied_calls by blast

theorem risk_denial_calls_witness:
  "fst (openPosition (demo_gateway 100 101 status_filled) 0 params_over tk_risk)
     = Failure (RiskCheckFailed (Some (LeverageExceeds 20 10)))
   \<and> new_calls tk_risk
        (snd (openPosition (demo_gateway 100 101 status_filled) 0 params_over tk_risk))
       = [ClearinghouseState, ClearinghouseState, AllMids]"
proof -
  have "fst (openPosition (demo_gateway 100 101 status_filled) 0 params_over tk_risk)
     = Failure (RiskCheckFailed (Some (LeverageExceeds 20 10)))"
    by (simp add: openPosition_def openPosition_body_def risk_checks_def account_defs
      checkOpenPosition_def deny_def params_over_def when_set_def truthy_def io_defs demo_defs
      Let_def)
  then show ?thesis
    using risk_denial_calls [of "demo_gateway 100 101 status_filled" 0 params_over tk_risk
        "Some (LeverageExceeds 20 10)"]
    by simp
qed

text \<open>
  Claim C10. For every \<open>openPosition\<close> call with \<open>market = 'spot'\<close>, whatever the
  toolkit's risk manager: \<open>checkOpenPosition\<close> is not called, the risk manager is left
  as it was, and the result is not a risk denial.
\<close>

theorem spot_bypasses_risk_checks:
  "market params = Some Spot \<longrightarrow>
     (\<forall>r. fst (openPosition gw now params tk) \<noteq> Failure (RiskCheckFailed r))
     \<and> riskChecks (snd (openPosition gw now params tk)) = riskChecks tk
     \<and> riskManager (snd (openPosition gw now params tk)) = riskManager tk"
  using openPosition_spot by blast

theorem spot_bypasses_risk_checks_witness:
  "market params_spot_over = Some Spot
   \<and> fst (openPosition (demo_gateway 100 101 status_filled) 0 params_spot_over tk_risk)
       = Success (OrderId 77)
   \<and> riskChecks (snd (openPosition (demo_gateway 100 101 status_filled) 0 params_spot_over
                         tk_risk)) = 0
   \<and> riskManager (snd (openPosition (demo_gateway 100 101 status_filled) 0 params_spot_over
                          tk_risk)) = Some rm_fresh"
proof -
  have m: "market params_spot_over = Some Spot"
    by (simp add: params_spot_over_def)
  have r: "fst (openPosition (demo_gateway 100 101 status_filled) 0 params_spot_over tk_risk)
       = Success (OrderId 77)"
    by (simp add: open_defs status_defs number_defs params_spot_over_def params_over_def
        upper_PURR io_defs demo_defs Let_def)
  show ?thesis
    using m r
      spot_bypasses_risk_checks [of params_spot_over "demo_gateway 100 101 status_filled" 0
        tk_risk]
    by (simp add: tk_risk_def tk_plain_def)
qed

section \<open>Limit price\<close>

lemma round_half_up_bound: "\<bar>of_int (round_half_up y) - y\<bar> \<le> 1 / 2"
  unfolding round_half_up_def by linarith

lemma round_half_up_of_int: "round_half_up (of_int m) = m"
  unfolding round_half_up_def by linarith

lemma round_half_up_nonneg: "0 \<le> y \<Longrightarrow> 0 \<le> round_half_up y"
  unfolding round_half_up_def by linarith

lemma toFixed_value_eq:
  assumes "\<bar>x\<bar> < 10 ^ 21"
  shows "toFixed_value f x = sgn x * of_int (round_half_up (\<bar>x\<bar> * 10 ^ f)) / 10 ^ f"
proof -
  have "0 \<le> round_half_up (\<bar>x\<bar> * 10 ^ f)"
    by (rule round_half_up_nonneg) simp
  then have "real (nat (round_half_up (\<bar>x\<bar> * 10 ^ f))) = of_int (round_half_up (\<bar>x\<bar> * 10 ^ f))"
    by simp
  with assms show ?thesis
    by (simp add: toFixed_value_def toFixed_n_def)
qed

lemma toFixed_value_bound:
  assumes "\<bar>x\<bar> < 10 ^ 21"
  shows "\<bar>toFixed_value f x - x\<bar> \<le> (1 / 2) / 10 ^ f"
proof -
  let ?k = "of_int (round_half_up (\<bar>x\<bar> * 10 ^ f)) :: real"
  have x: "x = sgn x * (\<bar>x\<bar> * 10 ^ f) / 10 ^ f"
    by (simp add: sgn_mult_abs mult.assoc [symmetric])
  have "toFixed_value f x - x = sgn x * (?k - \<bar>x\<bar> * 10 ^ f) / 10 ^ f"
    using x by (simp add: toFixed_value_eq [OF assms] algebra_simps diff_divide_distrib)
  then have "\<bar>toFixed_value f x - x\<bar> = \<bar>sgn x\<bar> * \<bar>?k - \<bar>x\<bar> * 10 ^ f\<bar> / 10 ^ f"
    by (simp add: abs_mult)
  also have "\<dots> \<le> 1 * (1 / 2) / 10 ^ f"
    by (intro divide_right_mono mult_mono round_half_up_bound) (simp_all add: abs_sgn_eq)
  finally show ?thesis by simp
qed

lemma toFixed_value_exact:
  assumes "\<bar>x\<bar> < 10 ^ 21"
  shows "toFixed_value f x = x \<longleftrightarrow> x * 10 ^ f \<in> \<int>"
proof
  assume "toFixed_value f x = x"
  then have "x * 10 ^ f = sgn x * of_int (round_half_up (\<bar>x\<bar> * 10 ^ f))"
    by (simp add: toFixed_value_eq [OF assms] field_simps)
  also have "\<dots> \<in> \<int>"
    by (cases "x = 0"; cases "0 < x") (simp_all add: sgn_if)
  finally show "x * 10 ^ f \<in> \<int>" .
next
  assume "x * 10 ^ f \<in> \<int>"
  then obtain m :: int where m: "x * 10 ^ f = of_int m"
    by (auto elim: Ints_cases)
  have "\<bar>x\<bar> * 10 ^ f = \<bar>x * 10 ^ f\<bar>"
    by (simp add: abs_mult)
  with m have eq: "\<bar>x\<bar> * 10 ^ f = of_int \<bar>m\<bar>"
    by simp
  have "of_int (round_half_up (of_int \<bar>m\<bar> :: real)) = (of_int \<bar>m\<bar> :: real)"
    by (simp only: round_half_up_of_int)
  with eq have "of_int (round_half_up (\<bar>x\<bar> * 10 ^ f)) = \<bar>x\<bar> * 10 ^ f"
    by (simp only:)
  then have "toFixed_value f x = sgn x * (\<bar>x\<bar> * 10 ^ f) / 10 ^ f"
    by (simp add: toFixed_value_eq [OF assms])
  also have "\<dots> = x"
    by (simp add: sgn_mult_abs mult.assoc [symmetric])
  finally show "toFixed_value f x = x" .
qed

lemma openPosition_limit_price:
  assumes lim: "orderType params = Some Limit" "limitPrice params = Some lp" "lp \<noteq> 0"
  shows "list_all (\<lambda>c. \<forall>req. c = PlaceOrder req Na \<longrightarrow> o_p req = toFixed_value 5 lp)
           (new_calls tk (snd (openPosition gw now params tk)))"
proof -
  let ?I = "\<lambda>t. defaultSlippage t = defaultSlippage tk"
  let ?P = "\<lambda>c. \<forall>req. c = PlaceOrder req Na \<longrightarrow> o_p req = toFixed_value 5 lp"
  have "hoare ?I (openPosition_body gw now params) ?P (\<lambda>_. True)"
    by (rule hoare_openPosition_body [OF stable_slippage])
       (use lim in \<open>simp_all add: entry_price_of_def truthy_opt_def truthy_def\<close>)
  from openPosition_calls [OF this] show ?thesis by simp
qed

lemma limit_buy_calls:
  "calls (snd (openPosition (demo_gateway 100 101 status_filled) 0 params_limit_buy tk_plain))
     = [Meta, UpdateLeverage 0 True 1,
        PlaceOrder \<lparr>o_a = 0, o_b = True, o_p = 123457 / 100000, o_s = ''0.5'', o_r = False,
                    o_t = LimitTif Gtc\<rparr> Na]"
  by (simp add: open_defs status_defs number_defs params_limit_buy_def upper_BTC io_defs
      demo_defs Let_def)

text \<open>
  A limit buy at 1.234567 is submitted at 1.23457, the string of \<open>toFixed(5)\<close>: the
  price on the wire is not the caller's number.
\<close>

theorem limit_price_not_verbatim_counterexample:
  "limitPrice params_limit_buy = Some (1234567 / 1000000)
   \<and> orderType params_limit_buy = Some Limit
   \<and> map (\<lambda>c. case c of PlaceOrder req g \<Rightarrow> Some (o_p req) | _ \<Rightarrow> None)
        (calls (snd (openPosition (demo_gateway 100 101 status_filled) 0 params_limit_buy
                       tk_plain)))
       = [None, None, Some (123457 / 100000)]
   \<and> (123457 / 100000 :: real) \<noteq> 1234567 / 1000000"
  by (simp add: limit_buy_calls) (simp add: params_limit_buy_def no_params_def)

text \<open>
  Claim C5, as amended. For every limit order (\<open>orderType\<close> \<open>'limit'\<close> with a non-zero
  \<open>limitPrice\<close> below \<open>10^21\<close> in absolute value), the price of the entry order that
  \<open>openPosition\<close> submits is the limit price rounded to five decimal places, as
  \<open>toFixed(5)\<close> writes it: it differs from the caller's number by at most 0.000005, and
  it is the caller's number exactly when that has at most five decimal places.
\<close>

theorem limit_price_rounded:
  "orderType params = Some Limit \<and> limitPrice params = Some lp \<and> lp \<noteq> 0 \<and> \<bar>lp\<bar> < 10 ^ 21
   \<longrightarrow>
     list_all (\<lambda>c. \<forall>req. c = PlaceOrder req Na \<longrightarrow> o_p req = toFixed_value 5 lp)
       (new_calls tk (snd (openPosition gw now params tk)))
     \<and> \<bar>toFixed_value 5 lp - lp\<bar> \<le> 1 / 200000
     \<and> (toFixed_value 5 lp = lp \<longleftrightarrow> lp * 100000 \<in> \<int>)"
proof (intro impI, elim conjE)
  assume a: "orderType params = Some Limit" "limitPrice params = Some lp" "lp \<noteq> 0"
    and b: "\<bar>lp\<bar> < 10 ^ 21"
  from toFixed_value_bound [OF b, of 5] have "\<bar>toFixed_value 5 lp - lp\<bar> \<le> 1 / 200000"
    by simp
  moreover from toFixed_value_exact [OF b, of 5]
  have "toFixed_value 5 lp = lp \<longleftrightarrow> lp * 100000 \<in> \<int>"
    by simp
  ultimately show "list_all (\<lambda>c. \<forall>req. c = PlaceOrder req Na \<longrightarrow> o_p req = toFixed_value 5 lp)
       (new_calls tk (snd (openPosition gw now params tk)))
     \<and> \<bar>toFixed_value 5 lp - lp\<bar> \<le> 1 / 200000
     \<and> (toFixed_value 5 lp = lp \<longleftrightarrow> lp * 100000 \<in> \<int>)"
    using openPosition_limit_price [OF a] by blast
qed

theorem limit_price_rounded_witness:
  "orderType params_limit_buy = Some Limit
   \<and> limitPrice params_limit_buy = Some (1234567 / 1000000)
   \<and> new_calls tk_plain
        (snd (openPosition (demo_gateway 100 101 status_filled) 0 params_limit_buy tk_plain))
       = [Meta, UpdateLeverage 0 True 1,
          PlaceOrder \<lparr>o_a = 0, o_b = True, o_p = 123457 / 100000, o_s = ''0.5'',
                      o_r = False, o_t = LimitTif Gtc\<rparr> Na]
   \<and> toFixed_value 5 (1234567 / 1000000) = 123457 / 100000
   \<and> \<bar>toFixed_value 5 (1234567 / 1000000) - 1234567 / 1000000\<bar> \<le> 1 / 200000
   \<and> toFixed_value 5 (1234567 / 1000000) \<noteq> 1234567 / 1000000"
proof -
  have p: "orderType params_limit_buy = Some Limit"
    "limitPrice params_limit_buy = Some (1234567 / 1000000)"
    by (simp_all add: params_limit_buy_def no_params_def)
  have n: "new_calls tk_plain
        (snd (openPosition (demo_gateway 100 101 status_filled) 0 params_limit_buy tk_plain))
       = [Meta, UpdateLeverage 0 True 1,
          PlaceOrder \<lparr>o_a = 0, o_b = True, o_p = 123457 / 100000, o_s = ''0.5'',
                      o_r = False, o_t = LimitTif Gtc\<rparr> Na]"
    by (simp add: new_calls_def limit_buy_calls) (simp add: tk_plain_def)
  have z: "(1234567 / 1000000 :: real) * 100000 \<notin> \<int>"
  proof
    assume "(1234567 / 1000000 :: real) * 100000 \<in> \<int>"
    then obtain m :: int where "(1234567 / 1000000 :: real) * 100000 = of_int m"
      by (auto elim: Ints_cases)
    then have "(1234567 :: real) = of_int (10 * m)" by simp
    then have "(1234567 :: int) = 10 * m" by (metis of_int_eq_iff of_int_numeral)
    then show False by presburger
  qed
  show ?thesis
    using p n z
      limit_price_rounded [of params_limit_buy "1234567 / 1000000" tk_plain
        "demo_gateway 100 101 status_filled" 0]
    by simp
qed

section \<open>Market price\<close>

subsection \<open>Rounding to five significant digits\<close>

lemma pow10_power_int: "pow10 e = power_int 10 e"
  by (simp add: pow10_def power_int_def inverse_eq_divide power_one_over)

lemma pow10_pos: "0 < pow10 e"
  by (simp add: pow10_def)

lemma pow10_add1: "pow10 (e + 1) = 10 * pow10 e"
  by (simp add: pow10_power_int power_int_add)

lemma pow10_nat: "pow10 (int n) = 10 ^ n"
  by (simp add: pow10_def)

lemma pow10_neg_nat: "pow10 (- int n) = 1 / 10 ^ n"
  by (cases n) (simp_all add: pow10_def nat_add_distrib)

lemma digits_length_bounds:
  "0 < n \<Longrightarrow> 10 ^ (length (digits n) - 1) \<le> n \<and> n < 10 ^ length (digits n)"
proof (induction n rule: digits.induct)
  case (1 n)
  show ?case
  proof (cases "n < 10")
    case True
    with "1.prems" show ?thesis
      by (simp add: digits.simps [of n])
  next
    case False
    then have pos: "0 < n div 10" by simp
    let ?L = "length (digits (n div 10))"
    from "1.IH" [OF False pos]
    have ih: "10 ^ (?L - 1) \<le> n div 10" "n div 10 < 10 ^ ?L" by simp_all
    have L: "0 < ?L"
      by (subst digits.simps) simp
    then have "(10::nat) ^ ?L = 10 * 10 ^ (?L - 1)"
      by (cases ?L) simp_all
    with ih(1) have lo: "10 ^ ?L \<le> n" by linarith
    from ih(2) have "n div 10 + 1 \<le> 10 ^ ?L" by simp
    then have "10 * (n div 10 + 1) \<le> 10 * 10 ^ ?L" by simp
    moreover have "n < 10 * (n div 10 + 1)" by presburger
    ultimately have hi: "n < 10 * 10 ^ ?L" by linarith
    from False lo hi show ?thesis
      by (simp add: digits.simps [of n])
  qed
qed

lemma real_pow10_le: "(10::nat) ^ k \<le> n \<Longrightarrow> (10::real) ^ k \<le> real n"
  using of_nat_mono [of "10 ^ k" n, where ?'a = real] by simp

lemma real_less_pow10: "n < (10::nat) ^ k \<Longrightarrow> real n + 1 \<le> 10 ^ k"
  using of_nat_mono [of "n + 1" "10 ^ k", where ?'a = real] by simp

lemma dec_exponent_bounds:
  assumes x: "0 < x"
  shows "pow10 (dec_exponent x) \<le> x \<and> x < pow10 (dec_exponent x + 1)"
proof (cases "1 \<le> x")
  case True
  let ?n = "nat \<lfloor>x\<rfloor>"
  let ?L = "length (digits ?n)"
  from True have n: "0 < ?n" by simp
  from digits_length_bounds [OF n] have b: "10 ^ (?L - 1) \<le> ?n" "?n < 10 ^ ?L" by simp_all
  from b(2) have L: "0 < ?L" using n by (cases ?L) simp_all
  have Li: "int (?L - 1) = int ?L - 1"
    using L by arith
  have e: "dec_exponent x = int (?L - 1)" "int (?L - 1) + 1 = int ?L"
    using True Li by (simp_all add: dec_exponent_def)
  have "real ?n \<le> x" using True by simp
  moreover have "x < real ?n + 1" using True by linarith
  moreover from b(1) have "(10::real) ^ (?L - 1) \<le> real ?n"
    by (rule real_pow10_le)
  moreover from b(2) have "real ?n + 1 \<le> 10 ^ ?L"
    by (rule real_less_pow10)
  ultimately show ?thesis
    unfolding e pow10_nat by linarith
next
  case False
  with x have x1: "x < 1" by simp
  let ?m = "nat \<lfloor>1 / x\<rfloor>"
  let ?d = "length (digits ?m)"
  from x x1 have "1 \<le> 1 / x" by simp
  then have m: "0 < ?m" by simp
  from digits_length_bounds [OF m] have b: "10 ^ (?d - 1) \<le> ?m" "?m < 10 ^ ?d" by simp_all
  from b(2) have d: "0 < ?d" using m by (cases ?d) simp_all
  have le: "real ?m \<le> 1 / x" using x by simp
  have lt: "1 / x < real ?m + 1" using x by linarith
  from b(1) have "(10::real) ^ (?d - 1) \<le> real ?m"
    by (rule real_pow10_le)
  with le have "(10::real) ^ (?d - 1) \<le> 1 / x" by linarith
  then have up: "x * 10 ^ (?d - 1) \<le> 1"
    using x by (simp add: field_simps)
  from b(2) have "real ?m + 1 \<le> 10 ^ ?d"
    by (rule real_less_pow10)
  with lt have "1 / x < 10 ^ ?d" by linarith
  then have lo: "1 < x * 10 ^ ?d"
    using x by (simp add: field_simps)
  have ten: "(10::real) ^ ?d = 10 * 10 ^ (?d - 1)"
    using d by (cases ?d) simp_all
  show ?thesis
  proof (cases "x * 10 ^ (?d - 1) = 1")
    case True
    with False have e: "dec_exponent x = - int (?d - 1)"
      by (simp add: dec_exponent_def Let_def)
    from True have xe: "x = 1 / 10 ^ (?d - 1)"
      by (simp add: field_simps)
    have "pow10 (- int (?d - 1) + 1) = 10 * pow10 (- int (?d - 1))"
      by (rule pow10_add1)
    with xe x show ?thesis
      unfolding e by (simp add: pow10_neg_nat)
  next
    case ne: False
    with False have e: "dec_exponent x = - int ?d"
      by (simp add: dec_exponent_def Let_def)
    have e1: "- int ?d + 1 = - int (?d - 1)"
      using d by arith
    from lo have a: "1 / 10 ^ ?d < x"
      by (simp add: field_simps)
    from up ne have "x * 10 ^ (?d - 1) < 1" by simp
    then have b: "x < 1 / 10 ^ (?d - 1)"
      by (simp add: field_simps)
    from a b show ?thesis
      unfolding e e1 by (simp add: pow10_neg_nat)
  qed
qed

lemma toPrecision_value_nearest:
  assumes x: "x \<noteq> 0"
  shows "\<bar>toPrecision_value 5 x - x\<bar> \<le> pow10 (dec_exponent \<bar>x\<bar> - 4) / 2"
    and "\<exists>n::int. toPrecision_value 5 x = of_int n * pow10 (dec_exponent \<bar>x\<bar> - 4)"
proof -
  let ?u = "pow10 (dec_exponent \<bar>x\<bar> - 4)"
  let ?k = "round_half_up (\<bar>x\<bar> / ?u)"
  have u: "0 < ?u" by (rule pow10_pos)
  have tp: "toPrecision_value 5 x = sgn x * of_int ?k * ?u"
    using x by (simp add: toPrecision_value_def Let_def)
  have xx: "x = sgn x * (\<bar>x\<bar> / ?u) * ?u"
    using u by (simp add: sgn_mult_abs)
  have "toPrecision_value 5 x - x = sgn x * (of_int ?k - \<bar>x\<bar> / ?u) * ?u"
    unfolding tp by (subst (2) xx) (simp add: algebra_simps)
  then have "\<bar>toPrecision_value 5 x - x\<bar> = \<bar>sgn x\<bar> * \<bar>of_int ?k - \<bar>x\<bar> / ?u\<bar> * ?u"
    using u by (simp add: abs_mult)
  also have "\<dots> \<le> 1 * (1 / 2) * ?u"
    using u by (intro mult_right_mono mult_mono round_half_up_bound) (simp_all add: abs_sgn_eq)
  finally show "\<bar>toPrecision_value 5 x - x\<bar> \<le> ?u / 2" by simp
  have "toPrecision_value 5 x = of_int (if 0 < x then ?k else - ?k) * ?u"
    using x unfolding tp by (simp add: sgn_if)
  then show "\<exists>n::int. toPrecision_value 5 x = of_int n * ?u" by blast
qed

subsection \<open>Rounding to a double\<close>

lemma pow2_pos: "0 < pow2 e"
  by (simp add: pow2_def)

lemma pow2_power_int: "pow2 e = power_int 2 e"
  by (simp add: pow2_def power_int_def inverse_eq_divide power_one_over)

lemma pow2_add1: "pow2 (e + 1) = 2 * pow2 e"
  by (simp add: pow2_power_int power_int_add)

lemma pow2_nat: "pow2 (int n) = 2 ^ n"
  by (simp add: pow2_def)

lemma pow2_neg_nat: "pow2 (- int n) = 1 / 2 ^ n"
  by (cases n) (simp_all add: pow2_def nat_add_distrib)

lemma bits_bounds: "0 < n \<Longrightarrow> 2 ^ (bits n - 1) \<le> n \<and> n < 2 ^ bits n"
proof (induction n rule: bits.induct)
  case (1 n)
  show ?case
  proof (cases "n div 2 = 0")
    case True
    with "1.prems" have "n = 1" by presburger
    then show ?thesis
      by (simp add: bits.simps [of "Suc 0"] bits.simps [of 0])
  next
    case False
    then have pos: "0 < n div 2" by simp
    from "1.prems" have n0: "n \<noteq> 0" by simp
    let ?L = "bits (n div 2)"
    from "1.IH" [OF n0 pos]
    have ih: "2 ^ (?L - 1) \<le> n div 2" "n div 2 < 2 ^ ?L" by simp_all
    have L: "0 < ?L"
      using False by (subst bits.simps) simp
    then have "(2::nat) ^ ?L = 2 * 2 ^ (?L - 1)"
      by (cases ?L) simp_all
    with ih(1) have lo: "2 ^ ?L \<le> n" by linarith
    from ih(2) have "n div 2 + 1 \<le> 2 ^ ?L" by simp
    then have "2 * (n div 2 + 1) \<le> 2 * 2 ^ ?L" by simp
    moreover have "n < 2 * (n div 2 + 1)" by presburger
    ultimately have hi: "n < 2 * 2 ^ ?L" by linarith
    from n0 lo hi show ?thesis
      by (simp add: bits.simps [of n])
  qed
qed

lemma real_pow2_le: "(2::nat) ^ k \<le> n \<Longrightarrow> (2::real) ^ k \<le> real n"
  using of_nat_mono [of "2 ^ k" n, where ?'a = real] by simp

lemma real_less_pow2: "n < (2::nat) ^ k \<Longrightarrow> real n + 1 \<le> 2 ^ k"
  using of_nat_mono [of "n + 1" "2 ^ k", where ?'a = real] by simp

lemma bin_exponent_bounds:
  assumes x: "0 < x"
  shows "pow2 (bin_exponent x) \<le> x \<and> x < pow2 (bin_exponent x + 1)"
proof (cases "1 \<le> x")
  case True
  let ?n = "nat \<lfloor>x\<rfloor>"
  let ?L = "bits ?n"
  from True have n: "0 < ?n" by simp
  from bits_bounds [OF n] have b: "2 ^ (?L - 1) \<le> ?n" "?n < 2 ^ ?L" by simp_all
  from b(2) have L: "0 < ?L" using n by (cases ?L) simp_all
  have Li: "int (?L - 1) = int ?L - 1"
    using L by arith
  have e: "bin_exponent x = int (?L - 1)" "int (?L - 1) + 1 = int ?L"
    using True Li by (simp_all add: bin_exponent_def)
  have "real ?n \<le> x" using True by simp
  moreover have "x < real ?n + 1" using True by linarith
  moreover from b(1) have "(2::real) ^ (?L - 1) \<le> real ?n"
    by (rule real_pow2_le)
  moreover from b(2) have "real ?n + 1 \<le> 2 ^ ?L"
    by (rule real_less_pow2)
  ultimately show ?thesis
    unfolding e pow2_nat by linarith
next
  case False
  with x have x1: "x < 1" by simp
  let ?m = "nat \<lfloor>1 / x\<rfloor>"
  let ?d = "bits ?m"
  from x x1 have "1 \<le> 1 / x" by simp
  then have m: "0 < ?m" by simp
  from bits_bounds [OF m] have b: "2 ^ (?d - 1) \<le> ?m" "?m < 2 ^ ?d" by simp_all
  from b(2) have d: "0 < ?d" using m by (cases ?d) simp_all
  have le: "real ?m \<le> 1 / x" using x by simp
  have lt: "1 / x < real ?m + 1" using x by linarith
  from b(1) have "(2::real) ^ (?d - 1) \<le> real ?m"
    by (rule real_pow2_le)
  with le have "(2::real) ^ (?d - 1) \<le> 1 / x" by linarith
  then have up: "x * 2 ^ (?d - 1) \<le> 1"
    using x by (simp add: field_simps)
  from b(2) have "real ?m + 1 \<le> 2 ^ ?d"
    by (rule real_less_pow2)
  with lt have "1 / x < 2 ^ ?d" by linarith
  then have lo: "1 < x * 2 ^ ?d"
    using x by (simp add: field_simps)
  have two: "(2::real) ^ ?d = 2 * 2 ^ (?d - 1)"
    using d by (cases ?d) simp_all
  show ?thesis
  proof (cases "x * 2 ^ (?d - 1) = 1")
    case True
    with False have e: "bin_exponent x = - int (?d - 1)"
      by (simp add: bin_exponent_def Let_def)
    from True have xe: "x = 1 / 2 ^ (?d - 1)"
      by (simp add: field_simps)
    have "pow2 (- int (?d - 1) + 1) = 2 * pow2 (- int (?d - 1))"
      by (rule pow2_add1)
    with xe x show ?thesis
      unfolding e by (simp add: pow2_neg_nat)
  next
    case ne: False
    with False have e: "bin_exponent x = - int ?d"
      by (simp add: bin_exponent_def Let_def)
    have e1: "- int ?d + 1 = - int (?d - 1)"
      using d by arith
    from lo have a: "1 / 2 ^ ?d < x"
      by (simp add: field_simps)
    from up ne have "x * 2 ^ (?d - 1) < 1" by simp
    then have b: "x < 1 / 2 ^ (?d - 1)"
      by (simp add: field_simps)
    from a b show ?thesis
      unfolding e e1 by (simp add: pow2_neg_nat)
  qed
qed

lemma round_half_even_bound: "\<bar>of_int (round_half_even y) - y\<bar> \<le> 1 / 2"
  unfolding round_half_even_def Let_def by (auto; linarith)

lemma dbl_nearest:
  assumes x: "x \<noteq> 0"
  shows "\<bar>dbl x - x\<bar> \<le> pow2 (max (bin_exponent \<bar>x\<bar>) (- 1022) - 52) / 2"
    and "\<exists>n::int. dbl x = of_int n * pow2 (max (bin_exponent \<bar>x\<bar>) (- 1022) - 52)"
proof -
  let ?u = "pow2 (max (bin_exponent \<bar>x\<bar>) (- 1022) - 52)"
  let ?k = "round_half_even (\<bar>x\<bar> / ?u)"
  have u: "0 < ?u" by (rule pow2_pos)
  have tp: "dbl x = sgn x * of_int ?k * ?u"
    using x by (simp add: dbl_def Let_def)
  have xx: "x = sgn x * (\<bar>x\<bar> / ?u) * ?u"
    using u by (simp add: sgn_mult_abs)
  have "dbl x - x = sgn x * (of_int ?k - \<bar>x\<bar> / ?u) * ?u"
    unfolding tp by (subst (2) xx) (simp add: algebra_simps)
  then have "\<bar>dbl x - x\<bar> = \<bar>sgn x\<bar> * \<bar>of_int ?k - \<bar>x\<bar> / ?u\<bar> * ?u"
    using u by (simp add: abs_mult)
  also have "\<dots> \<le> 1 * (1 / 2) * ?u"
    using u by (intro mult_right_mono mult_mono round_half_even_bound) (simp_all add: abs_sgn_eq)
  finally show "\<bar>dbl x - x\<bar> \<le> ?u / 2" by simp
  have "dbl x = of_int (if 0 < x then ?k else - ?k) * ?u"
    using x unfolding tp by (simp add: sgn_if)
  then show "\<exists>n::int. dbl x = of_int n * ?u" by blast
qed

subsection \<open>The book read and the entry order of one run\<close>

lemma hoare_record_close:
  assumes rs: "risk_stable I"
  shows "hoare I (record_close now cp pnl) P (\<lambda>_. True)"
  unfolding hoare_def
proof (intro allI impI)
  fix tk assume I: "I tk"
  have keep: "I (tk\<lparr>riskManager := rm\<rparr>)" for rm
  proof -
    from rs I have "I (tk\<lparr>riskManager := rm, riskChecks := riskChecks tk\<rparr>)"
      unfolding risk_stable_def by blast
    then show ?thesis by simp
  qed
  show "case record_close now cp pnl tk of
          (r, tk') \<Rightarrow> I tk' \<and> (\<exists>cs. calls tk' = calls tk @ cs \<and> list_all P cs)
             \<and> (case r of Inl _ \<Rightarrow> True | Inr x \<Rightarrow> True)"
    using I keep by (simp add: record_close_def split: option.splits)
qed

lemma quiet_calls:
  "quiet ClearinghouseState" "quiet AllMids" "quiet Meta" "quiet SpotMeta"
  "quiet (UpdateLeverage a b l)" "quiet (PlaceOrder req PositionTpsl)"
  "\<not> quiet (L2Book nm)" "\<not> quiet (PlaceOrder req Na)"
  by (simp_all add: quiet_def)

lemma dropWhile_quiet: "list_all quiet cs \<Longrightarrow> dropWhile quiet cs = []"
  by (simp add: list_all_iff)

lemma priced_entry_quiet: "list_all quiet cs \<Longrightarrow> priced_entry bid ask pct cs"
  by (simp add: priced_entry_def dropWhile_quiet)

lemma priced_entry_prepend:
  "list_all quiet cs0 \<Longrightarrow> priced_entry bid ask pct cs \<Longrightarrow> priced_entry bid ask pct (cs0 @ cs)"
  by (simp add: priced_entry_def list_all_iff dropWhile_append2)

lemma priced_from_book_quiet: "list_all quiet cs \<Longrightarrow> priced_from_book gw N pct n cs"
  by (simp add: priced_from_book_def dropWhile_quiet)

lemma priced_from_book_prepend:
  "list_all quiet cs0 \<Longrightarrow> priced_from_book gw N pct (n + length cs0) cs
   \<Longrightarrow> priced_from_book gw N pct n (cs0 @ cs)"
proof -
  assume q: "list_all quiet cs0" and p: "priced_from_book gw N pct (n + length cs0) cs"
  from q have d: "dropWhile quiet (cs0 @ cs) = dropWhile quiet cs"
    and t: "takeWhile quiet (cs0 @ cs) = cs0 @ takeWhile quiet cs"
    by (simp_all add: list_all_iff)
  from p show ?thesis
    unfolding priced_from_book_def d t length_append add.assoc [symmetric] .
qed

lemma appends_weaken:
  assumes m: "appends I m T" and t: "\<And>n cs. T n cs \<Longrightarrow> T' n cs"
  shows "appends I m T'"
  unfolding appends_def
proof (intro allI impI)
  fix tk assume I: "I tk"
  obtain r tk1 where mt: "m tk = (r, tk1)" by (cases "m tk")
  from m I mt obtain cs where "I tk1" "calls tk1 = calls tk @ cs" "T (length (calls tk)) cs"
    unfolding appends_def by force
  with t mt show "case m tk of
          (r, tk') \<Rightarrow> I tk' \<and> (\<exists>cs. calls tk' = calls tk @ cs \<and> T' (length (calls tk)) cs)"
    by auto
qed

lemma appends_quiet:
  assumes m: "hoare I m quiet Q" and t: "\<And>n cs. list_all quiet cs \<Longrightarrow> T n cs"
  shows "appends I m T"
  unfolding appends_def
proof (intro allI impI)
  fix tk assume I: "I tk"
  obtain r tk1 where mt: "m tk = (r, tk1)" by (cases "m tk")
  from m I mt obtain cs where "I tk1" "calls tk1 = calls tk @ cs" "list_all quiet cs"
    unfolding hoare_def by force
  with t mt show "case m tk of
          (r, tk') \<Rightarrow> I tk' \<and> (\<exists>cs. calls tk' = calls tk @ cs \<and> T (length (calls tk)) cs)"
    by auto
qed

lemma appends_bind:
  assumes m: "hoare I m quiet Q" and f: "\<And>x. Q x \<Longrightarrow> appends I (f x) T"
    and pre: "\<And>n cs0 cs. list_all quiet cs0 \<Longrightarrow> T (n + length cs0) cs \<Longrightarrow> T n (cs0 @ cs)"
    and nil: "\<And>n. T n []"
  shows "appends I (bind m f) T"
  unfolding appends_def
proof (intro allI impI)
  fix tk assume I: "I tk"
  obtain r tk1 where mt: "m tk = (r, tk1)" by (cases "m tk")
  from m I mt obtain cs1 where I1: "I tk1" and c1: "calls tk1 = calls tk @ cs1"
    and q1: "list_all quiet cs1" and r1: "case r of Inl _ \<Rightarrow> True | Inr x \<Rightarrow> Q x"
    unfolding hoare_def by force
  show "case bind m f tk of
          (r, tk') \<Rightarrow> I tk' \<and> (\<exists>cs. calls tk' = calls tk @ cs \<and> T (length (calls tk)) cs)"
  proof (cases r)
    case (Inl e)
    from pre [OF q1 nil] have "T (length (calls tk)) cs1" by simp
    with Inl mt I1 c1 show ?thesis by (auto simp: bind_def)
  next
    case (Inr x)
    with r1 have "Q x" by simp
    from f [OF this] I1 obtain r2 tk2 cs2 where ft: "f x tk1 = (r2, tk2)" and I2: "I tk2"
      and c2: "calls tk2 = calls tk1 @ cs2" and t2: "T (length (calls tk1)) cs2"
      unfolding appends_def by (cases "f x tk1") force
    from t2 c1 have "T (length (calls tk) + length cs1) cs2" by simp
    from pre [OF q1 this] c1 c2
    have "calls tk2 = calls tk @ (cs1 @ cs2) \<and> T (length (calls tk)) (cs1 @ cs2)" by simp
    then have "\<exists>cs. calls tk2 = calls tk @ cs \<and> T (length (calls tk)) cs" by blast
    with Inr mt ft I2 show ?thesis by (simp add: bind_def)
  qed
qed

lemma appends_read_slippage:
  assumes d: "\<And>tk. I tk \<Longrightarrow> defaultSlippage tk = d" and h: "appends I (f d) T"
  shows "appends I (\<lambda>tk. f (defaultSlippage tk) tk) T"
  using h d unfolding appends_def by simp

lemma appends_book:
  assumes st: "stable I" and nm: "N nm"
    and f: "\<And>bid ask. appends I (f (bid, ask)) (\<lambda>n. priced_entry bid ask pct)"
  shows "appends I (bind (getBookTopLevels gw nm) f) (priced_from_book gw N pct)"
  unfolding appends_def
proof (intro allI impI)
  fix tk assume I: "I tk"
  let ?tk1 = "tk\<lparr>calls := calls tk @ [L2Book nm]\<rparr>"
  from st I have I1: "I ?tk1" unfolding stable_def by blast
  have stop: "priced_from_book gw N pct (length (calls tk)) [L2Book nm]"
    using nm
    by (simp add: priced_from_book_def quiet_calls priced_entry_quiet
        split: sum.splits option.splits)
  show "case bind (getBookTopLevels gw nm) f tk of
          (r, tk') \<Rightarrow> I tk' \<and> (\<exists>cs. calls tk' = calls tk @ cs
                       \<and> priced_from_book gw N pct (length (calls tk)) cs)"
  proof (cases "gw_l2Book gw (length (calls tk)) nm")
    case (Inl msg)
    then have "bind (getBookTopLevels gw nm) f tk = (Inl (GatewayError msg), ?tk1)"
      by (simp add: getBookTopLevels_def io_defs)
    with I1 stop show ?thesis by simp
  next
    case (Inr book)
    show ?thesis
    proof (cases book)
      case None
      with Inr have "bind (getBookTopLevels gw nm) f tk = (Inl (NoOrderBook nm), ?tk1)"
        by (simp add: getBookTopLevels_def io_defs)
      with I1 stop show ?thesis by simp
    next
      case (Some bk)
      let ?bid = "top_px (bid_levels bk)" and ?ask = "top_px (ask_levels bk)"
      show ?thesis
      proof (cases "\<not> truthy ?bid \<or> \<not> truthy ?ask")
        case True
        with Inr Some have "bind (getBookTopLevels gw nm) f tk = (Inl (NoLiquidity nm), ?tk1)"
          by (auto simp: getBookTopLevels_def io_defs Let_def)
        with I1 stop show ?thesis by simp
      next
        case False
        with Inr Some have b: "bind (getBookTopLevels gw nm) f tk = f (?bid, ?ask) ?tk1"
          by (auto simp: getBookTopLevels_def io_defs Let_def)
        obtain r2 tk2 where ft: "f (?bid, ?ask) ?tk1 = (r2, tk2)" by (cases "f (?bid, ?ask) ?tk1")
        from f [of ?bid ?ask] I1 ft obtain cs2 where I2: "I tk2"
          and c2: "calls tk2 = calls ?tk1 @ cs2" and t2: "priced_entry ?bid ?ask pct cs2"
          unfolding appends_def by force
        from Inr Some t2 nm
        have "priced_from_book gw N pct (length (calls tk)) (L2Book nm # cs2)"
          by (simp add: priced_from_book_def quiet_calls)
        moreover from c2 have "calls tk2 = calls tk @ (L2Book nm # cs2)" by simp
        ultimately have "\<exists>cs. calls tk2 = calls tk @ cs
                       \<and> priced_from_book gw N pct (length (calls tk)) cs" by blast
        with b ft I2 show ?thesis by simp
      qed
    qed
  qed
qed

lemma appends_place:
  assumes st: "stable I" and f: "\<And>x. hoare I (f x) quiet Q"
    and price: "normal_or_zero (raw_price (o_b req) bid ask pct) \<longrightarrow>
                  o_p req = market_price (o_b req) bid ask pct"
  shows "appends I (bind (gw_call (PlaceOrder req Na) answer) f) (\<lambda>n. priced_entry bid ask pct)"
  unfolding appends_def
proof (intro allI impI)
  fix tk assume I: "I tk"
  let ?tk1 = "tk\<lparr>calls := calls tk @ [PlaceOrder req Na]\<rparr>"
  from st I have I1: "I ?tk1" unfolding stable_def by blast
  have placed: "priced_entry bid ask pct (PlaceOrder req Na # post)" if "list_all quiet post" for post
    using that price by (simp add: priced_entry_def quiet_calls)
  show "case bind (gw_call (PlaceOrder req Na) answer) f tk of
          (r, tk') \<Rightarrow> I tk' \<and> (\<exists>cs. calls tk' = calls tk @ cs \<and> priced_entry bid ask pct cs)"
  proof (cases "answer (length (calls tk))")
    case (Inl msg)
    then have "bind (gw_call (PlaceOrder req Na) answer) f tk = (Inl (GatewayError msg), ?tk1)"
      by (simp add: io_defs)
    with I1 placed [of "[]"] show ?thesis by simp
  next
    case (Inr v)
    then have b: "bind (gw_call (PlaceOrder req Na) answer) f tk = f v ?tk1"
      by (simp add: io_defs)
    obtain r2 tk2 where ft: "f v ?tk1 = (r2, tk2)" by (cases "f v ?tk1")
    from f [of v] I1 ft obtain cs2 where I2: "I tk2"
      and c2: "calls tk2 = calls ?tk1 @ cs2" and q2: "list_all quiet cs2"
      unfolding hoare_def by force
    from c2 have "calls tk2 = calls tk @ (PlaceOrder req Na # cs2)" by simp
    with placed [OF q2] have "\<exists>cs. calls tk2 = calls tk @ cs \<and> priced_entry bid ask pct cs"
      by blast
    with b ft I2 show ?thesis by simp
  qed
qed


lemma bind_assoc: "bind (bind m g) k = bind m (\<lambda>x. bind (g x) k)"
  by (auto simp: bind_def fun_eq_iff split: prod.splits sum.splits)

lemma bind_ret: "bind (ret x) k = k x"
  by (simp add: bind_def ret_def)

lemma hoare_getAssetIndex_name:
  assumes st: "stable I" and p: "P Meta" "P SpotMeta"
  shows "hoare I (getAssetIndex gw c mkt) P (\<lambda>asset. mkt = Perp \<longrightarrow> ar_pairName asset = c)"
  using st p
  unfolding hoare_def stable_def
  by (cases mkt)
     (auto simp: getAssetIndex_def io_defs split: option.splits sum.splits)

lemma appends_priced_entry_bind:
  assumes "hoare I m quiet Q"
    and "\<And>x. Q x \<Longrightarrow> appends I (f x) (\<lambda>n. priced_entry bid ask pct)"
  shows "appends I (bind m f) (\<lambda>n. priced_entry bid ask pct)"
  by (rule appends_bind [OF assms]) (simp_all add: priced_entry_prepend priced_entry_quiet)

lemma appends_priced_from_book_bind:
  assumes "hoare I m quiet Q"
    and "\<And>x. Q x \<Longrightarrow> appends I (f x) (priced_from_book gw N pct)"
  shows "appends I (bind m f) (priced_from_book gw N pct)"
  by (rule appends_bind [OF assms])
     (simp_all add: priced_from_book_prepend priced_from_book_quiet)

lemma appends_entry_price:
  assumes d: "\<And>tk. I tk \<Longrightarrow> defaultSlippage tk = d"
    and mk: "\<not> (orderType params = Some Limit \<and> truthy_opt (limitPrice params))"
    and k: "appends I (k (market_price isBuy bid ask (or_default (slippagePercent params) d),
                          Ioc)) T"
  shows "appends I (bind (entry_price gw params nm isBuy (Some (bid, ask))) k) T"
proof -
  have "bind (entry_price gw params nm isBuy (Some (bid, ask))) k tk
          = k (market_price isBuy bid ask (or_default (slippagePercent params) d), Ioc) tk"
    if "I tk" for tk
    using mk d [OF that] by (auto simp: entry_price_def io_defs)
  with k show ?thesis
    unfolding appends_def by simp
qed

lemma appends_submit_entry:
  assumes st: "stable I" and d: "\<And>tk. I tk \<Longrightarrow> defaultSlippage tk = d"
    and mk: "\<not> (orderType params = Some Limit \<and> truthy_opt (limitPrice params))"
  shows "appends I (submit_entry gw params mkt)
           (priced_from_book gw (\<lambda>nm. mkt = Perp \<longrightarrow> nm = toUpperCase (coin params))
              (or_default (slippagePercent params) d))"
  unfolding submit_entry_def Let_def
  apply (rule appends_priced_from_book_bind [OF hoare_getAssetIndex_name [OF st]])
    apply (simp_all only: quiet_calls)
  subgoal for asset
    using mk
    apply (simp only: bind_assoc bind_ret simp_thms if_True)
    apply (rule appends_book [OF st])
     apply simp
    subgoal for bid ask
      apply (rule appends_priced_entry_bind [where Q = "\<lambda>_. True"])
       apply (rule hoare_lift, simp)
      apply (rule appends_priced_entry_bind [where Q = "\<lambda>_. True"])
       apply (auto intro!: hoare_ret hoare_gw_call [OF st] simp: quiet_calls)[1]
      apply (rule appends_entry_price [OF d mk], assumption)
      apply (simp only: prod.case)
      apply (rule appends_place [OF st])
       apply (rule hoare_after_entry [OF st])
        apply (simp_all add: quiet_calls)
      done
    done
  done


lemma appends_openPosition_body:
  assumes st: "stable I" and rs: "risk_stable I"
    and d: "\<And>tk. I tk \<Longrightarrow> defaultSlippage tk = d"
    and mk: "\<not> (orderType params = Some Limit \<and> truthy_opt (limitPrice params))"
  shows "appends I (openPosition_body gw now params)
           (priced_from_book gw
              (\<lambda>nm. market params \<noteq> Some Spot \<longrightarrow> nm = toUpperCase (coin params))
              (or_default (slippagePercent params) d))"
proof -
  let ?mkt = "case market params of None \<Rightarrow> Perp | Some m \<Rightarrow> m"
  have eq: "(?mkt = Perp) = (market params \<noteq> Some Spot)"
    by (cases "market params") (auto intro: market_kind.exhaust)
  have sub: "appends I (submit_entry gw params ?mkt)
           (priced_from_book gw
              (\<lambda>nm. market params \<noteq> Some Spot \<longrightarrow> nm = toUpperCase (coin params))
              (or_default (slippagePercent params) d))"
    using appends_submit_entry [OF st d mk, of gw ?mkt] unfolding eq .
  show ?thesis
    unfolding openPosition_body_def Let_def
    apply (rule appends_priced_from_book_bind [OF hoare_risk_checks [OF st rs]])
      apply (simp_all only: quiet_calls)
    subgoal for rc
      by (cases rc)
         (auto intro!: sub appends_quiet [OF hoare_ret] simp: priced_from_book_quiet)
    done
qed

lemma openPosition_priced_from_book:
  assumes mk: "\<not> (orderType params = Some Limit \<and> truthy_opt (limitPrice params))"
  shows "priced_from_book gw
           (\<lambda>nm. market params \<noteq> Some Spot \<longrightarrow> nm = toUpperCase (coin params))
           (or_default (slippagePercent params) (defaultSlippage tk))
           (length (calls tk)) (new_calls tk (snd (openPosition gw now params tk)))"
proof -
  let ?I = "\<lambda>t. defaultSlippage t = defaultSlippage tk"
  obtain r tk' where b: "openPosition_body gw now params tk = (r, tk')"
    by (cases "openPosition_body gw now params tk")
  have "appends ?I (openPosition_body gw now params)
           (priced_from_book gw
              (\<lambda>nm. market params \<noteq> Some Spot \<longrightarrow> nm = toUpperCase (coin params))
              (or_default (slippagePercent params) (defaultSlippage tk)))"
    by (rule appends_openPosition_body [OF stable_slippage _ mk]) simp
  with b obtain cs where c: "calls tk' = calls tk @ cs"
    and p: "priced_from_book gw
              (\<lambda>nm. market params \<noteq> Some Spot \<longrightarrow> nm = toUpperCase (coin params))
              (or_default (slippagePercent params) (defaultSlippage tk)) (length (calls tk)) cs"
    unfolding appends_def by force
  from b have "snd (openPosition gw now params tk) = tk'"
    by (cases r) (simp_all add: openPosition_def)
  with c p show ?thesis
    by (simp add: new_calls_def)
qed

lemma appends_submit_close:
  assumes st: "stable I" and rs: "risk_stable I"
    and d: "\<And>tk. I tk \<Longrightarrow> defaultSlippage tk = d"
  shows "appends I (submit_close gw now params c position)
           (priced_from_book gw (\<lambda>nm. nm = c) (or_default (cp_slippagePercent params) d))"
  unfolding submit_close_def Let_def
  apply (rule appends_priced_from_book_bind [OF hoare_getAssetIndex [OF st]])
    apply (simp_all only: quiet_calls)
  subgoal for asset
    apply (rule appends_priced_from_book_bind [where Q = "\<lambda>_. True"])
     apply (rule hoare_lift, simp)
    apply (rule appends_book [OF st])
     apply simp
    subgoal for closeSize bid ask
      apply (simp only: prod.case)
      apply (rule appends_read_slippage [OF d], assumption)
      apply (rule appends_place [OF st, where Q = "\<lambda>_. True"])
       apply (rule hoare_bind [OF hoare_record_close [OF rs]])
       apply (rule hoare_bind [where R = "\<lambda>_. True"])
        apply (rule hoare_lift, simp)
       apply (rule hoare_ret, simp)
      apply simp
      done
    done
  done

lemma appends_closePosition_body:
  assumes st: "stable I" and rs: "risk_stable I"
    and d: "\<And>tk. I tk \<Longrightarrow> defaultSlippage tk = d"
  shows "appends I (closePosition_body gw now params)
           (priced_from_book gw (\<lambda>nm. nm = toUpperCase (cp_coin params))
              (or_default (cp_slippagePercent params) d))"
  unfolding closePosition_body_def Let_def
  apply (rule appends_priced_from_book_bind [OF hoare_getPositions [OF st]])
    apply (simp_all only: quiet_calls)
  subgoal for positionsResult
    by (cases positionsResult)
       (auto split: option.splits
          intro!: appends_quiet [OF hoare_throw] appends_submit_close [OF st rs d]
          simp: priced_from_book_quiet)
  done

lemma closePosition_priced_from_book:
  "priced_from_book gw (\<lambda>nm. nm = toUpperCase (cp_coin params))
     (or_default (cp_slippagePercent params) (defaultSlippage tk))
     (length (calls tk)) (new_calls tk (snd (closePosition gw now params tk)))"
proof -
  let ?I = "\<lambda>t. defaultSlippage t = defaultSlippage tk"
  obtain r tk' where b: "closePosition_body gw now params tk = (r, tk')"
    by (cases "closePosition_body gw now params tk")
  have "appends ?I (closePosition_body gw now params)
           (priced_from_book gw (\<lambda>nm. nm = toUpperCase (cp_coin params))
              (or_default (cp_slippagePercent params) (defaultSlippage tk)))"
    by (rule appends_closePosition_body [OF stable_slippage]) simp
  with b obtain cs where c: "calls tk' = calls tk @ cs"
    and p: "priced_from_book gw (\<lambda>nm. nm = toUpperCase (cp_coin params))
              (or_default (cp_slippagePercent params) (defaultSlippage tk))
              (length (calls tk)) cs"
    unfolding appends_def by force
  from b have "snd (closePosition gw now params tk) = tk'"
    by (cases r) (simp_all add: closePosition_def)
  with c p show ?thesis
    by (simp add: new_calls_def)
qed

subsection \<open>Market orders at concrete inputs\<close>

lemma market_buy_moving_calls:
  "calls (snd (openPosition moving_gateway 0 params_market_buy tk_plain))
     = [Meta, L2Book ''BTC'', UpdateLeverage 0 True 1,
        PlaceOrder \<lparr>o_a = 0, o_b = True, o_p = 5151 / 50, o_s = ''0.5'', o_r = False,
                    o_t = LimitTif Ioc\<rparr> Na]"
  by (simp add: open_defs status_defs number_defs params_market_buy_def upper_BTC io_defs
      moving_gateway_def demo_defs Let_def)

lemma close_sell_moving_calls:
  "calls (snd (closePosition moving_gateway 0 close_btc tk_plain))
     = [ClearinghouseState, AllMids, Meta, L2Book ''BTC'',
        PlaceOrder \<lparr>o_a = 0, o_b = False, o_p = 10197 / 100, o_s = ''0.5'', o_r = True,
                    o_t = LimitTif Ioc\<rparr> Na]"
  by (simp add: close_defs account_defs status_defs number_defs close_btc_def upper_BTC
      moving_gateway_def io_defs demo_defs Let_def)

lemma market_buy_10075_calls:
  "calls (snd (openPosition (demo_gateway 100 (403 / 4) status_filled) 0 params_market_buy
                  tk_plain))
     = [Meta, L2Book ''BTC'', UpdateLeverage 0 True 1,
        PlaceOrder \<lparr>o_a = 0, o_b = True, o_p = 2544 / 25, o_s = ''0.5'', o_r = False,
                    o_t = LimitTif Ioc\<rparr> Na]"
  by (simp add: open_defs status_defs number_defs params_market_buy_def upper_BTC io_defs
      demo_defs Let_def)

lemma close_buy_10075_calls:
  "calls (snd (closePosition (short_gateway 100 (403 / 4) status_filled) 1000 close_btc
                 tk_plain))
     = [ClearinghouseState, AllMids, Meta, L2Book ''BTC'',
        PlaceOrder \<lparr>o_a = 0, o_b = True, o_p = 2544 / 25, o_s = ''0.5'', o_r = True,
                    o_t = LimitTif Ioc\<rparr> Na]"
  by (simp add: close_defs account_defs status_defs number_defs close_btc_def upper_BTC
      short_gateway_def io_defs demo_defs Let_def)

lemma truncate_examples:
  "truncate_sig 5 (403 / 4 * (1 + 1 / 100)) = 407 / 4"
  "truncate_sig 5 (raw_price True 100 (403 / 4) 1) = 407 / 4"
  "truncate_sig 5 (101 * (1 + 1 / 100)) = 10201 / 100"
  "truncate_sig 5 (100 * (1 - 1 / 100)) = 99"
  unfolding raw_price_examples
  by (simp_all add: truncate_sig_def format_defs)

lemma toPrecision_examples:
  "toPrecision_value 5 (401 / 4 * (1 + 2 / 100)) = 5113 / 50"
  "toPrecision_value 5 (801 / 8) = 10013 / 100"
  "toPrecision_value 5 (- (801 / 8)) = - (10013 / 100)"
  by (simp_all add: format_defs)

lemma normal_examples:
  "normal_or_zero (raw_price True 101 102 1)"
  "normal_or_zero (raw_price False 103 104 1)"
  "normal_or_zero (raw_price True 100 (403 / 4) 1)"
  unfolding raw_price_examples
  by (simp_all add: normal_or_zero_def)

text \<open>
  With the best ask at 100.75 and a slippage of 1%, a market buy is submitted at 101.76,
  by \<open>openPosition\<close> and by \<open>closePosition\<close> alike: \<open>toPrecision(5)\<close> rounds the
  raw price, a double just above 101.7575, to the nearest. Truncated to 5 significant
  figures, the raw price and the exact product alike would give 101.75.
\<close>

theorem market_price_not_truncated_counterexample:
  "calls (snd (openPosition (demo_gateway 100 (403 / 4) status_filled) 0 params_market_buy
                  tk_plain))
     = [Meta, L2Book ''BTC'', UpdateLeverage 0 True 1,
        PlaceOrder \<lparr>o_a = 0, o_b = True, o_p = 2544 / 25, o_s = ''0.5'', o_r = False,
                    o_t = LimitTif Ioc\<rparr> Na]
   \<and> calls (snd (closePosition (short_gateway 100 (403 / 4) status_filled) 1000 close_btc
                     tk_plain))
     = [ClearinghouseState, AllMids, Meta, L2Book ''BTC'',
        PlaceOrder \<lparr>o_a = 0, o_b = True, o_p = 2544 / 25, o_s = ''0.5'', o_r = True,
                    o_t = LimitTif Ioc\<rparr> Na]
   \<and> truncate_sig 5 (403 / 4 * (1 + 1 / 100)) = 407 / 4
   \<and> truncate_sig 5 (raw_price True 100 (403 / 4) 1) = 407 / 4
   \<and> (2544 / 25 :: real) \<noteq> 407 / 4"
proof (intro conjI)
  show "(2544 / 25 :: real) \<noteq> 407 / 4" by simp
qed (rule market_buy_10075_calls close_buy_10075_calls truncate_examples)+

text \<open>
  Claim C2, as amended. In a run of \<open>openPosition\<close> that is not a limit order, and in
  every run of \<open>closePosition\<close>, the calls are as \<open>priced_from_book\<close> says: the run
  reads at most one order book, for a perp order and for a close that of the upper-cased
  coin; an order outside a take-profit and stop-loss group is placed at most once, after
  that reading, and its price is \<open>market_price\<close> of the order's side, of the best bid
  and ask of the book that the exchange answered to that very call, and of the caller's
  \<open>slippagePercent\<close>, or of the default slippage when that is undefined or 0. This is
  said of a raw price that is zero or a normal double; outside that range the price
  string is not modelled. \<open>market_price\<close> is the raw price rounded as
  \<open>toPrecision(5)\<close> rounds: to the nearest multiple of the unit of the fifth significant
  digit, at most half a unit away, a tie going away from zero. The raw price is
  \<open>bestAsk * (1 + s)\<close> for a buy and \<open>bestBid * (1 - s)\<close> for a sell, with \<open>s\<close>
  the slippage divided by 100, in the arithmetic of doubles: the division, the addition
  or subtraction and the multiplication each round to the nearest double, at most half a
  unit of the last binary digit away. So the price is not always the exact product
  rounded: with the best ask at 100.25 and a slippage of 2% the raw price is a double
  below 102.255 and the price is 102.25, not 102.26. For a best bid of 100, a best ask of
  101 and a slippage of 1%, the buy and the sell price are those of the specification,
  \<open>101 * 1.01\<close> and \<open>100 * 0.99\<close> truncated to 5 significant figures.
\<close>

theorem market_price_rounded:
  "(\<not> (orderType params = Some Limit \<and> truthy_opt (limitPrice params)) \<longrightarrow>
      priced_from_book gw
        (\<lambda>nm. market params \<noteq> Some Spot \<longrightarrow> nm = toUpperCase (coin params))
        (or_default (slippagePercent params) (defaultSlippage tk))
        (length (calls tk)) (new_calls tk (snd (openPosition gw now params tk))))
   \<and> priced_from_book gw (\<lambda>nm. nm = toUpperCase (cp_coin cparams))
        (or_default (cp_slippagePercent cparams) (defaultSlippage tk))
        (length (calls tk)) (new_calls tk (snd (closePosition gw now cparams tk)))
   \<and> or_default None d = d \<and> or_default (Some 0) d = d
   \<and> (v \<noteq> 0 \<longrightarrow> or_default (Some v) d = v)
   \<and> market_price isBuy bid ask pct = toPrecision_value 5 (raw_price isBuy bid ask pct)
   \<and> raw_price isBuy bid ask pct
       = (if isBuy then dbl (ask * dbl (1 + dbl (pct / 100)))
          else dbl (bid * dbl (1 - dbl (pct / 100))))
   \<and> (y \<noteq> 0 \<longrightarrow>
        pow2 (bin_exponent \<bar>y\<bar>) \<le> \<bar>y\<bar> \<and> \<bar>y\<bar> < pow2 (bin_exponent \<bar>y\<bar> + 1)
        \<and> \<bar>dbl y - y\<bar> \<le> pow2 (max (bin_exponent \<bar>y\<bar>) (- 1022) - 52) / 2
        \<and> (\<exists>n::int. dbl y = of_int n * pow2 (max (bin_exponent \<bar>y\<bar>) (- 1022) - 52)))
   \<and> (x \<noteq> 0 \<longrightarrow>
        pow10 (dec_exponent \<bar>x\<bar>) \<le> \<bar>x\<bar> \<and> \<bar>x\<bar> < pow10 (dec_exponent \<bar>x\<bar> + 1)
        \<and> \<bar>toPrecision_value 5 x - x\<bar> \<le> pow10 (dec_exponent \<bar>x\<bar> - 4) / 2
        \<and> (\<exists>n::int. toPrecision_value 5 x = of_int n * pow10 (dec_exponent \<bar>x\<bar> - 4)))
   \<and> toPrecision_value 5 (801 / 8) = 10013 / 100
   \<and> toPrecision_value 5 (- (801 / 8)) = - (10013 / 100)
   \<and> market_price True 100 101 1 = truncate_sig 5 (101 * (1 + 1 / 100))
   \<and> market_price False 100 101 1 = truncate_sig 5 (100 * (1 - 1 / 100))
   \<and> market_price True 100 (401 / 4) 2 = 409 / 4
   \<and> toPrecision_value 5 (401 / 4 * (1 + 2 / 100)) = 5113 / 50"
proof -
  have o: "priced_from_book gw
        (\<lambda>nm. market params \<noteq> Some Spot \<longrightarrow> nm = toUpperCase (coin params))
        (or_default (slippagePercent params) (defaultSlippage tk))
        (length (calls tk)) (new_calls tk (snd (openPosition gw now params tk)))"
    if "\<not> (orderType params = Some Limit \<and> truthy_opt (limitPrice params))"
    using that by (rule openPosition_priced_from_book)
  have c: "priced_from_book gw (\<lambda>nm. nm = toUpperCase (cp_coin cparams))
        (or_default (cp_slippagePercent cparams) (defaultSlippage tk))
        (length (calls tk)) (new_calls tk (snd (closePosition gw now cparams tk)))"
    by (rule closePosition_priced_from_book)
  have s: "or_default None d = d" "or_default (Some 0) d = d"
    "v \<noteq> 0 \<longrightarrow> or_default (Some v) d = v"
    by (simp_all add: or_default_def truthy_def)
  have m: "market_price isBuy bid ask pct = toPrecision_value 5 (raw_price isBuy bid ask pct)"
    by (simp add: market_price_def)
  have r: "raw_price isBuy bid ask pct
       = (if isBuy then dbl (ask * dbl (1 + dbl (pct / 100)))
          else dbl (bid * dbl (1 - dbl (pct / 100))))"
    by (simp add: raw_price_def Let_def)
  have a: "pow2 (bin_exponent \<bar>y\<bar>) \<le> \<bar>y\<bar> \<and> \<bar>y\<bar> < pow2 (bin_exponent \<bar>y\<bar> + 1)
        \<and> \<bar>dbl y - y\<bar> \<le> pow2 (max (bin_exponent \<bar>y\<bar>) (- 1022) - 52) / 2
        \<and> (\<exists>n::int. dbl y = of_int n * pow2 (max (bin_exponent \<bar>y\<bar>) (- 1022) - 52))"
    if "y \<noteq> 0"
    using that bin_exponent_bounds [of "\<bar>y\<bar>"] dbl_nearest [of y]
    by simp
  have b: "pow10 (dec_exponent \<bar>x\<bar>) \<le> \<bar>x\<bar> \<and> \<bar>x\<bar> < pow10 (dec_exponent \<bar>x\<bar> + 1)
        \<and> \<bar>toPrecision_value 5 x - x\<bar> \<le> pow10 (dec_exponent \<bar>x\<bar> - 4) / 2
        \<and> (\<exists>n::int. toPrecision_value 5 x = of_int n * pow10 (dec_exponent \<bar>x\<bar> - 4))"
    if "x \<noteq> 0"
    using that dec_exponent_bounds [of "\<bar>x\<bar>"] toPrecision_value_nearest [of x]
    by simp
  have e: "market_price True 100 101 1 = truncate_sig 5 (101 * (1 + 1 / 100))"
    "market_price False 100 101 1 = truncate_sig 5 (100 * (1 - 1 / 100))"
    unfolding truncate_examples by (rule market_price_examples)+
  note t = toPrecision_examples market_price_examples(4)
  show ?thesis
    using o c s m r a b e t
    by blast
qed

theorem market_price_rounded_witness:
  "\<not> (orderType params_market_buy = Some Limit \<and> truthy_opt (limitPrice params_market_buy))
   \<and> new_calls tk_plain (snd (openPosition moving_gateway 0 params_market_buy tk_plain))
       = [Meta, L2Book ''BTC'', UpdateLeverage 0 True 1,
          PlaceOrder \<lparr>o_a = 0, o_b = True, o_p = 5151 / 50, o_s = ''0.5'', o_r = False,
                      o_t = LimitTif Ioc\<rparr> Na]
   \<and> priced_from_book moving_gateway
        (\<lambda>nm. market params_market_buy \<noteq> Some Spot
               \<longrightarrow> nm = toUpperCase (coin params_market_buy)) 1 0
        [Meta, L2Book ''BTC'', UpdateLeverage 0 True 1,
          PlaceOrder \<lparr>o_a = 0, o_b = True, o_p = 5151 / 50, o_s = ''0.5'', o_r = False,
                      o_t = LimitTif Ioc\<rparr> Na]
   \<and> market params_market_buy \<noteq> Some Spot
   \<and> toUpperCase (coin params_market_buy) = ''BTC''
   \<and> gw_l2Book moving_gateway 1 ''BTC''
       = Inr (Some \<lparr>bid_levels = [(101, 5)], ask_levels = [(102, 4)]\<rparr>)
   \<and> normal_or_zero (raw_price True 101 102 1)
   \<and> market_price True 101 102 1 = 5151 / 50
   \<and> new_calls tk_plain (snd (closePosition moving_gateway 0 close_btc tk_plain))
       = [ClearinghouseState, AllMids, Meta, L2Book ''BTC'',
          PlaceOrder \<lparr>o_a = 0, o_b = False, o_p = 10197 / 100, o_s = ''0.5'', o_r = True,
                      o_t = LimitTif Ioc\<rparr> Na]
   \<and> priced_from_book moving_gateway (\<lambda>nm. nm = toUpperCase (cp_coin close_btc)) 1 0
        [ClearinghouseState, AllMids, Meta, L2Book ''BTC'',
          PlaceOrder \<lparr>o_a = 0, o_b = False, o_p = 10197 / 100, o_s = ''0.5'', o_r = True,
                      o_t = LimitTif Ioc\<rparr> Na]
   \<and> gw_l2Book moving_gateway 3 ''BTC''
       = Inr (Some \<lparr>bid_levels = [(103, 5)], ask_levels = [(104, 4)]\<rparr>)
   \<and> normal_or_zero (raw_price False 103 104 1)
   \<and> market_price False 103 104 1 = 10197 / 100
   \<and> (2 :: real) \<noteq> 0 \<and> or_default (Some 2) 1 = 2
   \<and> (10201 / 100 :: real) \<noteq> 0
   \<and> pow10 (dec_exponent \<bar>10201 / 100\<bar>) \<le> \<bar>10201 / 100\<bar>
   \<and> toPrecision_value 5 (10201 / 100) = 10201 / 100
   \<and> pow2 (bin_exponent \<bar>10201 / 100\<bar>) \<le> \<bar>10201 / 100\<bar>
   \<and> \<bar>dbl (10201 / 100) - 10201 / 100\<bar> \<le> 1 / 2 ^ 47
   \<and> market_price True 100 101 1 = 10201 / 100
   \<and> market_price False 100 101 1 = 99"
proof -
  have p: "\<not> (orderType params_market_buy = Some Limit
              \<and> truthy_opt (limitPrice params_market_buy))"
    "market params_market_buy \<noteq> Some Spot"
    by (simp_all add: params_market_buy_def no_params_def)
  have u: "toUpperCase (coin params_market_buy) = ''BTC''"
    by (simp add: params_market_buy_def no_params_def upper_BTC)
  have o: "new_calls tk_plain (snd (openPosition moving_gateway 0 params_market_buy tk_plain))
       = [Meta, L2Book ''BTC'', UpdateLeverage 0 True 1,
          PlaceOrder \<lparr>o_a = 0, o_b = True, o_p = 5151 / 50, o_s = ''0.5'', o_r = False,
                      o_t = LimitTif Ioc\<rparr> Na]"
    by (simp add: new_calls_def market_buy_moving_calls) (simp add: tk_plain_def)
  have c: "new_calls tk_plain (snd (closePosition moving_gateway 0 close_btc tk_plain))
       = [ClearinghouseState, AllMids, Meta, L2Book ''BTC'',
          PlaceOrder \<lparr>o_a = 0, o_b = False, o_p = 10197 / 100, o_s = ''0.5'', o_r = True,
                      o_t = LimitTif Ioc\<rparr> Na]"
    by (simp add: new_calls_def close_sell_moving_calls) (simp add: tk_plain_def)
  have d: "defaultSlippage tk_plain = 1" "slippagePercent params_market_buy = None"
    "cp_slippagePercent close_btc = None" "length (calls tk_plain) = 0"
    by (simp_all add: tk_plain_def params_market_buy_def no_params_def close_btc_def)
  have g: "gw_l2Book moving_gateway (Suc 0) ''BTC''
       = Inr (Some \<lparr>bid_levels = [(101, 5)], ask_levels = [(102, 4)]\<rparr>)"
    "gw_l2Book moving_gateway 3 ''BTC''
       = Inr (Some \<lparr>bid_levels = [(103, 5)], ask_levels = [(104, 4)]\<rparr>)"
    by (simp_all add: moving_gateway_def demo_gateway_def)
  have t: "truncate_sig 5 (101 * (1 + 1 / 100)) = 10201 / 100"
    "truncate_sig 5 (100 * (1 - 1 / 100)) = 99"
    by (rule truncate_examples)+
  have e: "bin_exponent (10201 / 100) = 6" "dec_exponent (10201 / 100) = 2"
    by (simp_all add: bin_exponent_def dec_exponent_def bits_numeral digits_numeral digit_char_def)
  note m = market_price_rounded [where params = params_market_buy
      and gw = moving_gateway and tk = tk_plain and now = 0
      and cparams = close_btc and d = 1 and v = 2 and isBuy = True and bid = 100 and ask = 101
      and pct = 1 and x = "10201 / 100" and y = "10201 / 100", unfolded t o c d]
  have n: "normal_or_zero (raw_price True 101 102 1)"
    "normal_or_zero (raw_price False 103 104 1)"
    by (rule normal_examples)+
  have f: "toPrecision_value 5 (10201 / 100) = 10201 / 100"
    by (simp add: format_defs)
  show ?thesis
    using p m n unfolding o c
    by (simp add: or_default_def u g e f market_price_examples pow10_def pow2_def)
qed

end
